(* ===== verification/Coro_Prelude.thy ===== *)
theory Coro_Prelude
  imports Main "HOL-Library.Word" "HOL-Library.Monad_Syntax"
begin

text \<open>
  Shared vocabulary of the development: the outcome type of C++ code, pointers, checked
  64 bit arithmetic, and the generic lemmas on lists and options that the component
  theories use.

  A C++ computation that can have undefined behaviour (a null or out-of-range pointer, the
  use of an object that was never constructed, a signed overflow, \<open>*\<close> on an empty
  \<open>std::optional\<close>) or that may not return is a function into \<open>option\<close>: \<open>None\<close> is
  "undefined behaviour or no return". A theorem \<open>f x = Some y\<close> therefore says that the
  code returns, with \<open>y\<close>, and that no step on the way is undefined.
\<close>

unbundle bit_operations_syntax

named_theorems ops_defs \<open>definitions of the operations of a component\<close>
named_theorems refine \<open>refinement facts of a component\<close>

section \<open>Pointers into a node array\<close>

text \<open>A pointer is null (\<open>None\<close>) or designates an entry of an array by its index.\<close>

type_synonym ptr = "nat option"

definition ptr_inc :: "ptr \<Rightarrow> ptr" where
  "ptr_inc p = map_option Suc p"

lemma ptr_inc_simps [simp]: "ptr_inc None = None" "ptr_inc (Some i) = Some (Suc i)"
  by (simp_all add: ptr_inc_def)

section \<open>Signed 64 bit arithmetic, overflow undefined\<close>

definition i64 :: "int \<Rightarrow> int option" where
  "i64 x = (if - (2 ^ 63) \<le> x \<and> x < 2 ^ 63 then Some x else None)"

lemma i64_SomeD: "i64 x = Some y \<Longrightarrow> y = x"
  by (simp add: i64_def split: if_splits)

text \<open>Division of C++ integers truncates towards zero.\<close>

definition cdiv :: "int \<Rightarrow> int \<Rightarrow> int" where
  "cdiv a b = sgn a * sgn b * (\<bar>a\<bar> div \<bar>b\<bar>)"

lemma cdiv_nonneg [simp]: "0 \<le> a \<Longrightarrow> 0 < b \<Longrightarrow> cdiv a b = a div b"
  by (cases "a = 0") (auto simp: cdiv_def)

lemma cdiv_le:
  assumes "0 < b"
  shows "\<bar>cdiv a b\<bar> \<le> \<bar>a\<bar>"
proof -
  have "\<bar>a\<bar> div b \<le> \<bar>a\<bar> div 1" using assms by (intro zdiv_mono2) auto
  moreover have "0 \<le> \<bar>a\<bar> div b" using assms by (simp add: pos_imp_zdiv_nonneg_iff)
  ultimately show ?thesis
    using assms by (cases "a < 0") (simp_all add: cdiv_def abs_mult sgn_if)
qed

lemma cdiv_mono:
  assumes "a \<le> a'" and "0 < b"
  shows "cdiv a b \<le> cdiv a' b"
proof (cases "0 \<le> a \<or> a' < 0")
  case True
  then show ?thesis
  proof
    assume "0 \<le> a"
    with assms show ?thesis by (simp add: zdiv_mono1)
  next
    assume "a' < 0"
    with assms zdiv_mono1 [of "- a'" "- a" b] show ?thesis by (simp add: cdiv_def)
  qed
next
  case False
  then have "cdiv a b \<le> 0" using assms(2) by (simp add: cdiv_def pos_imp_zdiv_nonneg_iff)
  moreover have "0 \<le> cdiv a' b" using False assms(2) by (simp add: pos_imp_zdiv_nonneg_iff)
  ultimately show ?thesis by simp
qed

section \<open>Lists and options\<close>

text \<open>The first element of a list as an option, the head pointer of a linked chain.\<close>

definition hd_opt :: "'a list \<Rightarrow> 'a option" where
  "hd_opt xs = (case xs of [] \<Rightarrow> None | x # _ \<Rightarrow> Some x)"

definition last_opt :: "'a list \<Rightarrow> 'a option" where
  "last_opt xs = (if xs = [] then None else Some (last xs))"

lemma hd_opt_simps [simp]:
  "hd_opt [] = None" "hd_opt (x # xs) = Some x"
  by (simp_all add: hd_opt_def)

lemma last_opt_simps [simp]:
  "last_opt [] = None" "last_opt (xs @ [x]) = Some x" "last_opt [x] = Some x"
  by (simp_all add: last_opt_def)

lemma hd_opt_None [simp]: "hd_opt xs = None \<longleftrightarrow> xs = []"
  by (cases xs) simp_all

lemma last_opt_None [simp]: "last_opt xs = None \<longleftrightarrow> xs = []"
  by (simp add: last_opt_def)

lemma hd_opt_drop: "hd_opt (drop k xs) = (if k < length xs then Some (xs ! k) else None)"
  by (cases "drop k xs") (auto simp: Cons_nth_drop_Suc [symmetric] not_less dest: arg_cong [where f = length])

lemma map_nth_update_notin:
  "a \<notin> set is \<Longrightarrow> map (\<lambda>i. f (ns[a := n] ! i)) is = map (\<lambda>i. f (ns ! i)) is"
  by (induction "is") auto

lemma list_split_nth:
  "k \<le> length xs \<Longrightarrow> k = length xs \<or> (\<exists>as x bs. xs = as @ x # bs \<and> k = length as \<and> x = xs ! k)"
  using id_take_nth_drop [of k xs] by (cases "k = length xs") force+

lemma bind_eq_Some_iff:
  "Option.bind m f = Some y \<longleftrightarrow> (\<exists>x. m = Some x \<and> f x = Some y)"
  by (cases m) auto

section \<open>Rounds of a loop\<close>

text \<open>
  \<open>while_rounds c b n s\<close> is the state of a loop \<open>while (c) b\<close> after its first \<open>n\<close> rounds. It is
  \<open>None\<close> when one of them is undefined, and also when the loop ends before the \<open>n\<close>-th. A value
  for every \<open>n\<close> therefore says that the loop runs for ever without undefined behaviour, which the
  value \<open>None\<close> of the loop itself does not say.
\<close>

primrec while_rounds :: "('s \<Rightarrow> bool) \<Rightarrow> ('s \<Rightarrow> 's option) \<Rightarrow> nat \<Rightarrow> 's \<Rightarrow> 's option" where
  "while_rounds c b 0 s = Some s"
| "while_rounds c b (Suc n) s = (if c s then Option.bind (b s) (while_rounds c b n) else None)"

lemma while_rounds_add:
  "while_rounds c b (m + n) s = Option.bind (while_rounds c b m s) (while_rounds c b n)"
  by (induction m arbitrary: s) (auto split: Option.bind_splits)

lemma while_rounds_snoc:
  "while_rounds c b n s = Some s' \<Longrightarrow> c s' \<Longrightarrow> while_rounds c b (Suc n) s = b s'"
  using while_rounds_add [of c b n 1 s] by (cases "b s'") simp_all

end
