(* ===== verification/Interfaces.thy ===== *)
theory Interfaces
  imports Coro_Prelude
begin

text \<open>
  The interfaces between the components, as locales: a concrete operation set that refines an
  abstract one (\<open>op_refinement\<close>), a bounded list with iterators (\<open>bounded_list\<close>), which is
  what the schedulers ask of their container, the interrupt enable bits that the main loops use
  (\<open>interrupt_bits\<close>) and a clock (\<open>clock_source\<close>), which is what the wake conditions ask of
  theirs. The last two have a provider in the hardware and one in the host emulation. The client
  lemmas proved here are used through the interpretations in the component theories.
\<close>

section \<open>Sequences of operations\<close>

text \<open>A sequence of operations stops at the first one that is undefined.\<close>

primrec run_ops :: "('c \<Rightarrow> 's \<Rightarrow> 's option) \<Rightarrow> 'c list \<Rightarrow> 's \<Rightarrow> 's option" where
  "run_ops step [] s = Some s"
| "run_ops step (c # cs) s = do { s' \<leftarrow> step c s; run_ops step cs s' }"

text \<open>
  \<open>allowed\<close> is the caller's obligation, stated on the abstract state; a step that is allowed
  must be defined, keep the invariant and agree with the abstract step.
\<close>

primrec all_allowed :: "('c \<Rightarrow> 'a \<Rightarrow> bool) \<Rightarrow> ('c \<Rightarrow> 'a \<Rightarrow> 'a) \<Rightarrow> 'c list \<Rightarrow> 'a \<Rightarrow> bool" where
  "all_allowed allowed astep [] a = True"
| "all_allowed allowed astep (c # cs) a =
     (allowed c a \<and> all_allowed allowed astep cs (astep c a))"

locale op_refinement =
  fixes invar :: "'s \<Rightarrow> bool" and abs :: "'s \<Rightarrow> 'a"
    and step :: "'c \<Rightarrow> 's \<Rightarrow> 's option" and astep :: "'c \<Rightarrow> 'a \<Rightarrow> 'a"
    and allowed :: "'c \<Rightarrow> 'a \<Rightarrow> bool"
  assumes step_refines:
    "invar s \<Longrightarrow> allowed c (abs s) \<Longrightarrow> \<exists>s'. step c s = Some s' \<and> invar s' \<and> abs s' = astep c (abs s)"
begin

lemma run_refines:
  "invar s \<Longrightarrow> all_allowed allowed astep cs (abs s) \<Longrightarrow>
     \<exists>s'. run_ops step cs s = Some s' \<and> invar s' \<and> abs s' = fold astep cs (abs s)"
proof (induction cs arbitrary: s)
  case Nil
  then show ?case by simp
next
  case (Cons c cs)
  from Cons.prems step_refines [of s c] obtain s1 where
    "step c s = Some s1" "invar s1" "abs s1 = astep c (abs s)" by auto
  with Cons.IH [of s1] Cons.prems show ?case by auto
qed

end

section \<open>Scanning a container\<close>

text \<open>
  The loop \<open>while (i != end) { if (test(i)) break; ++i; }\<close>. On a broken container it may not
  return.
\<close>

partial_function (option) scan_until ::
    "('i \<Rightarrow> bool) \<Rightarrow> ('i \<Rightarrow> bool option) \<Rightarrow> ('i \<Rightarrow> 'i option) \<Rightarrow> 'i \<Rightarrow> 'i option" where
  "scan_until at_end test incr i =
     (if at_end i then Some i
      else Option.bind (test i) (\<lambda>b. if b then Some i
        else Option.bind (incr i) (\<lambda>i'. scan_until at_end test incr i')))"

declare scan_until.simps [code]

text \<open>The index of the first element that satisfies \<open>P\<close>, the length if there is none.\<close>

definition first_index :: "('a \<Rightarrow> bool) \<Rightarrow> 'a list \<Rightarrow> nat" where
  "first_index P xs = length (takeWhile (\<lambda>x. \<not> P x) xs)"

lemma first_index_le: "first_index P xs \<le> length xs"
  by (simp add: first_index_def length_takeWhile_le)

lemma take_first_index: "take (first_index P xs) xs = takeWhile (\<lambda>x. \<not> P x) xs"
  by (simp add: first_index_def takeWhile_eq_take [symmetric])

lemma drop_first_index: "drop (first_index P xs) xs = dropWhile (\<lambda>x. \<not> P x) xs"
  by (simp add: first_index_def dropWhile_eq_drop [symmetric])

lemma first_index_less: "k < first_index P xs \<Longrightarrow> k < length xs \<and> \<not> P (xs ! k)"
  unfolding first_index_def
  by (metis length_takeWhile_le nth_mem order_less_le_trans set_takeWhileD takeWhile_nth)

lemma first_index_hit: "first_index P xs < length xs \<Longrightarrow> P (xs ! first_index P xs)"
  unfolding first_index_def using nth_length_takeWhile [of "\<lambda>x. \<not> P x" xs] by simp

section \<open>Bounded lists with iterators\<close>

locale bounded_list =
  fixes invar :: "'s \<Rightarrow> bool" and seq :: "'s \<Rightarrow> 'a list" and size_max :: "'s \<Rightarrow> nat"
    and pos :: "'s \<Rightarrow> nat \<Rightarrow> 'i" and at_begin :: "'s \<Rightarrow> 'i" and at_end :: "'s \<Rightarrow> 'i \<Rightarrow> bool"
    and incr :: "'s \<Rightarrow> 'i \<Rightarrow> 'i option" and val :: "'s \<Rightarrow> 'i \<Rightarrow> 'a option"
    and insert_at :: "'i \<Rightarrow> 'a \<Rightarrow> 's \<Rightarrow> 's option" and erase_at :: "'i \<Rightarrow> 's \<Rightarrow> 's option"
  assumes size_le: "invar s \<Longrightarrow> length (seq s) \<le> size_max s"
    and pos_begin: "invar s \<Longrightarrow> at_begin s = pos s 0"
    and pos_end: "invar s \<Longrightarrow> k \<le> length (seq s) \<Longrightarrow> at_end s (pos s k) \<longleftrightarrow> k = length (seq s)"
    and pos_incr: "invar s \<Longrightarrow> k < length (seq s) \<Longrightarrow> incr s (pos s k) = Some (pos s (Suc k))"
    and pos_val: "invar s \<Longrightarrow> k < length (seq s) \<Longrightarrow> val s (pos s k) = Some (seq s ! k)"
    and insert_pos: "invar s \<Longrightarrow> k \<le> length (seq s) \<Longrightarrow>
      \<exists>s'. insert_at (pos s k) v s = Some s' \<and> invar s' \<and> size_max s' = size_max s \<and>
        seq s' = (if length (seq s) < size_max s then take k (seq s) @ v # drop k (seq s) else seq s)"
    and erase_pos: "invar s \<Longrightarrow> k < length (seq s) \<Longrightarrow>
      \<exists>s'. erase_at (pos s k) s = Some s' \<and> invar s' \<and> size_max s' = size_max s \<and>
        seq s' = take k (seq s) @ drop (Suc k) (seq s)"
begin

lemma scan_from:
  assumes "invar s" and "k \<le> first_index P (seq s)"
  shows "scan_until (at_end s) (\<lambda>i. map_option P (val s i)) (incr s) (pos s k) =
    Some (pos s (first_index P (seq s)))"
  using assms(2)
proof (induction "first_index P (seq s) - k" arbitrary: k)
  case 0
  then have k: "k = first_index P (seq s)" by simp
  with first_index_le [of P "seq s"] have "k \<le> length (seq s)" by simp
  with assms(1) k first_index_hit [of P "seq s"] show ?case
    by (subst scan_until.simps) (auto simp: pos_end pos_val)
next
  case (Suc d)
  then have "k < first_index P (seq s)" by simp
  with first_index_less [OF this] Suc assms(1) show ?case
    by (subst scan_until.simps) (auto simp: pos_end pos_val pos_incr)
qed

lemma scan_finds:
  "invar s \<Longrightarrow> scan_until (at_end s) (\<lambda>i. map_option P (val s i)) (incr s) (at_begin s) =
     Some (pos s (first_index P (seq s)))"
  using scan_from [of s 0 P] by (simp add: pos_begin)

lemma insert_before_first:
  assumes "invar s"
  shows "\<exists>s'. insert_at (pos s (first_index P (seq s))) v s = Some s' \<and> invar s' \<and>
    size_max s' = size_max s \<and>
    seq s' = (if length (seq s) < size_max s
              then takeWhile (\<lambda>x. \<not> P x) (seq s) @ v # dropWhile (\<lambda>x. \<not> P x) (seq s) else seq s)"
  using insert_pos [OF assms first_index_le, of P v]
  by (simp only: take_first_index drop_first_index)

lemma erase_first:
  assumes "invar s" and "seq s = x # xs"
  shows "\<exists>s'. erase_at (at_begin s) s = Some s' \<and> invar s' \<and> size_max s' = size_max s \<and> seq s' = xs"
  using erase_pos [OF assms(1), of 0] assms by (simp add: pos_begin)

end

section \<open>Interrupt enable bits\<close>

text \<open>
  \<open>mstatus.mie\<close> enables interrupts as a whole and \<open>mie.mti\<close> the timer interrupt. Setting or
  clearing one returns and leaves the other. \<open>waits\<close> is the history of the two bits at each \<open>wfi\<close>.
\<close>

locale interrupt_bits =
  fixes invar :: "'s \<Rightarrow> bool" and mie_on :: "'s \<Rightarrow> bool" and mti_on :: "'s \<Rightarrow> bool"
    and waits :: "'s \<Rightarrow> (bool \<times> bool) list"
    and mie_set :: "'s \<Rightarrow> 's option" and mie_clr :: "'s \<Rightarrow> 's option"
    and mti_set :: "'s \<Rightarrow> 's option" and mti_clr :: "'s \<Rightarrow> 's option" and wait :: "'s \<Rightarrow> 's"
  assumes mie_set: "invar s \<Longrightarrow> \<exists>s'. mie_set s = Some s' \<and> invar s' \<and> mie_on s' \<and> mti_on s' = mti_on s \<and> waits s' = waits s"
    and mie_clr: "invar s \<Longrightarrow> \<exists>s'. mie_clr s = Some s' \<and> invar s' \<and> \<not> mie_on s' \<and> mti_on s' = mti_on s \<and> waits s' = waits s"
    and mti_set: "invar s \<Longrightarrow> \<exists>s'. mti_set s = Some s' \<and> invar s' \<and> mti_on s' \<and> mie_on s' = mie_on s \<and> waits s' = waits s"
    and mti_clr: "invar s \<Longrightarrow> \<exists>s'. mti_clr s = Some s' \<and> invar s' \<and> \<not> mti_on s' \<and> mie_on s' = mie_on s \<and> waits s' = waits s"
    and wait: "invar s \<Longrightarrow> invar (wait s) \<and> mie_on (wait s) = mie_on s \<and> mti_on (wait s) = mti_on s \<and>
      waits (wait s) = waits s @ [(mie_on s, mti_on s)]"
begin

text \<open>
  The end of a round of a main loop: the hart waits once, with interrupts disabled and the timer
  interrupt selected, and afterwards both are enabled.
\<close>

lemma sleep:
  assumes "invar s"
  shows "\<exists>s'. do { s \<leftarrow> mie_clr s; s \<leftarrow> mti_set s; let s = wait s; mie_set s } = Some s' \<and>
    invar s' \<and> mie_on s' \<and> mti_on s' \<and> waits s' = waits s @ [(False, True)]"
proof -
  from mie_clr [OF assms] obtain s1 where
    s1: "mie_clr s = Some s1" "invar s1" "\<not> mie_on s1" "waits s1 = waits s" by blast
  from mti_set [OF s1(2)] obtain s2 where
    s2: "mti_set s1 = Some s2" "invar s2" "mti_on s2" "mie_on s2 = mie_on s1" "waits s2 = waits s1" by blast
  note w = wait [OF s2(2)]
  from mie_set [of "wait s2"] w obtain s3 where
    "mie_set (wait s2) = Some s3" "invar s3" "mie_on s3" "mti_on s3 = mti_on s2" "waits s3 = waits (wait s2)" by blast
  with s1 s2 w show ?thesis by (intro exI [of _ s3]) simp
qed

text \<open>A handler that clears \<open>mie.mti\<close> is not entered again for the timer until it is set.\<close>

lemma handled:
  assumes "invar s" and "mie_on s"
  shows "\<exists>s'. mti_clr s = Some s' \<and> invar s' \<and> mie_on s' \<and> \<not> mti_on s'"
  using mti_clr [OF assms(1)] assms(2) by blast

end

section \<open>Clocks\<close>

text \<open>\<open>least s\<close> is a lower bound of all readings from state \<open>s\<close> on.\<close>

primrec readings :: "('s \<Rightarrow> (int \<times> 's) option) \<Rightarrow> nat \<Rightarrow> 's \<Rightarrow> (int list \<times> 's) option" where
  "readings now 0 s = Some ([], s)"
| "readings now (Suc n) s = do { (t, s) \<leftarrow> now s; (ts, s) \<leftarrow> readings now n s; Some (t # ts, s) }"

locale clock_source =
  fixes invar :: "'s \<Rightarrow> bool" and least :: "'s \<Rightarrow> int" and now :: "'s \<Rightarrow> (int \<times> 's) option"
  assumes now: "invar s \<Longrightarrow> \<exists>t s'. now s = Some (t, s') \<and> invar s' \<and> least s \<le> t \<and> t \<le> least s'"
begin

lemma readings_sorted:
  assumes "invar s"
  shows "\<exists>ts s'. readings now n s = Some (ts, s') \<and> invar s' \<and> length ts = n \<and> sorted ts \<and>
    least s \<le> least s' \<and> (\<forall>t \<in> set ts. least s \<le> t \<and> t \<le> least s')"
  using assms
proof (induction n arbitrary: s)
  case 0
  then show ?case by simp
next
  case (Suc n)
  from now [OF Suc.prems] obtain t s1 where
    t: "now s = Some (t, s1)" "invar s1" "least s \<le> t" "t \<le> least s1" by blast
  from Suc.IH [OF t(2)] obtain ts s' where
    "readings now n s1 = Some (ts, s')" "invar s'" "length ts = n" "sorted ts" "least s1 \<le> least s'"
    "\<forall>t \<in> set ts. least s1 \<le> t \<and> t \<le> least s'" by blast
  with t show ?case by (intro exI [of _ "t # ts"] exI [of _ s']) force
qed

end

end
