(* ===== verification/Nop_Task.thy ===== *)
theory Nop_Task
  imports Interfaces
begin

text \<open>
  \<open>include/coro/nop_task.hpp\<close>: the task type, its promise and the allocator of coroutine
  frames. \<open>size_t\<close> is a machine word of any width \<open>'x\<close>. A pointer into \<open>task_heap_\<close> is its
  index, null is \<open>None\<close>. \<open>host\<close> says whether \<open>HOST_EMULATION\<close> is defined; the shared flags
  \<open>done_\<close> of the host build live in a list and are designated by their position.
\<close>

section \<open>The frame allocator\<close>

definition TASK_HEAP_SIZE :: "bool \<Rightarrow> nat" where
  "TASK_HEAP_SIZE host = (if host then 4096 else 512)"

record 'w task_heap =
  task_heap_index :: 'w

definition task_heap_init :: "'x::len word task_heap" where
  "task_heap_init = \<lparr>task_heap_index = 0\<rparr>"

definition operator_new :: "bool \<Rightarrow> 'x::len word \<Rightarrow> 'x word task_heap \<Rightarrow> ptr \<times> 'x word task_heap" where
  "operator_new host sz s =
     (if task_heap_index s + sz < of_nat (TASK_HEAP_SIZE host)
      then (Some (unat (task_heap_index s)), s\<lparr>task_heap_index := task_heap_index s + sz\<rparr>)
      else (None, s))"

definition operator_delete :: "ptr \<Rightarrow> 'x::len word task_heap \<Rightarrow> 'x word task_heap" where
  "operator_delete p s = s"

section \<open>Promise and task\<close>

record nop_task =
  task_done :: ptr

record nop_task_promise =
  promise_done :: ptr

type_synonym flags = "bool list"

definition get_return_object :: "bool \<Rightarrow> nop_task_promise \<times> flags
    \<Rightarrow> nop_task \<times> nop_task_promise \<times> flags" where
  "get_return_object host s = (case s of (p, fl) \<Rightarrow>
     if host then
       (let p = p\<lparr>promise_done := Some (length fl)\<rparr>; fl = fl @ [False]
        in (\<lparr>task_done = promise_done p\<rparr>, p, fl))
     else (\<lparr>task_done = None\<rparr>, p, fl))"

definition get_return_object_on_allocation_failure :: nop_task where
  "get_return_object_on_allocation_failure = \<lparr>task_done = None\<rparr>"

text \<open>Both suspend points are \<open>std::suspend_never\<close>: the value is whether to suspend.\<close>

definition initial_suspend :: bool where
  "initial_suspend = False"

definition final_suspend :: bool where
  "final_suspend = False"

definition mark_done :: "bool \<Rightarrow> nop_task_promise \<Rightarrow> flags \<Rightarrow> flags" where
  "mark_done host p fl = (if host then (case promise_done p of None \<Rightarrow> fl | Some i \<Rightarrow> fl[i := True]) else fl)"

definition return_void :: "bool \<Rightarrow> nop_task_promise \<Rightarrow> flags \<Rightarrow> flags" where
  "return_void host p fl = mark_done host p fl"

definition unhandled_exception :: "bool \<Rightarrow> nop_task_promise \<Rightarrow> flags \<Rightarrow> flags" where
  "unhandled_exception host p fl = mark_done host p fl"

definition is_done :: "bool \<Rightarrow> nop_task \<Rightarrow> flags \<Rightarrow> bool" where
  "is_done host t fl = (if host then (case task_done t of None \<Rightarrow> False | Some i \<Rightarrow> fl ! i) else False)"

section \<open>Starting and finishing a coroutine\<close>

text \<open>
  What the language does with these members. A call of a coroutine allocates its frame; when
  that fails the caller gets \<open>get_return_object_on_allocation_failure()\<close> and the body does not
  run. Otherwise the promise makes the return object, and since \<open>initial_suspend\<close> does not
  suspend, the body runs at once.
\<close>

record 'x task_sys =
  sys_heap :: "'x task_heap"
  sys_flags :: flags

definition coro_call :: "bool \<Rightarrow> 'x::len word \<Rightarrow> 'x word task_sys
    \<Rightarrow> nop_task \<times> nop_task_promise option \<times> ptr \<times> 'x word task_sys" where
  "coro_call host sz s =
     (case operator_new host sz (sys_heap s) of
        (None, hp) \<Rightarrow> (get_return_object_on_allocation_failure, None, None, s\<lparr>sys_heap := hp\<rparr>)
      | (Some f, hp) \<Rightarrow>
          (let (t, p, fl) = get_return_object host (\<lparr>promise_done = None\<rparr>, sys_flags s)
           in (t, Some p, Some f, s\<lparr>sys_heap := hp, sys_flags := fl\<rparr>)))"

text \<open>A body that ends by \<open>co_return\<close> or by an exception: \<open>final_suspend\<close>, the frame is freed.\<close>

definition coro_finish :: "bool \<Rightarrow> bool \<Rightarrow> nop_task_promise \<Rightarrow> ptr \<Rightarrow> 'x::len word task_sys \<Rightarrow> 'x word task_sys" where
  "coro_finish host threw p f s =
     (let fl = (if threw then unhandled_exception host p (sys_flags s) else return_void host p (sys_flags s));
          s = s\<lparr>sys_flags := fl\<rparr>
      in if final_suspend then s else s\<lparr>sys_heap := operator_delete f (sys_heap s)\<rparr>)"

section \<open>Frames are disjoint\<close>

text \<open>Allocating a sequence of frames; the frames obtained are (index, size) pairs.\<close>

fun alloc_all :: "bool \<Rightarrow> 'x::len word list \<Rightarrow> 'x word task_heap \<Rightarrow> (nat \<times> nat) list \<times> 'x word task_heap" where
  "alloc_all host [] s = ([], s)"
| "alloc_all host (n # ns) s =
     (case operator_new host n s of
        (None, s') \<Rightarrow> alloc_all host ns s'
      | (Some p, s') \<Rightarrow> (case alloc_all host ns s' of (fs, s'') \<Rightarrow> ((p, unat n) # fs, s'')))"

text \<open>Frames that follow each other from \<open>i\<close> to \<open>j\<close> without gap or overlap.\<close>

fun frames_from :: "nat \<Rightarrow> (nat \<times> nat) list \<Rightarrow> nat \<Rightarrow> bool" where
  "frames_from i [] j \<longleftrightarrow> i = j"
| "frames_from i ((p, n) # fs) j \<longleftrightarrow> p = i \<and> frames_from (i + n) fs j"

definition heap_ok :: "bool \<Rightarrow> 'x::len word task_heap \<Rightarrow> bool" where
  "heap_ok host s \<longleftrightarrow> unat (task_heap_index s) < TASK_HEAP_SIZE host"

text \<open>\<open>size_t\<close> is wide enough for the heap, and the frame size does not make the sum wrap.\<close>

definition size_ok :: "bool \<Rightarrow> 'x::len word \<Rightarrow> bool" where
  "size_ok host n \<longleftrightarrow> unat n + TASK_HEAP_SIZE host < 2 ^ LENGTH('x)"

lemma operator_new_cases:
  fixes n :: "'x::len word"
  assumes "heap_ok host s" and "size_ok host n"
  shows "operator_new host n s =
    (if unat (task_heap_index s) + unat n < TASK_HEAP_SIZE host
     then (Some (unat (task_heap_index s)), s\<lparr>task_heap_index := task_heap_index s + n\<rparr>) else (None, s))"
    and "unat (task_heap_index s + n) = unat (task_heap_index s) + unat n"
proof -
  have small: "unat (task_heap_index s) + unat n < 2 ^ LENGTH('x)"
    using assms by (simp add: heap_ok_def size_ok_def)
  then show sum: "unat (task_heap_index s + n) = unat (task_heap_index s) + unat n"
    by (simp add: unat_word_ariths)
  have "unat (of_nat (TASK_HEAP_SIZE host) :: 'x word) = TASK_HEAP_SIZE host"
    using assms(2) by (simp add: size_ok_def unat_of_nat)
  with sum show "operator_new host n s =
    (if unat (task_heap_index s) + unat n < TASK_HEAP_SIZE host
     then (Some (unat (task_heap_index s)), s\<lparr>task_heap_index := task_heap_index s + n\<rparr>) else (None, s))"
    by (simp add: operator_new_def word_less_nat_alt)
qed

lemma frames_from_le: "frames_from i fs j \<Longrightarrow> i \<le> j"
  by (induction i fs j rule: frames_from.induct) auto

lemma frames_from_in:
  "frames_from i fs j \<Longrightarrow> (p, n) \<in> set fs \<Longrightarrow> i \<le> p \<and> p + n \<le> j"
  by (induction i fs j rule: frames_from.induct) (auto dest: frames_from_le)

lemma frames_from_disjoint:
  "frames_from i fs j \<Longrightarrow> sorted_wrt (\<lambda>(p, n) (q, m). p + n \<le> q) fs"
  by (induction i fs j rule: frames_from.induct) (auto dest: frames_from_in)

lemma alloc_all_frames:
  assumes "heap_ok host s" and "\<forall>n \<in> set ns. size_ok host n" and "alloc_all host ns s = (fs, s')"
  shows "heap_ok host s' \<and> frames_from (unat (task_heap_index s)) fs (unat (task_heap_index s'))"
  using assms
proof (induction ns arbitrary: s fs s')
  case (Cons n ns)
  note new = operator_new_cases [OF Cons.prems(1), of n]
  show ?case
  proof (cases "unat (task_heap_index s) + unat n < TASK_HEAP_SIZE host")
    case True
    let ?s = "s\<lparr>task_heap_index := task_heap_index s + n\<rparr>"
    from True new Cons.prems obtain fs1 where fs1: "alloc_all host ns ?s = (fs1, s')"
      "fs = (unat (task_heap_index s), unat n) # fs1" by (auto split: prod.splits)
    moreover have "heap_ok host ?s" using True new Cons.prems(2) by (simp add: heap_ok_def)
    ultimately show ?thesis using Cons.IH [of ?s fs1 s'] Cons.prems(2) new by simp
  next
    case False
    with new Cons.IH [of s fs s'] Cons.prems show ?thesis by simp
  qed
qed simp

lemma sum_frames_from: "frames_from i fs j \<Longrightarrow> j = i + sum_list (map snd fs)"
  by (induction i fs j rule: frames_from.induct) auto

section \<open>Properties\<close>

text \<open>
  C22: the frames that operator new hands out from an empty heap lie inside task_heap_, in the
  order of the calls and without overlap, for any sequence of frame sizes whose sum with the
  heap size does not wrap size_t.
\<close>

theorem frames_disjoint:
  fixes ns :: "'x::len word list"
  assumes "\<forall>n \<in> set ns. size_ok host n" and "alloc_all host ns task_heap_init = (fs, s')"
  shows "(\<forall>(p, n) \<in> set fs. p + n < TASK_HEAP_SIZE host) \<and>
    sorted_wrt (\<lambda>(p, n) (q, m). p + n \<le> q) fs \<and> heap_ok host s'"
proof -
  have "heap_ok host (task_heap_init :: 'x word task_heap)"
    by (simp add: heap_ok_def task_heap_init_def TASK_HEAP_SIZE_def)
  from alloc_all_frames [OF this assms] have
    ff: "heap_ok host s'" "frames_from 0 fs (unat (task_heap_index s'))"
    by (simp_all add: task_heap_init_def)
  moreover have "p + n < TASK_HEAP_SIZE host" if "(p, n) \<in> set fs" for p n
    using frames_from_in [OF ff(2) that] ff(1) by (simp add: heap_ok_def)
  ultimately show ?thesis using frames_from_disjoint [OF ff(2)] by auto
qed

theorem frames_disjoint_witness:
  "alloc_all False [100, 300, 200, 80 :: 32 word] task_heap_init =
     ([(0, 100), (100, 300), (400, 80)], \<lparr>task_heap_index = 480\<rparr>) \<and>
   sorted_wrt (\<lambda>(p, n) (q, m). p + n \<le> q) [(0, 100), (100, 300), (400, 80 :: nat)]"
proof -
  have a: "alloc_all False [100, 300, 200, 80 :: 32 word] task_heap_init =
      ([(0, 100), (100, 300), (400, 80)], \<lparr>task_heap_index = 480\<rparr>)" by code_simp
  have "\<forall>n \<in> set [100, 300, 200, 80 :: 32 word]. size_ok False n"
    by (simp add: size_ok_def TASK_HEAP_SIZE_def)
  from frames_disjoint [OF this a] a show ?thesis by blast
qed

text \<open>Calls of coroutines that each run to their end, with what their frames occupied.\<close>

fun call_and_finish_all :: "bool \<Rightarrow> 'x::len word list \<Rightarrow> 'x word task_sys \<Rightarrow> nat list \<times> 'x word task_sys" where
  "call_and_finish_all host [] s = ([], s)"
| "call_and_finish_all host (n # ns) s =
     (case coro_call host n s of
        (t, Some p, f, s1) \<Rightarrow>
          (case call_and_finish_all host ns (coro_finish host False p f s1) of (us, s2) \<Rightarrow> (unat n # us, s2))
      | (t, None, f, s1) \<Rightarrow> call_and_finish_all host ns s1)"

lemma coro_finish_heap [simp]: "sys_heap (coro_finish host threw p f s) = sys_heap s"
  by (simp add: coro_finish_def Let_def operator_delete_def)

lemma coro_call_heap:
  "coro_call host n s = (t, po, f, s1) \<Longrightarrow>
     operator_new host n (sys_heap s) = (f, sys_heap s1) \<and> (po = None \<longleftrightarrow> f = None)"
  by (auto simp: coro_call_def split: prod.splits option.splits)

lemma call_and_finish_all_heap:
  assumes "heap_ok host (sys_heap s)" and "\<forall>n \<in> set ns. size_ok host n"
    and "call_and_finish_all host ns s = (us, s')"
  shows "heap_ok host (sys_heap s') \<and>
    unat (task_heap_index (sys_heap s')) = unat (task_heap_index (sys_heap s)) + sum_list us"
  using assms
proof (induction ns arbitrary: s us s')
  case (Cons n ns)
  obtain t po f s1 where c: "coro_call host n s = (t, po, f, s1)" by (cases "coro_call host n s")
  note new = coro_call_heap [OF c] operator_new_cases [OF Cons.prems(1), of n]
  show ?case
  proof (cases po)
    case None
    with new Cons.prems(2) have "sys_heap s1 = sys_heap s" by (auto split: if_splits)
    with None c Cons.IH [of s1 us s'] Cons.prems show ?thesis by simp
  next
    case (Some p)
    with new Cons.prems(2) have "sys_heap s1 = sys_heap s\<lparr>task_heap_index := task_heap_index (sys_heap s) + n\<rparr>"
      "unat (task_heap_index (sys_heap s)) + unat n < TASK_HEAP_SIZE host"
      by (auto split: if_splits)
    with new(3) Cons.prems(2) have h1: "heap_ok host (sys_heap s1)"
      "unat (task_heap_index (sys_heap s1)) = unat (task_heap_index (sys_heap s)) + unat n"
      by (simp_all add: heap_ok_def)
    from Some c Cons.prems(3) obtain us1 where
      "call_and_finish_all host ns (coro_finish host False p f s1) = (us1, s')" "us = unat n # us1"
      by (auto split: prod.splits)
    with Cons.IH [of "coro_finish host False p f s1" us1 s'] h1 Cons.prems(2) show ?thesis by simp
  qed
qed simp

text \<open>
  C23: frames are never reclaimed: the sizes of all the coroutines that ever get a frame add up
  to less than TASK_HEAP_SIZE, although each has run to its end before the next is called.
\<close>

theorem heap_never_reclaimed:
  fixes ns :: "'x::len word list"
  assumes "\<forall>n \<in> set ns. size_ok host n"
    and "call_and_finish_all host ns \<lparr>sys_heap = task_heap_init, sys_flags = []\<rparr> = (us, s')"
  shows "sum_list us < TASK_HEAP_SIZE host"
proof -
  have "heap_ok host (sys_heap \<lparr>sys_heap = task_heap_init :: 'x word task_heap, sys_flags = []\<rparr>)"
    by (simp add: heap_ok_def task_heap_init_def TASK_HEAP_SIZE_def)
  from call_and_finish_all_heap [OF this assms] show ?thesis
    by (simp add: heap_ok_def task_heap_init_def)
qed

theorem heap_never_reclaimed_witness:
  "call_and_finish_all False [200, 200, 200, 100 :: 32 word] \<lparr>sys_heap = task_heap_init, sys_flags = []\<rparr> =
     ([200, 200, 100], \<lparr>sys_heap = \<lparr>task_heap_index = 500\<rparr>, sys_flags = []\<rparr>) \<and>
   sum_list [200, 200, 100 :: nat] < TASK_HEAP_SIZE False"
proof -
  have a: "call_and_finish_all False [200, 200, 200, 100 :: 32 word] \<lparr>sys_heap = task_heap_init, sys_flags = []\<rparr> =
      ([200, 200, 100], \<lparr>sys_heap = \<lparr>task_heap_index = 500\<rparr>, sys_flags = []\<rparr>)" by code_simp
  have "\<forall>n \<in> set [200, 200, 200, 100 :: 32 word]. size_ok False n"
    by (simp add: size_ok_def TASK_HEAP_SIZE_def)
  from heap_never_reclaimed [OF this a] a show ?thesis by blast
qed

text \<open>
  Coroutines of several tasks in any order: a call starts the next one, and \<open>Finish i threw\<close> is
  the end of the \<open>i\<close>-th, by return or by an exception. The list holds what each call returned.
\<close>

datatype 'x task_event = Call 'x | Finish nat bool

type_synonym 'x task_run = "'x task_sys \<times> (nop_task \<times> nop_task_promise option \<times> ptr) list"

fun task_event_step :: "bool \<Rightarrow> 'x::len word task_event \<Rightarrow> 'x word task_run \<Rightarrow> 'x word task_run" where
  "task_event_step host (Call n) (s, ts) = (case coro_call host n s of (t, p, f, s') \<Rightarrow> (s', ts @ [(t, p, f)]))"
| "task_event_step host (Finish i threw) (s, ts) = (case ts ! i of
     (t, Some p, f) \<Rightarrow> (coro_finish host threw p f s, ts) | (t, None, f) \<Rightarrow> (s, ts))"

text \<open>Only a coroutine that has been called can end.\<close>

fun event_allowed :: "'x task_event \<Rightarrow> nat \<Rightarrow> bool" where
  "event_allowed (Call n) k = True"
| "event_allowed (Finish i threw) k = (i < k)"

fun count_call :: "'x task_event \<Rightarrow> nat \<Rightarrow> nat" where
  "count_call (Call n) k = Suc k"
| "count_call (Finish i threw) k = k"

definition ended :: "'x task_event list \<Rightarrow> nat set" where
  "ended es = {i. Finish i True \<in> set es \<or> Finish i False \<in> set es}"

lemma ended_simps [simp]:
  "ended [] = {}" "ended (Call n # es) = ended es" "ended (Finish i threw # es) = insert i (ended es)"
  by (auto simp: ended_def)

text \<open>
  Each coroutine that has a frame shares a flag of its own with its task, and the flag says
  whether it has ended; \<open>D\<close> are those that have.
\<close>

fun task_ok :: "nat set \<Rightarrow> flags \<Rightarrow> nat \<Rightarrow> nop_task \<times> nop_task_promise option \<times> ptr \<Rightarrow> bool" where
  "task_ok D fl i (t, None, f) \<longleftrightarrow> task_done t = None"
| "task_ok D fl i (t, Some p, f) \<longleftrightarrow>
     (\<exists>j < length fl. task_done t = Some j \<and> promise_done p = Some j \<and> fl ! j = (i \<in> D))"

definition tasks_ok :: "nat set \<Rightarrow> 'x::len word task_run \<Rightarrow> bool" where
  "tasks_ok D r \<longleftrightarrow> D \<subseteq> {..<length (snd r)} \<and>
     (\<forall>i < length (snd r). task_ok D (sys_flags (fst r)) i (snd r ! i)) \<and>
     (\<forall>i < length (snd r). \<forall>k < length (snd r). \<forall>j.
        task_done (fst (snd r ! i)) = Some j \<and> task_done (fst (snd r ! k)) = Some j \<longrightarrow> i = k)"

lemma coro_call_host:
  "(\<exists>s'. coro_call True n s = (\<lparr>task_done = None\<rparr>, None, None, s') \<and> sys_flags s' = sys_flags s) \<or>
   (\<exists>f s'. coro_call True n s = (\<lparr>task_done = Some (length (sys_flags s))\<rparr>,
      Some \<lparr>promise_done = Some (length (sys_flags s))\<rparr>, Some f, s') \<and> sys_flags s' = sys_flags s @ [False])"
  by (auto simp: coro_call_def get_return_object_def get_return_object_on_allocation_failure_def
      split: prod.splits option.splits)

lemma coro_finish_flags:
  "promise_done p = Some j \<Longrightarrow> sys_flags (coro_finish True threw p f s) = (sys_flags s)[j := True]"
  by (simp add: coro_finish_def return_void_def unhandled_exception_def mark_done_def Let_def)

lemma task_ok_done:
  "task_ok D fl i x \<Longrightarrow> task_done (fst x) = Some j \<Longrightarrow> j < length fl"
  by (cases "(D, fl, i, x)" rule: task_ok.cases) auto

text \<open>A call adds a flag, and leaves those of the others.\<close>

lemma task_ok_more: "task_ok D fl i x \<Longrightarrow> task_ok D (fl @ [b]) i x"
  by (cases "(D, fl, i, x)" rule: task_ok.cases) (auto simp: nth_append)

lemma tasks_ok_snoc:
  assumes "tasks_ok D (s, ts)" and old: "\<And>i. i < length ts \<Longrightarrow> task_ok D (sys_flags s') i (ts ! i)"
    and new: "task_ok D (sys_flags s') (length ts) x"
    and fresh: "\<And>i. i < length ts \<Longrightarrow> task_done (fst x) = None \<or> task_done (fst (ts ! i)) \<noteq> task_done (fst x)"
  shows "tasks_ok D (s', ts @ [x])"
  unfolding tasks_ok_def
proof (intro conjI allI impI)
  show "D \<subseteq> {..<length (snd (s', ts @ [x]))}" using assms(1) by (auto simp: tasks_ok_def)
  show "task_ok D (sys_flags (fst (s', ts @ [x]))) i (snd (s', ts @ [x]) ! i)" if "i < length (snd (s', ts @ [x]))" for i
    using that old new by (cases "i = length ts") (simp_all add: nth_append)
  fix i k j
  assume "i < length (snd (s', ts @ [x]))" "k < length (snd (s', ts @ [x]))"
    and "task_done (fst (snd (s', ts @ [x]) ! i)) = Some j \<and> task_done (fst (snd (s', ts @ [x]) ! k)) = Some j"
  then show "i = k"
    using assms(1) fresh [of i] fresh [of k]
    by (cases "i = length ts"; cases "k = length ts") (auto simp: tasks_ok_def nth_append)
qed

lemma tasks_ok_call:
  assumes "tasks_ok D (s, ts)"
  shows "tasks_ok D (task_event_step True (Call n) (s, ts)) \<and>
    length (snd (task_event_step True (Call n) (s, ts))) = Suc (length ts)"
proof -
  have old: "task_ok D (sys_flags s) i (ts ! i)" if "i < length ts" for i using assms that by (simp add: tasks_ok_def)
  have new: "length ts \<notin> D" using assms by (auto simp: tasks_ok_def)
  from coro_call_host [of n s] consider
    s' where "coro_call True n s = (\<lparr>task_done = None\<rparr>, None, None, s')" "sys_flags s' = sys_flags s"
  | f s' where "coro_call True n s = (\<lparr>task_done = Some (length (sys_flags s))\<rparr>,
      Some \<lparr>promise_done = Some (length (sys_flags s))\<rparr>, Some f, s')" "sys_flags s' = sys_flags s @ [False]" by blast
  then show ?thesis
  proof cases
    case 1
    with old have "tasks_ok D (s', ts @ [(\<lparr>task_done = None\<rparr>, None, None)])"
      by (intro tasks_ok_snoc [OF assms]) simp_all
    with 1 show ?thesis by simp
  next
    case 2
    have "task_done (fst (ts ! i)) \<noteq> Some (length (sys_flags s))" if "i < length ts" for i
      using task_ok_done [OF old [OF that]] by auto
    with 2 old new have "tasks_ok D (s', ts @ [(\<lparr>task_done = Some (length (sys_flags s))\<rparr>,
        Some \<lparr>promise_done = Some (length (sys_flags s))\<rparr>, Some f)])"
      by (intro tasks_ok_snoc [OF assms]) (simp_all add: task_ok_more)
    with 2 show ?thesis by simp
  qed
qed

text \<open>The end of a coroutine sets its own flag only.\<close>

lemma task_ok_finish:
  assumes "task_ok D fl k x" and "k \<noteq> i" and "task_done (fst x) \<noteq> Some j"
  shows "task_ok (insert i D) (fl[j := True]) k x"
  using assms by (cases "(D, fl, k, x)" rule: task_ok.cases) (auto simp: nth_list_update)

lemma task_ok_frameless: "task_ok D fl k x \<Longrightarrow> k \<noteq> i \<or> fst (snd x) = None \<Longrightarrow> task_ok (insert i D) fl k x"
  by (cases "(D, fl, k, x)" rule: task_ok.cases) auto

lemma tasks_ok_finish:
  assumes "tasks_ok D (s, ts)" and "i < length ts"
  shows "tasks_ok (insert i D) (task_event_step True (Finish i threw) (s, ts)) \<and>
    length (snd (task_event_step True (Finish i threw) (s, ts))) = length ts"
proof -
  obtain t po f where x: "ts ! i = (t, po, f)" by (cases "ts ! i")
  have old: "task_ok D (sys_flags s) k (ts ! k)" if "k < length ts" for k using assms(1) that by (simp add: tasks_ok_def)
  show ?thesis
  proof (cases po)
    case None
    with old x have "task_ok (insert i D) (sys_flags s) k (ts ! k)" if "k < length ts" for k
      using that by (intro task_ok_frameless) auto
    with None x assms show ?thesis by (auto simp: tasks_ok_def)
  next
    case (Some p)
    with old [OF assms(2)] x obtain j where j: "j < length (sys_flags s)" "task_done t = Some j" "promise_done p = Some j"
      by auto
    have "task_ok (insert i D) ((sys_flags s)[j := True]) k (ts ! k)" if k: "k < length ts" for k
    proof (cases "k = i")
      case True
      with j x Some show ?thesis by simp
    next
      case False
      with assms j(2) x k have "task_done (fst (ts ! k)) \<noteq> Some j" by (force simp: tasks_ok_def)
      with False old [OF k] show ?thesis by (intro task_ok_finish)
    qed
    with Some x j(3) assms show ?thesis by (auto simp: tasks_ok_def coro_finish_flags)
  qed
qed

lemma tasks_ok_run:
  assumes "tasks_ok D r" and "all_allowed event_allowed count_call es (length (snd r))"
  shows "tasks_ok (D \<union> ended es) (fold (task_event_step True) es r)"
  using assms
proof (induction es arbitrary: D r)
  case Nil
  then show ?case by simp
next
  case (Cons e es)
  obtain s ts where r: "r = (s, ts)" by (cases r)
  show ?case
  proof (cases e)
    case (Call n)
    with tasks_ok_call [of D s ts n] Cons.prems Cons.IH [of D "task_event_step True e r"] show ?thesis by (simp add: r)
  next
    case (Finish i threw)
    with tasks_ok_finish [of D s ts i threw] Cons.prems Cons.IH [of "insert i D" "task_event_step True e r"]
    show ?thesis by (simp add: r)
  qed
qed

text \<open>
  C24: in the host build, after any sequence of calls and ends of coroutines, in any order, the
  task that the i-th call returned is done exactly when its coroutine got a frame and has ended,
  by return or by an exception. So a task is not done before that, stays done afterwards, and is
  not affected by calls and ends of other coroutines.
\<close>

theorem done_tracks_completion:
  fixes es :: "'x::len word task_event list"
  assumes "all_allowed event_allowed count_call es 0"
    and "fold (task_event_step True) es (\<lparr>sys_heap = task_heap_init, sys_flags = []\<rparr>, []) = (s, ts)"
    and "i < length ts" and "ts ! i = (t, p, f)"
  shows "is_done True t (sys_flags s) \<longleftrightarrow> p \<noteq> None \<and> i \<in> ended es"
proof -
  let ?r = "(\<lparr>sys_heap = task_heap_init, sys_flags = []\<rparr>, []) :: 'x word task_run"
  have "tasks_ok {} ?r" by (simp add: tasks_ok_def)
  from tasks_ok_run [OF this, of es] assms(1,2) have "tasks_ok (ended es) (s, ts)" by simp
  with assms(3,4) have "task_ok (ended es) (sys_flags s) i (t, p, f)" by (force simp: tasks_ok_def)
  then show ?thesis by (cases p) (auto simp: is_done_def)
qed

theorem done_tracks_completion_witness:
  "let r = fold (task_event_step True) [Call 64, Call 80, Finish 1 False, Call (32 :: 32 word), Finish 0 True]
      (\<lparr>sys_heap = task_heap_init, sys_flags = []\<rparr>, [])
   in map (\<lambda>x. is_done True (fst x) (sys_flags (fst r))) (snd r) = [True, True, False]"
proof -
  let ?es = "[Call 64, Call 80, Finish 1 False, Call (32 :: 32 word), Finish 0 True]"
  let ?r = "fold (task_event_step True) ?es (\<lparr>sys_heap = task_heap_init, sys_flags = []\<rparr>, [])"
  obtain s ts where r: "?r = (s, ts)" by (cases ?r) blast
  have "map (\<lambda>x. fst (snd x) \<noteq> None) (snd ?r) = [True, True, True]" by code_simp
  then have ts: "length ts = 3" "\<forall>i < 3. fst (snd (ts ! i)) \<noteq> None"
    unfolding r by (auto simp: numeral_3_eq_3 less_Suc_eq map_eq_Cons_conv)
  have "is_done True (fst (ts ! i)) (sys_flags s) \<longleftrightarrow> i \<in> ended ?es" if "i < 3" for i
    using done_tracks_completion [of ?es s ts i "fst (ts ! i)" "fst (snd (ts ! i))" "snd (snd (ts ! i))"] r ts that by simp
  then have "map (\<lambda>x. is_done True (fst x) (sys_flags s)) ts = map (\<lambda>i. i \<in> ended ?es) [0..<3]"
    by (intro nth_equalityI) (simp_all add: ts)
  then show ?thesis unfolding Let_def r by (simp add: upt_rec)
qed

end
