(* ===== verification/Static_List.thy ===== *)
theory Static_List
  imports Coro_Prelude
begin

text \<open>
  \<open>include/coro/static_list.hpp\<close>: the doubly linked list whose nodes live in an array
  inside the list object (the variant selected when \<open>STATIC_LIST_USE_STD_LIST\<close> is not
  defined). The node array is an explicit store, the pointers \<open>next\<close>, \<open>prev\<close>, \<open>free_\<close>,
  \<open>first_\<close> and \<open>last_\<close> are indices into it or null, and every access through a pointer
  goes through \<open>deref\<close>, so that a null or wild pointer is undefined behaviour (\<open>None\<close>).
  Isabelle names do not end in an underscore: the members \<open>buffer_\<close>, \<open>free_\<close>, \<open>first_\<close>,
  \<open>last_\<close> are the fields \<open>sl_buffer\<close>, \<open>sl_free\<close>, \<open>sl_first\<close>, \<open>sl_last\<close>, and the members
  of a node are \<open>node_next\<close>, \<open>node_prev\<close>, \<open>node_value\<close>.
  The correctness of these operations is in \<open>Static_List_Correct\<close>.
\<close>

section \<open>Nodes, lists and memory accesses\<close>

text \<open>
  \<open>static_list_node<T>\<close>. The storage of \<open>value\<close> is raw until an object is constructed in
  it, which the option records.
\<close>

record 'a static_list_node =
  node_next :: ptr
  node_prev :: ptr
  node_value :: "'a option"

text \<open>\<open>static_list<T, N>\<close>: the array \<open>buffer_\<close> holds the \<open>N\<close> nodes.\<close>

record 'a static_list =
  sl_buffer :: "'a static_list_node list"
  sl_free :: ptr
  sl_first :: ptr
  sl_last :: ptr

definition deref :: "'a static_list \<Rightarrow> ptr \<Rightarrow> 'a static_list_node option" where
  "deref l p = (case p of None \<Rightarrow> None
     | Some i \<Rightarrow> if i < length (sl_buffer l) then Some (sl_buffer l ! i) else None)"

definition store :: "ptr \<Rightarrow> ('a static_list_node \<Rightarrow> 'a static_list_node) \<Rightarrow> 'a static_list
    \<Rightarrow> 'a static_list option" where
  "store p f l = (case p of None \<Rightarrow> None
     | Some i \<Rightarrow> if i < length (sl_buffer l)
                then Some (l\<lparr>sl_buffer := (sl_buffer l)[i := f (sl_buffer l ! i)]\<rparr>) else None)"

text \<open>The assignments \<open>p->next = q\<close>, \<open>p->prev = q\<close> and \<open>new (&p->value) T(v)\<close>.\<close>

definition set_next :: "ptr \<Rightarrow> ptr \<Rightarrow> 'a static_list \<Rightarrow> 'a static_list option" where
  "set_next p q = store p (\<lambda>n. n\<lparr>node_next := q\<rparr>)"

definition set_prev :: "ptr \<Rightarrow> ptr \<Rightarrow> 'a static_list \<Rightarrow> 'a static_list option" where
  "set_prev p q = store p (\<lambda>n. n\<lparr>node_prev := q\<rparr>)"

definition construct_value :: "ptr \<Rightarrow> 'a \<Rightarrow> 'a static_list \<Rightarrow> 'a static_list option" where
  "construct_value p v = store p (\<lambda>n. n\<lparr>node_value := Some v\<rparr>)"

section \<open>Construction\<close>

text \<open>The number of nodes, the template parameter \<open>N\<close>.\<close>

definition capacity :: "'a static_list \<Rightarrow> nat" where
  "capacity l = length (sl_buffer l)"

definition get_array_entry :: "nat \<Rightarrow> ptr" where
  "get_array_entry i = Some i"

text \<open>
  The constructor's loop over the nodes. \<open>this_node++\<close> may leave the array after the last
  round; the pointer is not dereferenced then.
\<close>

function static_list_loop :: "nat \<Rightarrow> nat \<Rightarrow> ptr \<Rightarrow> ptr \<Rightarrow> 'a static_list
    \<Rightarrow> ('a static_list \<times> ptr) option" where
  "static_list_loop n i prev this_node l =
     (if i < n then do {
        l \<leftarrow> set_prev this_node prev l;
        l \<leftarrow> (if prev \<noteq> None then set_next prev this_node l else Some l);
        static_list_loop n (Suc i) this_node (ptr_inc this_node) l
      } else Some (l, prev))"
  by pat_completeness auto
termination
  by (relation "measure (\<lambda>(n, i, prev, this_node, l). n - i)") auto

declare static_list_loop.simps [simp del]

text \<open>
  \<open>static_list()\<close>: \<open>raw\<close> is what the storage of \<open>buffer_\<close> holds when the object's lifetime
  starts (the bytes are not initialised), \<open>N\<close> its number of nodes. The member initialisers
  set \<open>free_\<close>, \<open>first_\<close> and \<open>last_\<close> before the body runs.
\<close>

definition static_list_ctor :: "'a static_list_node list \<Rightarrow> 'a static_list option" where
  "static_list_ctor raw = do {
     let l = \<lparr>sl_buffer = raw, sl_free = get_array_entry 0, sl_first = None, sl_last = None\<rparr>;
     (l, prev) \<leftarrow> static_list_loop (length raw) 0 None (get_array_entry 0) l;
     set_next prev None l
   }"

section \<open>Iterators and element access\<close>

text \<open>
  \<open>static_list_iterator<T, N, REVERSE>\<close> holds the pointer \<open>v_\<close>; \<open>operator++\<close> does nothing
  at the end, and \<open>*\<close> and \<open>->\<close> read the value of the node.
\<close>

definition iterator_inc :: "bool \<Rightarrow> 'a static_list \<Rightarrow> ptr \<Rightarrow> ptr option" where
  "iterator_inc REVERSE l v =
     (if v \<noteq> None then do {
        n \<leftarrow> deref l v;
        Some (if REVERSE then node_prev n else node_next n)
      } else Some v)"

definition iterator_value :: "'a static_list \<Rightarrow> ptr \<Rightarrow> 'a option" where
  "iterator_value l v = do { n \<leftarrow> deref l v; node_value n }"

definition list_begin :: "'a static_list \<Rightarrow> ptr" where
  "list_begin l = sl_first l"

definition list_end :: "'a static_list \<Rightarrow> ptr" where
  "list_end l = None"

definition rbegin :: "'a static_list \<Rightarrow> ptr" where
  "rbegin l = sl_last l"

definition rend :: "'a static_list \<Rightarrow> ptr" where
  "rend l = None"

definition list_front :: "'a static_list \<Rightarrow> 'a option" where
  "list_front l = do { n \<leftarrow> deref l (sl_first l); node_value n }"

definition list_back :: "'a static_list \<Rightarrow> 'a option" where
  "list_back l = do { n \<leftarrow> deref l (sl_last l); node_value n }"

definition list_empty :: "'a static_list \<Rightarrow> bool" where
  "list_empty l = (sl_first l = None)"

section \<open>The free list\<close>

definition get_free_elem :: "'a static_list \<Rightarrow> (ptr \<times> 'a static_list) option" where
  "get_free_elem l =
     (if sl_free l \<noteq> None then do {
        let elem = sl_free l;
        n \<leftarrow> deref l elem;
        let l = l\<lparr>sl_free := node_next n\<rparr>;
        l \<leftarrow> (if sl_free l \<noteq> None then set_prev (sl_free l) None l else Some l);
        Some (elem, l)
      } else Some (None, l))"

definition return_free_elem :: "ptr \<Rightarrow> 'a static_list \<Rightarrow> 'a static_list option" where
  "return_free_elem elem l = do {
     l \<leftarrow> set_prev elem None l;
     l \<leftarrow> set_next elem (sl_free l) l;
     l \<leftarrow> (if sl_free l \<noteq> None then set_prev (sl_free l) elem l else Some l);
     Some (l\<lparr>sl_free := elem\<rparr>)
   }"

section \<open>Insertion and removal\<close>

definition pop_front :: "'a static_list \<Rightarrow> 'a static_list option" where
  "pop_front l =
     (if sl_first l \<noteq> None then do {
        n \<leftarrow> deref l (sl_first l);
        let nxt = node_next n;
        l \<leftarrow> (if nxt \<noteq> None then set_prev nxt None l else Some l);
        l \<leftarrow> return_free_elem (sl_first l) l;
        let l = (if sl_first l = sl_last l then l\<lparr>sl_last := nxt\<rparr> else l);
        Some (l\<lparr>sl_first := nxt\<rparr>)
      } else Some l)"

definition pop_back :: "'a static_list \<Rightarrow> 'a static_list option" where
  "pop_back l =
     (if sl_last l \<noteq> None then do {
        n \<leftarrow> deref l (sl_last l);
        let prv = node_prev n;
        l \<leftarrow> (if prv \<noteq> None then set_next prv None l else Some l);
        l \<leftarrow> return_free_elem (sl_last l) l;
        let l = (if sl_first l = sl_last l then l\<lparr>sl_first := prv\<rparr> else l);
        Some (l\<lparr>sl_last := prv\<rparr>)
      } else Some l)"

text \<open>
  Linking a constructed node at the end: the block that \<open>emplace\<close> (lines 223 to 232) and
  \<open>emplace_back\<close> (lines 265 to 274) share word for word.
\<close>

definition link_last :: "ptr \<Rightarrow> 'a static_list \<Rightarrow> 'a static_list option" where
  "link_last elem l = do {
     l \<leftarrow> set_prev elem (sl_last l) l;
     l \<leftarrow> set_next elem None l;
     l \<leftarrow> (if sl_last l \<noteq> None then set_next (sl_last l) elem l else Some l);
     let l = l\<lparr>sl_last := elem\<rparr>;
     Some (if sl_first l = None then l\<lparr>sl_first := elem\<rparr> else l)
   }"

text \<open>Linking before the node of a valid iterator (lines 235 to 250 of \<open>emplace\<close>).\<close>

definition link_before :: "ptr \<Rightarrow> ptr \<Rightarrow> 'a static_list \<Rightarrow> 'a static_list option" where
  "link_before i elem l = do {
     n \<leftarrow> deref l i;
     let i_prev = node_prev n;
     let nxt = i;
     l \<leftarrow> set_prev elem i_prev l;
     l \<leftarrow> (if i_prev \<noteq> None then set_next i_prev elem l else Some (l\<lparr>sl_first := elem\<rparr>));
     l \<leftarrow> set_next elem nxt l;
     (if nxt \<noteq> None then set_prev nxt elem l else Some (l\<lparr>sl_last := elem\<rparr>))
   }"

definition emplace :: "ptr \<Rightarrow> 'a \<Rightarrow> 'a static_list \<Rightarrow> 'a static_list option" where
  "emplace i v l = do {
     (elem, l) \<leftarrow> get_free_elem l;
     if elem \<noteq> None then do {
       l \<leftarrow> construct_value elem v l;
       if i = list_end l then link_last elem l else link_before i elem l
     } else Some l
   }"

definition emplace_back :: "'a \<Rightarrow> 'a static_list \<Rightarrow> 'a static_list option" where
  "emplace_back v l = do {
     (elem, l) \<leftarrow> get_free_elem l;
     if elem \<noteq> None then do {
       l \<leftarrow> construct_value elem v l;
       link_last elem l
     } else Some l
   }"

definition erase :: "ptr \<Rightarrow> 'a static_list \<Rightarrow> 'a static_list option" where
  "erase i l = do {
     let org_ptr = i;
     n \<leftarrow> deref l org_ptr;
     let org_next = node_next n;
     let org_prev = node_prev n;
     l \<leftarrow> (if org_prev \<noteq> None then set_next org_prev org_next l
          else Some (l\<lparr>sl_first := org_next\<rparr>));
     l \<leftarrow> (if org_next \<noteq> None then set_prev org_next org_prev l
          else Some (l\<lparr>sl_last := org_prev\<rparr>));
     return_free_elem org_ptr l
   }"

end
