(* ===== verification/Static_List_Correct.thy ===== *)
theory Static_List_Correct
  imports Static_List Interfaces
begin

text \<open>
  Correctness of \<open>static_list\<close>: a representation invariant (two disjoint doubly linked
  chains, the used nodes and the free nodes, that together are the whole array), the
  sequence of values a well-formed list stands for, and one refinement lemma per operation.
\<close>

section \<open>Chains of nodes\<close>

text \<open>
  \<open>dll ns p x as q y\<close>: starting at the pointer \<open>x\<close>, the \<open>next\<close> pointers lead through the
  nodes \<open>as\<close> and then to \<open>y\<close>; the \<open>prev\<close> pointers lead back, the first one to \<open>p\<close>; \<open>q\<close>
  points to the last node (or is \<open>p\<close> if there is none).
\<close>

fun dll :: "'a static_list_node list \<Rightarrow> ptr \<Rightarrow> ptr \<Rightarrow> nat list \<Rightarrow> ptr \<Rightarrow> ptr \<Rightarrow> bool" where
  "dll ns p x [] q y = (x = y \<and> q = p)"
| "dll ns p x (a # as) q y =
     (x = Some a \<and> a < length ns \<and> node_prev (ns ! a) = p \<and>
      dll ns (Some a) (node_next (ns ! a)) as q y)"

lemma dll_append:
  "dll ns p x (as @ bs) q y \<longleftrightarrow> (\<exists>q' x'. dll ns p x as q' x' \<and> dll ns q' x' bs q y)"
  by (induction as arbitrary: p x) auto

lemma dll_middle [simp]:
  "dll ns p x (as @ b # bs) q y \<longleftrightarrow>
     dll ns p x as (node_prev (ns ! b)) (Some b) \<and> b < length ns \<and>
     dll ns (Some b) (node_next (ns ! b)) bs q y"
  by (auto simp: dll_append)

lemma dll_frame [simp]:
  "a \<notin> set as \<Longrightarrow> dll (ns[a := n]) p x as q y = dll ns p x as q y"
  by (induction as arbitrary: p x) auto

lemma dll_bound: "dll ns p x as q y \<Longrightarrow> a \<in> set as \<Longrightarrow> a < length ns"
  by (induction as arbitrary: p x) auto

lemma dll_head: "dll ns p x as q y \<Longrightarrow> x = (if as = [] then y else Some (hd as))"
  by (cases as) auto

lemma dll_last: "dll ns p x as q y \<Longrightarrow> q = (if as = [] then p else Some (last as))"
  by (induction as arbitrary: p x) auto

section \<open>The invariant and the contents\<close>

text \<open>The nodes met from \<open>x\<close> along \<open>next\<close>, at most \<open>k\<close> of them.\<close>

fun chain :: "nat \<Rightarrow> 'a static_list_node list \<Rightarrow> ptr \<Rightarrow> nat list" where
  "chain 0 ns x = []"
| "chain (Suc k) ns x = (case x of None \<Rightarrow> []
     | Some a \<Rightarrow> if a < length ns then a # chain k ns (node_next (ns ! a)) else [])"

definition used_nodes :: "'a static_list \<Rightarrow> nat list" where
  "used_nodes l = chain (capacity l) (sl_buffer l) (sl_first l)"

definition free_nodes :: "'a static_list \<Rightarrow> nat list" where
  "free_nodes l = chain (capacity l) (sl_buffer l) (sl_free l)"

text \<open>The constructed values of a list of nodes.\<close>

definition vals :: "'a static_list_node list \<Rightarrow> nat list \<Rightarrow> 'a option list" where
  "vals ns us = map (\<lambda>u. node_value (ns ! u)) us"

lemma vals_simps [simp]:
  "vals ns [] = []" "vals ns (u # us) = node_value (ns ! u) # vals ns us"
  "vals ns (us @ ws) = vals ns us @ vals ns ws"
  by (simp_all add: vals_def)

lemma vals_frame [simp]: "a \<notin> set us \<Longrightarrow> vals (ns[a := n]) us = vals ns us"
  by (induction us) auto

text \<open>
  \<open>node_chains ns ds x us y z fs\<close>: in the array \<open>ns\<close>, the nodes \<open>us\<close> form a chain from \<open>x\<close> to
  \<open>y\<close> of constructed values, the nodes \<open>fs\<close> form the free chain from \<open>z\<close>, the nodes \<open>ds\<close>
  are detached, and each node is in exactly one of the three.
\<close>

definition node_chains :: "'a static_list_node list \<Rightarrow> nat list \<Rightarrow> ptr \<Rightarrow> nat list \<Rightarrow> ptr \<Rightarrow> ptr
    \<Rightarrow> nat list \<Rightarrow> bool" where
  "node_chains ns ds x us y z fs \<longleftrightarrow>
     dll ns None x us y None \<and> dll ns None z fs (last_opt fs) None \<and>
     distinct (ds @ us @ fs) \<and> set (ds @ us @ fs) = {..<length ns} \<and>
     None \<notin> set (vals ns us)"

definition rep :: "'a static_list \<Rightarrow> nat list \<Rightarrow> nat list \<Rightarrow> bool" where
  "rep l us fs \<longleftrightarrow> node_chains (sl_buffer l) [] (sl_first l) us (sl_last l) (sl_free l) fs"

definition wf_list :: "'a static_list \<Rightarrow> bool" where
  "wf_list l \<longleftrightarrow> rep l (used_nodes l) (free_nodes l)"

definition contents :: "'a static_list \<Rightarrow> 'a list" where
  "contents l = map the (vals (sl_buffer l) (used_nodes l))"

lemma chain_dll:
  "dll ns p x as q None \<Longrightarrow> length as \<le> k \<Longrightarrow> chain k ns x = as"
proof (induction k arbitrary: p x as)
  case 0
  then show ?case by simp
next
  case (Suc k)
  then show ?case by (cases as) auto
qed

lemma rep_length: "rep l us fs \<Longrightarrow> length us + length fs = capacity l"
  by (metis rep_def node_chains_def capacity_def append_Nil card_lessThan distinct_card length_append)

lemma rep_unique:
  assumes "rep l us fs"
  shows "used_nodes l = us" "free_nodes l = fs"
proof -
  from assms have "length us \<le> capacity l" "length fs \<le> capacity l"
    using rep_length by force+
  with assms show "used_nodes l = us" "free_nodes l = fs"
    unfolding used_nodes_def free_nodes_def rep_def node_chains_def by (blast intro: chain_dll)+
qed

lemma rep_wf: "rep l us fs \<Longrightarrow> wf_list l"
  by (simp add: wf_list_def rep_unique)

lemma wf_rep: "wf_list l \<Longrightarrow> \<exists>us fs. rep l us fs"
  by (auto simp: wf_list_def)

lemma rep_contents:
  "rep l us fs \<Longrightarrow> contents l = map the (vals (sl_buffer l) us)"
  by (simp add: contents_def rep_unique)

section \<open>The memory operations on node_chains\<close>

lemma store_Some [simp]:
  "i < length (sl_buffer l) \<Longrightarrow>
     store (Some i) f l = Some (l\<lparr>sl_buffer := (sl_buffer l)[i := f (sl_buffer l ! i)]\<rparr>)"
  by (simp add: store_def)

lemma deref_Some [simp]: "i < length (sl_buffer l) \<Longrightarrow> deref l (Some i) = Some (sl_buffer l ! i)"
  by (simp add: deref_def)

lemma deref_None [simp]: "deref l None = None"
  by (simp add: deref_def)

lemmas access_defs = set_next_def set_prev_def construct_value_def

lemmas chain_defs = access_defs rep_def node_chains_def capacity_def Let_def insert_commute

lemma chains_less: "node_chains ns [f] x us y z fs \<Longrightarrow> f < length ns"
  by (auto simp: node_chains_def)

lemma get_free_elem_empty: "rep l us [] \<Longrightarrow> get_free_elem l = Some (None, l)"
  by (simp add: get_free_elem_def rep_def node_chains_def)

lemma get_free_elem_chains:
  assumes "rep l us (f # fs)"
  shows "\<exists>l'. get_free_elem l = Some (Some f, l') \<and>
    node_chains (sl_buffer l') [f] (sl_first l') us (sl_last l') (sl_free l') fs \<and>
    vals (sl_buffer l') us = vals (sl_buffer l) us \<and> capacity l' = capacity l"
proof (cases fs)
  case Nil
  with assms show ?thesis
    by (auto simp: get_free_elem_def rep_def node_chains_def capacity_def)
next
  case (Cons g gs)
  with assms show ?thesis
    by (auto simp: get_free_elem_def rep_def node_chains_def capacity_def access_defs last_opt_def)
qed

lemma construct_value_chains:
  assumes "node_chains (sl_buffer l) [f] x us y z fs"
  shows "\<exists>l'. construct_value (Some f) v l = Some l' \<and>
    node_chains (sl_buffer l') [f] x us y z fs \<and> node_value (sl_buffer l' ! f) = Some v \<and>
    vals (sl_buffer l') us = vals (sl_buffer l) us \<and> capacity l' = capacity l \<and>
    sl_first l' = sl_first l \<and> sl_last l' = sl_last l \<and> sl_free l' = sl_free l"
  using assms chains_less [OF assms] by (auto simp: access_defs node_chains_def capacity_def)

lemma node_chains_first: "node_chains ns ds x us y z fs \<Longrightarrow> x = hd_opt us"
  by (cases us) (auto simp: node_chains_def)

lemma link_last_rep:
  assumes "node_chains (sl_buffer l) [f] (sl_first l) us (sl_last l) (sl_free l) fs"
    and "node_value (sl_buffer l ! f) = Some v"
  shows "\<exists>l'. link_last (Some f) l = Some l' \<and> rep l' (us @ [f]) fs \<and>
    vals (sl_buffer l') (us @ [f]) = vals (sl_buffer l) us @ [Some v] \<and> capacity l' = capacity l"
proof (cases us rule: rev_cases)
  case Nil
  with assms chains_less [OF assms(1)] show ?thesis
    by (simp add: link_last_def chain_defs)
next
  case (snoc ws w)
  with node_chains_first [OF assms(1)] obtain y where "sl_first l = Some y" by (cases ws) simp_all
  with snoc assms chains_less [OF assms(1)] show ?thesis
    by (simp add: link_last_def chain_defs)
qed

lemma link_before_rep:
  assumes "node_chains (sl_buffer l) [f] (sl_first l) (as @ i # bs) (sl_last l) (sl_free l) fs"
    and "node_value (sl_buffer l ! f) = Some v"
  shows "\<exists>l'. link_before (Some i) (Some f) l = Some l' \<and> rep l' (as @ f # i # bs) fs \<and>
    vals (sl_buffer l') (as @ f # i # bs) =
      vals (sl_buffer l) as @ Some v # vals (sl_buffer l) (i # bs) \<and>
    capacity l' = capacity l"
proof (cases as rule: rev_cases)
  case Nil
  with assms chains_less [OF assms(1)] show ?thesis
    by (simp add: link_before_def chain_defs)
next
  case (snoc ws w)
  with assms chains_less [OF assms(1)] show ?thesis
    by (simp add: link_before_def chain_defs)
qed

lemma return_free_elem_chains:
  assumes "node_chains (sl_buffer l) [f] x us y (sl_free l) fs"
  shows "\<exists>l'. return_free_elem (Some f) l = Some l' \<and>
    node_chains (sl_buffer l') [] x us y (sl_free l') (f # fs) \<and>
    vals (sl_buffer l') us = vals (sl_buffer l) us \<and> capacity l' = capacity l \<and>
    sl_first l' = sl_first l \<and> sl_last l' = sl_last l"
  using assms chains_less [OF assms]
  by (cases fs) (auto simp: return_free_elem_def access_defs node_chains_def capacity_def last_opt_def)

section \<open>Refinement of the operations\<close>

text \<open>
  Position \<open>k\<close> of a list as an iterator: the pointer that \<open>k\<close> increments of \<open>begin()\<close>
  reach, \<open>end()\<close> for \<open>k\<close> the length.
\<close>

definition iter_at :: "'a static_list \<Rightarrow> nat \<Rightarrow> ptr" where
  "iter_at l k = (if k < length (used_nodes l) then Some (used_nodes l ! k) else None)"

text \<open>What an insertion into a full list does to the abstract sequence: nothing.\<close>

definition bounded_insert :: "nat \<Rightarrow> nat \<Rightarrow> 'a \<Rightarrow> 'a list \<Rightarrow> 'a list" where
  "bounded_insert N k v xs = (if length xs < N then take k xs @ v # drop k xs else xs)"

lemma rep_vals_length: "rep l us fs \<Longrightarrow> length (contents l) = length us"
  by (simp add: rep_contents vals_def)

lemma alloc_chains:
  assumes "rep l us (f # fs)"
  shows "\<exists>l1 l2. get_free_elem l = Some (Some f, l1) \<and> construct_value (Some f) v l1 = Some l2 \<and>
    node_chains (sl_buffer l2) [f] (sl_first l2) us (sl_last l2) (sl_free l2) fs \<and>
    node_value (sl_buffer l2 ! f) = Some v \<and>
    vals (sl_buffer l2) us = vals (sl_buffer l) us \<and> capacity l2 = capacity l"
proof -
  from get_free_elem_chains [OF assms] obtain l1 where l1:
    "get_free_elem l = Some (Some f, l1)"
    "node_chains (sl_buffer l1) [f] (sl_first l1) us (sl_last l1) (sl_free l1) fs"
    "vals (sl_buffer l1) us = vals (sl_buffer l) us" "capacity l1 = capacity l" by blast
  with construct_value_chains [OF l1(2), of v] show ?thesis by auto
qed

lemma emplace_back_rep:
  assumes "rep l us (f # fs)"
  shows "\<exists>l'. emplace_back v l = Some l' \<and> rep l' (us @ [f]) fs \<and>
    contents l' = contents l @ [v] \<and> capacity l' = capacity l"
proof -
  from alloc_chains [OF assms] obtain l1 l2 where
    "get_free_elem l = Some (Some f, l1)" "construct_value (Some f) v l1 = Some l2"
    and c: "node_chains (sl_buffer l2) [f] (sl_first l2) us (sl_last l2) (sl_free l2) fs"
    and v: "node_value (sl_buffer l2 ! f) = Some v"
    and "vals (sl_buffer l2) us = vals (sl_buffer l) us" "capacity l2 = capacity l" by blast
  with link_last_rep [OF c v] assms show ?thesis
    by (auto simp: emplace_back_def rep_contents)
qed

lemma emplace_rep:
  assumes "rep l (as @ i # bs) (f # fs)"
  shows "\<exists>l'. emplace (Some i) v l = Some l' \<and> rep l' (as @ f # i # bs) fs \<and>
    contents l' = take (length as) (contents l) @ v # drop (length as) (contents l) \<and>
    capacity l' = capacity l"
proof -
  from alloc_chains [OF assms] obtain l1 l2 where
    "get_free_elem l = Some (Some f, l1)" "construct_value (Some f) v l1 = Some l2"
    and c: "node_chains (sl_buffer l2) [f] (sl_first l2) (as @ i # bs) (sl_last l2) (sl_free l2) fs"
    and v: "node_value (sl_buffer l2 ! f) = Some v"
    and "vals (sl_buffer l2) (as @ i # bs) = vals (sl_buffer l) (as @ i # bs)"
      "capacity l2 = capacity l" by blast
  with link_before_rep [OF c v] assms show ?thesis
    by (auto simp: emplace_def list_end_def rep_contents vals_def)
qed

lemma emplace_full: "rep l us [] \<Longrightarrow> emplace i v l = Some l"
  by (simp add: emplace_def get_free_elem_empty)

lemma emplace_back_full: "rep l us [] \<Longrightarrow> emplace_back v l = Some l"
  by (simp add: emplace_back_def get_free_elem_empty)

lemma emplace_at_end: "emplace None v l = emplace_back v l"
  by (cases "get_free_elem l") (auto simp: emplace_def emplace_back_def list_end_def)

lemma rep_room: "rep l us fs \<Longrightarrow> length (contents l) < capacity l \<longleftrightarrow> fs \<noteq> []"
  using rep_length [of l us fs] rep_vals_length [of l us fs] by (cases fs) auto

lemma emplace_back_refines [refine]:
  assumes "wf_list l"
  shows "\<exists>l'. emplace_back v l = Some l' \<and> wf_list l' \<and> capacity l' = capacity l \<and>
    contents l' = bounded_insert (capacity l) (length (contents l)) v (contents l)"
proof -
  from assms obtain us fs where r: "rep l us fs" by (blast dest: wf_rep)
  show ?thesis
  proof (cases fs)
    case Nil
    with r rep_room [OF r] assms show ?thesis
      by (simp add: emplace_back_full bounded_insert_def)
  next
    case (Cons f gs)
    with r rep_room [OF r] emplace_back_rep [of l us f gs v] show ?thesis
      by (auto simp: bounded_insert_def intro: rep_wf)
  qed
qed

lemma emplace_refines [refine]:
  assumes "wf_list l" and "k \<le> length (contents l)"
  shows "\<exists>l'. emplace (iter_at l k) v l = Some l' \<and> wf_list l' \<and> capacity l' = capacity l \<and>
    contents l' = bounded_insert (capacity l) k v (contents l)"
proof -
  from assms obtain us fs where r: "rep l us fs" by (blast dest: wf_rep)
  consider (full) "fs = []" | (last) "k = length us"
    | (middle) f gs as i bs where "fs = f # gs" "us = as @ i # bs" "k = length as"
    using assms(2) rep_vals_length [OF r] list_split_nth [of k us] by (cases fs) fastforce+
  then show ?thesis
  proof cases
    case full
    with r rep_room [OF r] assms show ?thesis
      by (simp add: emplace_full bounded_insert_def)
  next
    case last
    with r assms emplace_back_refines [of l v] show ?thesis
      by (simp add: iter_at_def rep_unique emplace_at_end rep_vals_length)
  next
    case middle
    with r rep_room [OF r] emplace_rep [of l as i bs f gs v] show ?thesis
      by (auto simp: iter_at_def rep_unique bounded_insert_def intro: rep_wf)
  qed
qed

lemma erase_rep:
  assumes "rep l (as @ i # bs) fs"
  shows "\<exists>l'. erase (Some i) l = Some l' \<and> rep l' (as @ bs) (i # fs) \<and>
    contents l' = take (length as) (contents l) @ drop (Suc (length as)) (contents l) \<and>
    capacity l' = capacity l"
proof -
  let ?n = "sl_buffer l ! i"
  have i: "i < length (sl_buffer l)" using assms by (simp add: chain_defs)
  obtain l1 l2 where l12:
    "(if node_prev ?n \<noteq> None then set_next (node_prev ?n) (node_next ?n) l
      else Some (l\<lparr>sl_first := node_next ?n\<rparr>)) = Some l1"
    "(if node_next ?n \<noteq> None then set_prev (node_next ?n) (node_prev ?n) l1
      else Some (l1\<lparr>sl_last := node_prev ?n\<rparr>)) = Some l2"
    and c: "node_chains (sl_buffer l2) [i] (sl_first l2) (as @ bs) (sl_last l2) (sl_free l2) fs"
    and v: "vals (sl_buffer l2) (as @ bs) = vals (sl_buffer l) (as @ bs)" "capacity l2 = capacity l"
    using assms by (cases as rule: rev_cases; cases bs) (simp_all add: chain_defs)
  from return_free_elem_chains [OF c] obtain l3 where
    "return_free_elem (Some i) l2 = Some l3"
    "node_chains (sl_buffer l3) [] (sl_first l2) (as @ bs) (sl_last l2) (sl_free l3) (i # fs)"
    "vals (sl_buffer l3) (as @ bs) = vals (sl_buffer l2) (as @ bs)" "capacity l3 = capacity l2"
    "sl_first l3 = sl_first l2" "sl_last l3 = sl_last l2" by blast
  with i l12 v assms show ?thesis
    by (auto simp: erase_def rep_def [of l3] rep_contents Let_def vals_def)
qed

lemma rep_last: "rep l us fs \<Longrightarrow> sl_last l = last_opt us"
  by (cases us rule: rev_cases) (auto simp: rep_def node_chains_def)

lemma rep_first: "rep l us fs \<Longrightarrow> sl_first l = hd_opt us"
  by (auto simp: rep_def dest: node_chains_first)

lemma unlink_front:
  assumes "rep l (u # us) fs"
  shows "\<exists>l1. (if node_next (sl_buffer l ! u) \<noteq> None
                then set_prev (node_next (sl_buffer l ! u)) None l else Some l) = Some l1 \<and>
    node_chains (sl_buffer l1) [u] (node_next (sl_buffer l ! u)) us (last_opt us) (sl_free l1) fs \<and>
    vals (sl_buffer l1) us = vals (sl_buffer l) us \<and> capacity l1 = capacity l \<and>
    sl_first l1 = sl_first l \<and> sl_last l1 = sl_last l"
proof (cases us)
  case Nil
  with assms show ?thesis by (simp add: chain_defs)
next
  case (Cons w ws)
  with assms rep_last [OF assms] show ?thesis by (simp add: chain_defs last_opt_def)
qed

lemma pop_front_rep:
  assumes "rep l (u # us) fs"
  shows "\<exists>l'. pop_front l = Some l' \<and> rep l' us (u # fs) \<and>
    contents l' = tl (contents l) \<and> capacity l' = capacity l"
proof -
  let ?x = "node_next (sl_buffer l ! u)"
  have u: "u < length (sl_buffer l)" "sl_first l = Some u" using assms by (simp_all add: chain_defs)
  from unlink_front [OF assms] obtain l1 where l1:
    "(if ?x \<noteq> None then set_prev ?x None l else Some l) = Some l1"
    and c: "node_chains (sl_buffer l1) [u] ?x us (last_opt us) (sl_free l1) fs"
    and v: "vals (sl_buffer l1) us = vals (sl_buffer l) us" "capacity l1 = capacity l"
      "sl_first l1 = sl_first l" "sl_last l1 = sl_last l" by blast
  from return_free_elem_chains [OF c] obtain l2 where l2:
    "return_free_elem (Some u) l1 = Some l2"
    "node_chains (sl_buffer l2) [] ?x us (last_opt us) (sl_free l2) (u # fs)"
    "vals (sl_buffer l2) us = vals (sl_buffer l1) us" "capacity l2 = capacity l1"
    "sl_first l2 = sl_first l1" "sl_last l2 = sl_last l1" by blast
  let ?l' = "(if sl_first l2 = sl_last l2 then l2\<lparr>sl_last := ?x\<rparr> else l2)\<lparr>sl_first := ?x\<rparr>"
  have "u \<notin> set us" "us = [] \<Longrightarrow> ?x = None" using assms by (simp_all add: chain_defs)
  then have "sl_last ?l' = last_opt us"
    using u l2(5,6) v(3,4) rep_last [OF assms] by (auto simp: last_opt_def)
  with l2(2) have r: "rep ?l' us (u # fs)" by (simp add: rep_def)
  have "pop_front l = Some ?l'" using u l1 l2(1) v(3) by (simp add: pop_front_def Let_def)
  with r assms l2(3,4) v(1,2) show ?thesis
    by (simp add: rep_contents [OF r] rep_contents [OF assms] capacity_def)
qed

lemma unlink_back:
  assumes "rep l (us @ [u]) fs"
  shows "\<exists>l1. (if node_prev (sl_buffer l ! u) \<noteq> None
                then set_next (node_prev (sl_buffer l ! u)) None l else Some l) = Some l1 \<and>
    node_chains (sl_buffer l1) [u] (hd_opt us) us (node_prev (sl_buffer l ! u)) (sl_free l1) fs \<and>
    vals (sl_buffer l1) us = vals (sl_buffer l) us \<and> capacity l1 = capacity l \<and>
    sl_first l1 = sl_first l \<and> sl_last l1 = sl_last l"
proof (cases us rule: rev_cases)
  case Nil
  with assms show ?thesis by (simp add: chain_defs)
next
  case (snoc ws w)
  with rep_first [OF assms] have "sl_first l = hd_opt us" by (cases ws) simp_all
  with snoc assms show ?thesis by (simp add: chain_defs)
qed

lemma pop_back_rep:
  assumes "rep l (us @ [u]) fs"
  shows "\<exists>l'. pop_back l = Some l' \<and> rep l' us (u # fs) \<and>
    contents l' = butlast (contents l) \<and> capacity l' = capacity l"
proof -
  let ?x = "node_prev (sl_buffer l ! u)"
  have u: "u < length (sl_buffer l)" "sl_last l = Some u" using assms by (simp_all add: chain_defs)
  from unlink_back [OF assms] obtain l1 where l1:
    "(if ?x \<noteq> None then set_next ?x None l else Some l) = Some l1"
    and c: "node_chains (sl_buffer l1) [u] (hd_opt us) us ?x (sl_free l1) fs"
    and v: "vals (sl_buffer l1) us = vals (sl_buffer l) us" "capacity l1 = capacity l"
      "sl_first l1 = sl_first l" "sl_last l1 = sl_last l" by blast
  from return_free_elem_chains [OF c] obtain l2 where l2:
    "return_free_elem (Some u) l1 = Some l2"
    "node_chains (sl_buffer l2) [] (hd_opt us) us ?x (sl_free l2) (u # fs)"
    "vals (sl_buffer l2) us = vals (sl_buffer l1) us" "capacity l2 = capacity l1"
    "sl_first l2 = sl_first l1" "sl_last l2 = sl_last l1" by blast
  let ?l' = "(if sl_first l2 = sl_last l2 then l2\<lparr>sl_first := ?x\<rparr> else l2)\<lparr>sl_last := ?x\<rparr>"
  have "u \<notin> set us" "us = [] \<Longrightarrow> ?x = None" using assms by (auto simp: chain_defs)
  then have "sl_first ?l' = hd_opt us"
    using u l2(5,6) v(3,4) rep_first [OF assms] by (cases us) auto
  with l2(2) have r: "rep ?l' us (u # fs)" by (simp add: rep_def)
  have "pop_back l = Some ?l'" using u l1 l2(1) v(4) by (simp add: pop_back_def Let_def)
  with r assms l2(3,4) v(1,2) show ?thesis
    by (simp add: rep_contents [OF r] rep_contents [OF assms] capacity_def butlast_append)
qed

lemma pop_front_refines [refine]:
  assumes "wf_list l"
  shows "\<exists>l'. pop_front l = Some l' \<and> wf_list l' \<and> capacity l' = capacity l \<and>
    contents l' = tl (contents l)"
proof -
  from assms obtain us fs where r: "rep l us fs" by (blast dest: wf_rep)
  show ?thesis
  proof (cases us)
    case Nil
    with r rep_first [OF r] assms show ?thesis by (simp add: pop_front_def rep_contents)
  next
    case (Cons u ws)
    with r pop_front_rep [of l u ws fs] show ?thesis by (auto intro: rep_wf)
  qed
qed

lemma pop_back_refines [refine]:
  assumes "wf_list l"
  shows "\<exists>l'. pop_back l = Some l' \<and> wf_list l' \<and> capacity l' = capacity l \<and>
    contents l' = butlast (contents l)"
proof -
  from assms obtain us fs where r: "rep l us fs" by (blast dest: wf_rep)
  show ?thesis
  proof (cases us rule: rev_cases)
    case Nil
    with r rep_last [OF r] assms show ?thesis by (simp add: pop_back_def rep_contents)
  next
    case (snoc ws u)
    with r pop_back_rep [of l ws u fs] show ?thesis by (auto intro: rep_wf)
  qed
qed

lemma erase_refines [refine]:
  assumes "wf_list l" and "k < length (contents l)"
  shows "\<exists>l'. erase (iter_at l k) l = Some l' \<and> wf_list l' \<and> capacity l' = capacity l \<and>
    contents l' = take k (contents l) @ drop (Suc k) (contents l)"
proof -
  from assms obtain us fs where r: "rep l us fs" by (blast dest: wf_rep)
  with assms(2) obtain as i bs where "us = as @ i # bs" "k = length as"
    using list_split_nth [of k us] rep_vals_length [OF r] by force
  with r erase_rep [of l as i bs fs] show ?thesis
    by (auto simp: iter_at_def rep_unique intro: rep_wf)
qed

section \<open>Access and iteration\<close>

lemma contents_length: "length (contents l) = length (used_nodes l)"
  by (simp add: contents_def vals_def)

lemma contents_bounded: "wf_list l \<Longrightarrow> length (contents l) \<le> capacity l"
  using rep_length by (fastforce simp: contents_length wf_list_def)

lemma wf_dll:
  "wf_list l \<Longrightarrow> dll (sl_buffer l) None (sl_first l) (used_nodes l) (sl_last l) None"
  by (simp add: wf_list_def rep_def node_chains_def)

lemma wf_node:
  assumes "wf_list l" and "k < length (contents l)"
  shows "deref l (iter_at l k) = Some (sl_buffer l ! (used_nodes l ! k))"
    and "node_value (sl_buffer l ! (used_nodes l ! k)) = Some (contents l ! k)"
proof -
  let ?us = "used_nodes l"
  have k: "k < length ?us" using assms(2) by (simp add: contents_length)
  then have "?us ! k \<in> set ?us" by simp
  with dll_bound [OF wf_dll [OF assms(1)]] k
  show "deref l (iter_at l k) = Some (sl_buffer l ! (?us ! k))" by (simp add: iter_at_def)
  from assms(1) have "None \<notin> set (vals (sl_buffer l) ?us)"
    by (simp add: wf_list_def rep_def node_chains_def)
  with k have "node_value (sl_buffer l ! (?us ! k)) \<noteq> None"
    by (metis vals_def length_map nth_map nth_mem)
  with k show "node_value (sl_buffer l ! (?us ! k)) = Some (contents l ! k)"
    by (simp add: contents_def vals_def)
qed

lemma dll_links:
  assumes "dll ns p x as q y" and "k < length as"
  shows "node_next (ns ! (as ! k)) = (if Suc k < length as then Some (as ! Suc k) else y)"
    and "node_prev (ns ! (as ! k)) = (if k = 0 then p else Some (as ! (k - 1)))"
  using assms
proof (induction as arbitrary: p x k)
  case (Cons a as)
  { case 1 with Cons.IH(1) [of "Some a" "node_next (ns ! a)" "k - 1"] dll_head [of ns "Some a" "node_next (ns ! a)" as q y]
    show ?case by (cases k) (auto simp: hd_conv_nth) }
  { case 2 with Cons.IH(2) [of "Some a" "node_next (ns ! a)" "k - 1"]
    show ?case by (cases k) (auto simp: nth_Cons') }
qed simp_all

lemma iterator_value_at:
  assumes "wf_list l"
  shows "iterator_value l (iter_at l k) = (if k < length (contents l) then Some (contents l ! k) else None)"
  using wf_node [OF assms, of k] by (auto simp: iterator_value_def iter_at_def contents_length)

lemma iterator_inc_at:
  assumes "wf_list l" and "k < length (contents l)"
  shows "iterator_inc False l (iter_at l k) = Some (iter_at l (Suc k))"
proof -
  have "iter_at l k \<noteq> None" using assms(2) by (simp add: iter_at_def contents_length)
  then show ?thesis
    using wf_node(1) [OF assms] assms(2) dll_links(1) [OF wf_dll [OF assms(1)], of k]
    by (simp add: iterator_inc_def iter_at_def contents_length)
qed

lemma iterator_dec_at:
  assumes "wf_list l" and "k < length (contents l)"
  shows "iterator_inc True l (iter_at l k) = Some (if k = 0 then None else iter_at l (k - 1))"
proof -
  have "iter_at l k \<noteq> None" using assms(2) by (simp add: iter_at_def contents_length)
  then show ?thesis
    using wf_node(1) [OF assms] assms(2) dll_links(2) [OF wf_dll [OF assms(1)], of k]
    by (auto simp: iterator_inc_def iter_at_def contents_length)
qed

lemma iter_at_begin: "wf_list l \<Longrightarrow> list_begin l = iter_at l 0"
  using rep_first [of l "used_nodes l" "free_nodes l"]
  by (cases "used_nodes l") (auto simp: list_begin_def iter_at_def wf_list_def)

lemma iter_at_rbegin:
  "wf_list l \<Longrightarrow> rbegin l = (if contents l = [] then None else iter_at l (length (contents l) - 1))"
  using rep_last [of l "used_nodes l" "free_nodes l"] contents_length [of l]
  by (auto simp: rbegin_def iter_at_def wf_list_def last_opt_def last_conv_nth)

lemma iter_at_end: "wf_list l \<Longrightarrow> k \<le> length (contents l) \<Longrightarrow> iter_at l k = list_end l \<longleftrightarrow> k = length (contents l)"
  by (auto simp: iter_at_def list_end_def contents_length)

lemma list_empty_contents: "wf_list l \<Longrightarrow> list_empty l \<longleftrightarrow> contents l = []"
  using rep_first [of l "used_nodes l" "free_nodes l"] contents_length [of l]
  by (auto simp: list_empty_def wf_list_def)

text \<open>\<open>k\<close> applications of \<open>operator++\<close>.\<close>

primrec advance :: "bool \<Rightarrow> 'a static_list \<Rightarrow> nat \<Rightarrow> ptr \<Rightarrow> ptr option" where
  "advance REVERSE l 0 v = Some v"
| "advance REVERSE l (Suc k) v = do { v' \<leftarrow> advance REVERSE l k v; iterator_inc REVERSE l v' }"

lemma advance_forward:
  "wf_list l \<Longrightarrow> k \<le> length (contents l) \<Longrightarrow> advance False l k (list_begin l) = Some (iter_at l k)"
  by (induction k) (simp_all add: iter_at_begin iterator_inc_at)

lemma advance_backward:
  "wf_list l \<Longrightarrow> k \<le> length (contents l) \<Longrightarrow>
     advance True l k (rbegin l) =
       Some (if k = length (contents l) then None else iter_at l (length (contents l) - 1 - k))"
proof (induction k)
  case 0
  then show ?case by (simp add: iter_at_rbegin)
next
  case (Suc k)
  then show ?case by (auto simp: iterator_dec_at)
qed

lemma list_front_contents:
  "wf_list l \<Longrightarrow> list_front l = (if contents l = [] then None else Some (hd (contents l)))"
  using iterator_value_at [of l 0] iter_at_begin [of l]
  by (auto simp: list_front_def iterator_value_def list_begin_def hd_conv_nth)

lemma list_back_contents:
  "wf_list l \<Longrightarrow> list_back l = (if contents l = [] then None else Some (last (contents l)))"
  using iterator_value_at [of l "length (contents l) - 1"] iter_at_rbegin [of l]
  by (auto simp: list_back_def iterator_value_def rbegin_def last_conv_nth)

section \<open>Construction\<close>

text \<open>
  After \<open>i\<close> rounds of the constructor's loop the first \<open>i\<close> nodes are linked to each other, in
  the order of the array.
\<close>

definition linked_upto :: "'a static_list_node list \<Rightarrow> nat \<Rightarrow> bool" where
  "linked_upto ns i \<longleftrightarrow> (\<forall>k < i. node_prev (ns ! k) = (if k = 0 then None else Some (k - 1)) \<and>
     (Suc k < i \<longrightarrow> node_next (ns ! k) = Some (Suc k)))"

lemma linked_upto_dll:
  assumes "linked_upto ns n" and "0 < n" and "n \<le> length ns" and "node_next (ns ! (n - 1)) = None"
  shows "j < n \<Longrightarrow> dll ns (if j = 0 then None else Some (j - 1)) (Some j) [j..<n] (Some (n - 1)) None"
proof (induction "n - j" arbitrary: j)
  case 0
  then show ?case by simp
next
  case (Suc d)
  show ?case
  proof (cases "Suc j < n")
    case True
    with Suc assms have "dll ns (Some j) (Some (Suc j)) [Suc j..<n] (Some (n - 1)) None" by force
    with True Suc.prems assms show ?thesis by (auto simp: linked_upto_def upt_conv_Cons)
  next
    case False
    with Suc.prems have "n = Suc j" by simp
    with assms show ?thesis by (auto simp: linked_upto_def)
  qed
qed

lemma static_list_loop_linked:
  assumes "i \<le> n" and "length (sl_buffer l) = n" and "linked_upto (sl_buffer l) i"
  shows "\<exists>l'. static_list_loop n i (if i = 0 then None else Some (i - 1)) (Some i) l =
      Some (l', if n = 0 then None else Some (n - 1)) \<and>
    linked_upto (sl_buffer l') n \<and> length (sl_buffer l') = n \<and>
    sl_free l' = sl_free l \<and> sl_first l' = sl_first l \<and> sl_last l' = sl_last l"
  using assms
proof (induction "n - i" arbitrary: i l)
  case 0
  then show ?case by (subst static_list_loop.simps) simp
next
  case (Suc d)
  let ?p = "if i = 0 then None else Some (i - 1)"
  from Suc.hyps(2) have i: "i < n" "d = n - Suc i" by simp_all
  have "\<exists>l1 l2. set_prev (Some i) ?p l = Some l1 \<and>
    (if ?p \<noteq> None then set_next ?p (Some i) l1 else Some l1) = Some l2 \<and>
    linked_upto (sl_buffer l2) (Suc i) \<and> length (sl_buffer l2) = n \<and>
    sl_free l2 = sl_free l \<and> sl_first l2 = sl_first l \<and> sl_last l2 = sl_last l"
    using i Suc.prems by (auto simp: access_defs linked_upto_def nth_list_update less_Suc_eq)
  then obtain l1 l2 where l12: "set_prev (Some i) ?p l = Some l1"
    "(if ?p \<noteq> None then set_next ?p (Some i) l1 else Some l1) = Some l2"
    "linked_upto (sl_buffer l2) (Suc i)" "length (sl_buffer l2) = n"
    "sl_free l2 = sl_free l" "sl_first l2 = sl_first l" "sl_last l2 = sl_last l" by blast
  from Suc.hyps(1) [OF i(2) _ l12(4,3)] i(1) l12(1,2,5-) show ?case
    by (cases "i = 0") (simp_all add: static_list_loop.simps [of n i] static_list_loop.simps [of n 0])
qed

lemma static_list_ctor_refines [refine]:
  assumes "raw \<noteq> []"
  shows "\<exists>l. static_list_ctor raw = Some l \<and> wf_list l \<and> contents l = [] \<and> capacity l = length raw"
proof -
  let ?n = "length raw" and ?l0 = "\<lparr>sl_buffer = raw, sl_free = Some 0, sl_first = None, sl_last = None\<rparr>"
  from static_list_loop_linked [of 0 ?n ?l0] obtain l1 where l1:
    "static_list_loop ?n 0 None (Some 0) ?l0 = Some (l1, Some (?n - 1))"
    "linked_upto (sl_buffer l1) ?n" "length (sl_buffer l1) = ?n"
    "sl_free l1 = Some 0" "sl_first l1 = None" "sl_last l1 = None"
    using assms by (auto simp: linked_upto_def)
  let ?ns = "(sl_buffer l1)[?n - 1 := (sl_buffer l1 ! (?n - 1))\<lparr>node_next := None\<rparr>]"
  have n: "0 < ?n" using assms by simp
  have "linked_upto ?ns ?n" using l1(2,3) by (auto simp: linked_upto_def nth_list_update)
  from linked_upto_dll [OF this n, of 0] l1(3) n
  have "dll ?ns None (Some 0) [0..<?n] (last_opt [0..<?n]) None" by (simp add: last_opt_def)
  with l1(3-) have "rep (l1\<lparr>sl_buffer := ?ns\<rparr>) [] [0..<?n]"
    by (auto simp: rep_def node_chains_def)
  moreover have "static_list_ctor raw = Some (l1\<lparr>sl_buffer := ?ns\<rparr>)"
    using l1(1,3) n by (simp add: static_list_ctor_def get_array_entry_def access_defs)
  ultimately show ?thesis using l1(3) by (auto intro: rep_wf simp: rep_contents capacity_def)
qed

section \<open>The contracts a well-formed list fulfils\<close>

text \<open>\<open>static_list\<close> is a bounded list with iterators.\<close>

interpretation sl: bounded_list wf_list contents capacity iter_at list_begin
  "\<lambda>l i. i = list_end l" "iterator_inc False" iterator_value emplace erase
proof unfold_locales
  show "length (contents s) \<le> capacity s" if "wf_list s" for s :: "'a static_list"
    using that by (rule contents_bounded)
  show "list_begin s = iter_at s 0" if "wf_list s" for s :: "'a static_list"
    using that by (rule iter_at_begin)
  show "(iter_at s k = list_end s) = (k = length (contents s))"
    if "wf_list s" "k \<le> length (contents s)" for s :: "'a static_list" and k
    using that by (rule iter_at_end)
  show "iterator_inc False s (iter_at s k) = Some (iter_at s (Suc k))"
    if "wf_list s" "k < length (contents s)" for s :: "'a static_list" and k
    using that by (rule iterator_inc_at)
  show "iterator_value s (iter_at s k) = Some (contents s ! k)"
    if "wf_list s" "k < length (contents s)" for s :: "'a static_list" and k
    using that by (simp add: iterator_value_at)
  show "\<exists>s'. emplace (iter_at s k) v s = Some s' \<and> wf_list s' \<and> capacity s' = capacity s \<and>
      contents s' = (if length (contents s) < capacity s
        then take k (contents s) @ v # drop k (contents s) else contents s)"
    if "wf_list s" "k \<le> length (contents s)" for s :: "'a static_list" and k v
    using emplace_refines [OF that] by (simp add: bounded_insert_def)
  show "\<exists>s'. erase (iter_at s k) s = Some s' \<and> wf_list s' \<and> capacity s' = capacity s \<and>
      contents s' = take k (contents s) @ drop (Suc k) (contents s)"
    if "wf_list s" "k < length (contents s)" for s :: "'a static_list" and k
    using that by (rule erase_refines)
qed

text \<open>
  The whole modifying interface as commands. Positions stand for iterators obtained by
  walking from \<open>begin()\<close> in the current list; only valid positions may be passed.
\<close>

datatype 'a list_cmd =
    Emplace nat 'a
  | Emplace_Back 'a
  | Erase nat
  | Pop_Front
  | Pop_Back

fun list_exec :: "'a list_cmd \<Rightarrow> 'a static_list \<Rightarrow> 'a static_list option" where
  "list_exec (Emplace k v) l = emplace (iter_at l k) v l"
| "list_exec (Emplace_Back v) l = emplace_back v l"
| "list_exec (Erase k) l = erase (iter_at l k) l"
| "list_exec Pop_Front l = pop_front l"
| "list_exec Pop_Back l = pop_back l"

text \<open>The specification: a sequence and its bound.\<close>

fun seq_exec :: "'a list_cmd \<Rightarrow> nat \<times> 'a list \<Rightarrow> nat \<times> 'a list" where
  "seq_exec (Emplace k v) (N, xs) = (N, bounded_insert N k v xs)"
| "seq_exec (Emplace_Back v) (N, xs) = (N, bounded_insert N (length xs) v xs)"
| "seq_exec (Erase k) (N, xs) = (N, take k xs @ drop (Suc k) xs)"
| "seq_exec Pop_Front (N, xs) = (N, tl xs)"
| "seq_exec Pop_Back (N, xs) = (N, butlast xs)"

fun seq_allowed :: "'a list_cmd \<Rightarrow> nat \<times> 'a list \<Rightarrow> bool" where
  "seq_allowed (Emplace k v) (N, xs) = (k \<le> length xs)"
| "seq_allowed (Erase k) (N, xs) = (k < length xs)"
| "seq_allowed _ _ = True"

interpretation sl_run: op_refinement wf_list "\<lambda>l. (capacity l, contents l)" list_exec seq_exec seq_allowed
proof unfold_locales
  fix l :: "'a static_list" and c
  assume "wf_list l" and "seq_allowed c (capacity l, contents l)"
  then show "\<exists>l'. list_exec c l = Some l' \<and> wf_list l' \<and>
      (capacity l', contents l') = seq_exec c (capacity l, contents l)"
    by (cases c) (simp_all add: refine)
qed

section \<open>Properties\<close>

text \<open>Every sequence that fits is the content of some well-formed list.\<close>

lemma exists_list:
  assumes "length xs \<le> N" and "0 < N"
  shows "\<exists>l :: 'a static_list. wf_list l \<and> capacity l = N \<and> contents l = xs"
  using assms(1)
proof (induction xs rule: rev_induct)
  case Nil
  let ?raw = "replicate N (undefined :: 'a static_list_node)"
  have "?raw \<noteq> []" using assms(2) by simp
  from static_list_ctor_refines [OF this] show ?case by auto
next
  case (snoc x xs)
  then obtain l :: "'a static_list" where "wf_list l" "capacity l = N" "contents l = xs" by auto
  with emplace_back_refines [of l x] snoc.prems show ?case by (auto simp: bounded_insert_def)
qed

text \<open>
  C1: from its constructor on, any sequence of emplace, emplace_back, erase, pop_front and
  pop_back calls on a static_list with iterators inside the list returns without undefined
  behaviour, keeps the two chains of nodes well formed, and leaves the list with the contents
  that the same operations give on a plain sequence bounded by N.
\<close>

theorem static_list_refines:
  assumes "raw \<noteq> []" and "all_allowed seq_allowed seq_exec cs (length raw, [])"
  shows "\<exists>l l'. static_list_ctor raw = Some l \<and> run_ops list_exec cs l = Some l' \<and> wf_list l' \<and>
    (capacity l', contents l') = fold seq_exec cs (length raw, [])"
proof -
  from static_list_ctor_refines [OF assms(1)] obtain l where
    "static_list_ctor raw = Some l" "wf_list l" "contents l = []" "capacity l = length raw" by blast
  with sl_run.run_refines [of l cs] assms(2) show ?thesis by auto
qed

theorem static_list_refines_witness:
  "\<exists>l l'. static_list_ctor (replicate 2 \<lparr>node_next = None, node_prev = None, node_value = None\<rparr>) = Some l \<and>
    run_ops list_exec [Emplace_Back (1 :: nat), Emplace 0 2, Emplace_Back 3, Erase 1, Emplace 1 4, Pop_Front] l = Some l' \<and>
    wf_list l' \<and> (capacity l', contents l') = (2, [4])"
  using static_list_refines [of "replicate 2 \<lparr>node_next = None, node_prev = None, node_value = None\<rparr>"
      "[Emplace_Back (1 :: nat), Emplace 0 2, Emplace_Back 3, Erase 1, Emplace 1 4, Pop_Front]"]
  by (simp add: bounded_insert_def)

text \<open>
  C30: iterating from begin() visits the values of a well-formed list in order and then equals
  end(); iterating from rbegin() visits them in reverse order and then equals rend().
\<close>

theorem iteration_order:
  assumes "wf_list l" and "k < length (contents l)"
  shows "Option.bind (advance False l k (list_begin l)) (iterator_value l) = Some (contents l ! k) \<and>
    Option.bind (advance True l k (rbegin l)) (iterator_value l) = Some (rev (contents l) ! k) \<and>
    advance False l (length (contents l)) (list_begin l) = Some (list_end l) \<and>
    advance True l (length (contents l)) (rbegin l) = Some (rend l)"
proof (intro conjI)
  have k: "length (contents l) - 1 - k < length (contents l)" using assms(2) by simp
  show "Option.bind (advance False l k (list_begin l)) (iterator_value l) = Some (contents l ! k)"
    using assms by (simp add: advance_forward iterator_value_at)
  show "Option.bind (advance True l k (rbegin l)) (iterator_value l) = Some (rev (contents l) ! k)"
    using assms k by (simp add: advance_backward rev_nth iterator_value_at)
  show "advance False l (length (contents l)) (list_begin l) = Some (list_end l)"
    using assms by (simp add: advance_forward iter_at_def contents_length list_end_def)
  show "advance True l (length (contents l)) (rbegin l) = Some (rend l)"
    using assms by (simp add: advance_backward rend_def)
qed

theorem iteration_order_witness:
  "\<exists>l. wf_list l \<and> contents l = [5, 6, 7 :: nat] \<and>
    Option.bind (advance False l 0 (list_begin l)) (iterator_value l) = Some 5 \<and>
    Option.bind (advance True l 0 (rbegin l)) (iterator_value l) = Some 7"
proof -
  obtain l where l: "wf_list l" "contents l = [5, 6, 7 :: nat]"
    using exists_list [of "[5, 6, 7 :: nat]" 4] by auto
  with iteration_order [of l 0] show ?thesis by (intro exI [of _ l]) simp
qed

end
