(* ===== verification/Pmr_List.thy ===== *)
theory Pmr_List
  imports Static_List_Correct
begin

text \<open>
  \<open>include/coro/static_list.hpp\<close>, the variant selected by \<open>STATIC_LIST_USE_STD_LIST\<close>: a
  \<open>std::pmr::list\<close> whose allocator is a \<open>std::pmr::monotonic_buffer_resource\<close> over a byte
  array inside the object. Of the standard library the resource, \<open>allocate\<close> and the list
  operations the schedulers call are modelled as the C++ standard describes them. What the
  standard leaves to the implementation is a parameter: the layout of a list node, the growth
  of the resource's buffers, and the upstream resource it turns to when its buffer is full.
  The theory shows for how long this variant behaves as the list of \<open>Static_List\<close>.
\<close>

section \<open>The memory resource\<close>

text \<open>
  The state of a \<open>monotonic_buffer_resource\<close>: the unused part of the current buffer, from
  \<open>pool_next\<close> up to \<open>pool_end\<close>, and the size of the buffer it will ask for next.
\<close>

record pmr_pool =
  pool_next :: nat
  pool_end :: nat
  next_buffer_size :: nat

text \<open>
  The upstream resource, with its own state, returns the address of a block or fails
  (\<open>std::bad_alloc\<close>); \<open>growth\<close> is the growth policy of the implementation.
\<close>

record 'u pmr_env =
  upstream :: "nat \<Rightarrow> nat \<Rightarrow> 'u \<Rightarrow> (nat \<times> 'u) option"
  growth :: "nat \<Rightarrow> nat"

text \<open>Sizes in bytes: a pointer, the element type \<open>T\<close>, a node of \<open>std::list<T>\<close> and its alignment.\<close>

record elem_layout =
  ptr_bytes :: nat
  value_bytes :: nat
  node_bytes :: nat
  node_align :: nat

definition align_up :: "nat \<Rightarrow> nat \<Rightarrow> nat" where
  "align_up a p = (p + (a - 1)) div a * a"

text \<open>The constructor from a buffer and its size.\<close>

definition pool_ctor :: "'u pmr_env \<Rightarrow> nat \<Rightarrow> nat \<Rightarrow> pmr_pool" where
  "pool_ctor env buffer bytes =
     \<lparr>pool_next = buffer, pool_end = buffer + bytes, next_buffer_size = growth env (max bytes 1)\<rparr>"

text \<open>
  \<open>do_allocate\<close>: from the current buffer where the block fits, otherwise from a new buffer
  that is taken from the upstream resource. \<open>do_deallocate\<close> has no effect.
\<close>

definition pool_allocate :: "'u pmr_env \<Rightarrow> nat \<Rightarrow> nat \<Rightarrow> pmr_pool \<times> 'u
    \<Rightarrow> (nat \<times> pmr_pool \<times> 'u) option" where
  "pool_allocate env bytes align pu =
     (let r = fst pu; p = align_up align (pool_next r) in
      if p + bytes \<le> pool_end r then Some (p, r\<lparr>pool_next := p + bytes\<rparr>, snd pu)
      else do {
        let n = max bytes (next_buffer_size r);
        (q, u) \<leftarrow> upstream env n align (snd pu);
        Some (q, \<lparr>pool_next = q + bytes, pool_end = q + n,
                 next_buffer_size = growth env (next_buffer_size r)\<rparr>, u)
      })"

definition pool_deallocate :: "nat \<Rightarrow> pmr_pool \<Rightarrow> pmr_pool" where
  "pool_deallocate p r = r"

section \<open>The list\<close>

text \<open>
  \<open>static_list<T, N>\<close>: the nodes of the list in order, each with its address, and the two
  resources. \<open>buffer_\<close> has \<open>N * (sizeof(T) + LIST_ELEM_SIZE)\<close> bytes.
\<close>

record ('a, 'u) pmr_list =
  pl_nodes :: "(nat \<times> 'a) list"
  pl_pool :: pmr_pool
  pl_heap :: 'u

definition LIST_ELEM_SIZE :: "elem_layout \<Rightarrow> nat" where
  "LIST_ELEM_SIZE lay = ptr_bytes lay * 2"

definition buffer_bytes :: "elem_layout \<Rightarrow> nat \<Rightarrow> nat" where
  "buffer_bytes lay N = N * (value_bytes lay + LIST_ELEM_SIZE lay)"

text \<open>\<open>static_list_allocator()\<close> and \<open>static_list()\<close>; \<open>buffer\<close> is the address of \<open>buffer_\<close>.\<close>

definition static_list_allocator :: "'u pmr_env \<Rightarrow> elem_layout \<Rightarrow> nat \<Rightarrow> nat \<Rightarrow> pmr_pool" where
  "static_list_allocator env lay N buffer = pool_ctor env buffer (buffer_bytes lay N)"

definition pmr_list_ctor :: "'u pmr_env \<Rightarrow> elem_layout \<Rightarrow> nat \<Rightarrow> nat \<Rightarrow> 'u \<Rightarrow> ('a, 'u) pmr_list" where
  "pmr_list_ctor env lay N buffer u =
     \<lparr>pl_nodes = [], pl_pool = static_list_allocator env lay N buffer, pl_heap = u\<rparr>"

text \<open>
  An iterator of \<open>std::list\<close> is the address of a node, or \<open>None\<close> at the end. Its place in
  the list is where that node is; an address that is not in the list is undefined behaviour.
\<close>

definition node_index :: "('a, 'u) pmr_list \<Rightarrow> nat option \<Rightarrow> nat option" where
  "node_index l i = (case i of None \<Rightarrow> Some (length (pl_nodes l))
     | Some p \<Rightarrow> if p \<in> set (map fst (pl_nodes l))
                then Some (first_index (\<lambda>n. fst n = p) (pl_nodes l)) else None)"

definition pmr_iter_at :: "('a, 'u) pmr_list \<Rightarrow> nat \<Rightarrow> nat option" where
  "pmr_iter_at l k = (if k < length (pl_nodes l) then Some (fst (pl_nodes l ! k)) else None)"

text \<open>\<open>emplace\<close>: a node is allocated, constructed and linked before the iterator.\<close>

definition pmr_emplace :: "'u pmr_env \<Rightarrow> elem_layout \<Rightarrow> nat option \<Rightarrow> 'a \<Rightarrow> ('a, 'u) pmr_list
    \<Rightarrow> ('a, 'u) pmr_list option" where
  "pmr_emplace env lay i v l = do {
     k \<leftarrow> node_index l i;
     (p, r, u) \<leftarrow> pool_allocate env (node_bytes lay) (node_align lay) (pl_pool l, pl_heap l);
     Some \<lparr>pl_nodes = take k (pl_nodes l) @ (p, v) # drop k (pl_nodes l), pl_pool = r, pl_heap = u\<rparr>
   }"

definition pmr_emplace_back :: "'u pmr_env \<Rightarrow> elem_layout \<Rightarrow> 'a \<Rightarrow> ('a, 'u) pmr_list
    \<Rightarrow> ('a, 'u) pmr_list option" where
  "pmr_emplace_back env lay v l = pmr_emplace env lay None v l"

text \<open>\<open>erase\<close>: the node is unlinked and its memory given back to the resource.\<close>

definition pmr_erase :: "nat option \<Rightarrow> ('a, 'u) pmr_list \<Rightarrow> ('a, 'u) pmr_list option" where
  "pmr_erase i l = (case i of None \<Rightarrow> None | Some p \<Rightarrow> do {
     k \<leftarrow> node_index l i;
     Some (l\<lparr>pl_nodes := take k (pl_nodes l) @ drop (Suc k) (pl_nodes l),
             pl_pool := pool_deallocate p (pl_pool l)\<rparr>)
   })"

text \<open>\<open>pop_front\<close> and \<open>pop_back\<close> erase the first and the last node; there must be one.\<close>

definition pmr_pop_front :: "('a, 'u) pmr_list \<Rightarrow> ('a, 'u) pmr_list option" where
  "pmr_pop_front l = pmr_erase (pmr_iter_at l 0) l"

definition pmr_pop_back :: "('a, 'u) pmr_list \<Rightarrow> ('a, 'u) pmr_list option" where
  "pmr_pop_back l = pmr_erase (pmr_iter_at l (length (pl_nodes l) - 1)) l"

fun pmr_exec :: "'u pmr_env \<Rightarrow> elem_layout \<Rightarrow> 'a list_cmd \<Rightarrow> ('a, 'u) pmr_list
    \<Rightarrow> ('a, 'u) pmr_list option" where
  "pmr_exec env lay (Emplace k v) l = pmr_emplace env lay (pmr_iter_at l k) v l"
| "pmr_exec env lay (Emplace_Back v) l = pmr_emplace_back env lay v l"
| "pmr_exec env lay (Erase k) l = pmr_erase (pmr_iter_at l k) l"
| "pmr_exec env lay Pop_Front l = pmr_pop_front l"
| "pmr_exec env lay Pop_Back l = pmr_pop_back l"

definition pmr_contents :: "('a, 'u) pmr_list \<Rightarrow> 'a list" where
  "pmr_contents l = map snd (pl_nodes l)"

section \<open>How long the buffer lasts\<close>

text \<open>
  The commands on a plain sequence, the obligation of a caller that never asks for more than
  \<open>N\<close> elements at a time, and the sequence together with the blocks that are left.
\<close>

fun is_insert :: "'a list_cmd \<Rightarrow> bool" where
  "is_insert (Emplace k v) = True"
| "is_insert (Emplace_Back v) = True"
| "is_insert _ = False"

fun plain_exec :: "'a list_cmd \<Rightarrow> 'a list \<Rightarrow> 'a list" where
  "plain_exec (Emplace k v) xs = take k xs @ v # drop k xs"
| "plain_exec (Emplace_Back v) xs = xs @ [v]"
| "plain_exec (Erase k) xs = take k xs @ drop (Suc k) xs"
| "plain_exec Pop_Front xs = tl xs"
| "plain_exec Pop_Back xs = butlast xs"

fun fits :: "nat \<Rightarrow> 'a list_cmd \<Rightarrow> 'a list \<Rightarrow> bool" where
  "fits N (Emplace k v) xs = (k \<le> length xs \<and> length xs < N)"
| "fits N (Emplace_Back v) xs = (length xs < N)"
| "fits N (Erase k) xs = (k < length xs)"
| "fits N Pop_Front xs = (xs \<noteq> [])"
| "fits N Pop_Back xs = (xs \<noteq> [])"

definition inserts :: "'a list_cmd list \<Rightarrow> nat" where
  "inserts cs = length (filter is_insert cs)"

definition supply_exec :: "'a list_cmd \<Rightarrow> nat \<times> 'a list \<Rightarrow> nat \<times> 'a list" where
  "supply_exec c fx = (if is_insert c then fst fx - 1 else fst fx, plain_exec c (snd fx))"

definition supply_allowed :: "nat \<Rightarrow> 'a list_cmd \<Rightarrow> nat \<times> 'a list \<Rightarrow> bool" where
  "supply_allowed N c fx = (fits N c (snd fx) \<and> (is_insert c \<longrightarrow> 0 < fst fx))"

text \<open>
  What the size of \<open>buffer_\<close> relies on: a node is the element and two pointers, without
  padding, and the buffer is aligned for it.
\<close>

definition layout_ok :: "elem_layout \<Rightarrow> nat \<Rightarrow> bool" where
  "layout_ok lay buffer \<longleftrightarrow> node_bytes lay = value_bytes lay + LIST_ELEM_SIZE lay \<and>
     0 < node_bytes lay \<and> 0 < node_align lay \<and> node_align lay dvd node_bytes lay \<and> node_align lay dvd buffer"

definition blocks_left :: "elem_layout \<Rightarrow> ('a, 'u) pmr_list \<Rightarrow> nat" where
  "blocks_left lay l = (pool_end (pl_pool l) - pool_next (pl_pool l)) div node_bytes lay"

text \<open>
  While the resource has not left its buffer: it has given out \<open>m\<close> blocks, the nodes of the
  list are among them, and the upstream resource is untouched.
\<close>

definition pmr_ok :: "elem_layout \<Rightarrow> nat \<Rightarrow> nat \<Rightarrow> 'u \<Rightarrow> ('a, 'u) pmr_list \<Rightarrow> bool" where
  "pmr_ok lay N buffer u l \<longleftrightarrow> layout_ok lay buffer \<and> pl_heap l = u \<and>
     (\<exists>m \<le> N. pool_next (pl_pool l) = buffer + m * node_bytes lay) \<and>
     pool_end (pl_pool l) = buffer + N * node_bytes lay \<and>
     distinct (map fst (pl_nodes l)) \<and> (\<forall>n \<in> set (pl_nodes l). fst n < pool_next (pl_pool l))"

lemma align_up_aligned: "0 < a \<Longrightarrow> a dvd p \<Longrightarrow> align_up a p = p"
  by (auto simp: align_up_def div_add1_eq [of _ "a - 1"] simp del: add_diff_assoc)

lemma pmr_pool_aligned:
  "pmr_ok lay N buffer u l \<Longrightarrow> align_up (node_align lay) (pool_next (pl_pool l)) = pool_next (pl_pool l)"
  by (rule align_up_aligned) (auto simp: pmr_ok_def layout_ok_def)

lemma pmr_blocks:
  assumes "pmr_ok lay N buffer u l"
  shows "pool_end (pl_pool l) = pool_next (pl_pool l) + blocks_left lay l * node_bytes lay"
    and "0 < node_bytes lay"
proof -
  from assms obtain m where m: "m \<le> N" "pool_next (pl_pool l) = buffer + m * node_bytes lay"
    "pool_end (pl_pool l) = buffer + N * node_bytes lay" and pos: "0 < node_bytes lay"
    by (auto simp: pmr_ok_def layout_ok_def)
  then have "pool_end (pl_pool l) - pool_next (pl_pool l) = (N - m) * node_bytes lay"
    by (simp add: diff_mult_distrib)
  with m pos show "pool_end (pl_pool l) = pool_next (pl_pool l) + blocks_left lay l * node_bytes lay"
    by (simp add: blocks_left_def diff_mult_distrib)
  show "0 < node_bytes lay" by (rule pos)
qed

lemma pmr_allocate:
  assumes "pmr_ok lay N buffer u l"
  shows "pool_allocate env (node_bytes lay) (node_align lay) (pl_pool l, pl_heap l) =
    (if 0 < blocks_left lay l
     then Some (pool_next (pl_pool l),
       (pl_pool l)\<lparr>pool_next := pool_next (pl_pool l) + node_bytes lay\<rparr>, u)
     else Option.bind (upstream env (max (node_bytes lay) (next_buffer_size (pl_pool l))) (node_align lay) u)
       (\<lambda>(q, u'). Some (q, \<lparr>pool_next = q + node_bytes lay,
          pool_end = q + max (node_bytes lay) (next_buffer_size (pl_pool l)),
          next_buffer_size = growth env (next_buffer_size (pl_pool l))\<rparr>, u')))"
proof -
  have "node_bytes lay \<le> blocks_left lay l * node_bytes lay \<longleftrightarrow> 0 < blocks_left lay l"
    using pmr_blocks(2) [OF assms] by (cases "blocks_left lay l") auto
  moreover have "pl_heap l = u" using assms by (simp add: pmr_ok_def)
  ultimately show ?thesis
    by (simp add: pool_allocate_def pmr_pool_aligned [OF assms] pmr_blocks(1) [OF assms] Let_def)
qed

text \<open>Iterators: the node at place \<open>k\<close> is found again by its address.\<close>

lemma node_index_at:
  assumes "distinct (map fst (pl_nodes l))" and "k \<le> length (pl_nodes l)"
  shows "node_index l (pmr_iter_at l k) = Some k"
proof (cases "k < length (pl_nodes l)")
  case True
  let ?P = "\<lambda>n. fst n = fst (pl_nodes l ! k)"
  let ?f = "first_index ?P (pl_nodes l)"
  have "?f \<le> k" using True first_index_less [of k ?P "pl_nodes l"] by (meson not_le_imp_less)
  with True have "?P (pl_nodes l ! ?f)" using first_index_hit [of ?P "pl_nodes l"] by simp
  with True \<open>?f \<le> k\<close> assms(1) have "?f = k" by (simp add: distinct_conv_nth) (metis le_less_trans)
  with True show ?thesis by (simp add: node_index_def pmr_iter_at_def)
next
  case False
  with assms(2) show ?thesis by (simp add: node_index_def pmr_iter_at_def)
qed

lemma pmr_ok_distinct: "pmr_ok lay N buffer u l \<Longrightarrow> distinct (map fst (pl_nodes l))"
  by (simp add: pmr_ok_def)

lemma pmr_emplace_refines:
  assumes "pmr_ok lay N buffer u l" and "k \<le> length (pl_nodes l)" and "0 < blocks_left lay l"
  shows "\<exists>l'. pmr_emplace env lay (pmr_iter_at l k) v l = Some l' \<and> pmr_ok lay N buffer u l' \<and>
    blocks_left lay l' = blocks_left lay l - 1 \<and>
    pmr_contents l' = take k (pmr_contents l) @ v # drop k (pmr_contents l)"
proof -
  let ?r = "pl_pool l" let ?b = "node_bytes lay"
  let ?l = "\<lparr>pl_nodes = take k (pl_nodes l) @ (pool_next ?r, v) # drop k (pl_nodes l),
    pl_pool = ?r\<lparr>pool_next := pool_next ?r + ?b\<rparr>, pl_heap = u\<rparr>"
  note ok = assms(1)
  from ok obtain m where m: "m \<le> N" "pool_next ?r = buffer + m * ?b" "pool_end ?r = buffer + N * ?b"
    by (auto simp: pmr_ok_def)
  have "blocks_left lay l = N - m"
    using m pmr_blocks(2) [OF ok] by (simp add: blocks_left_def diff_mult_distrib [symmetric])
  with m assms(3) have "Suc m \<le> N" "pool_next ?r + ?b = buffer + Suc m * ?b" by simp_all
  then have next': "\<exists>m \<le> N. pool_next ?r + ?b = buffer + m * ?b" by blast
  have "\<forall>n \<in> set (pl_nodes l). fst n < pool_next ?r" using ok by (simp add: pmr_ok_def)
  then have fresh: "pool_next ?r \<notin> fst ` set (pl_nodes l)" by auto
  have "distinct (map fst (take k (pl_nodes l) @ drop k (pl_nodes l)))" using ok by (simp add: pmr_ok_def)
  then have "distinct (map fst (pl_nodes ?l))"
    using fresh by (auto simp: image_iff simp del: append_take_drop_id dest: in_set_takeD in_set_dropD)
  moreover have "\<forall>n \<in> set (pl_nodes ?l). fst n < pool_next ?r + ?b"
    using ok pmr_blocks(2) [OF ok] by (auto simp: pmr_ok_def dest!: in_set_takeD in_set_dropD)
  ultimately have "pmr_ok lay N buffer u ?l" using ok next' by (simp add: pmr_ok_def)
  moreover have "blocks_left lay ?l = blocks_left lay l - 1"
    using pmr_blocks [OF ok] assms(3) by (cases "blocks_left lay l") (simp_all add: blocks_left_def)
  moreover have "pmr_emplace env lay (pmr_iter_at l k) v l = Some ?l"
    using assms by (simp add: pmr_emplace_def node_index_at [OF pmr_ok_distinct [OF ok]] pmr_allocate [OF ok])
  moreover have "pmr_contents ?l = take k (pmr_contents l) @ v # drop k (pmr_contents l)"
    by (simp add: pmr_contents_def take_map drop_map)
  ultimately show ?thesis by blast
qed

lemma pmr_erase_refines:
  assumes "pmr_ok lay N buffer u l" and "k < length (pl_nodes l)"
  shows "\<exists>l'. pmr_erase (pmr_iter_at l k) l = Some l' \<and> pmr_ok lay N buffer u l' \<and>
    blocks_left lay l' = blocks_left lay l \<and>
    pmr_contents l' = take k (pmr_contents l) @ drop (Suc k) (pmr_contents l)"
proof -
  let ?ns = "take k (pl_nodes l) @ drop (Suc k) (pl_nodes l)"
  have "node_index l (pmr_iter_at l k) = Some k"
    using assms pmr_ok_distinct by (intro node_index_at) auto
  then have run: "pmr_erase (pmr_iter_at l k) l = Some (l\<lparr>pl_nodes := ?ns\<rparr>)"
    using assms(2) by (simp add: pmr_erase_def pmr_iter_at_def pool_deallocate_def)
  have "distinct (map fst (take k (pl_nodes l) @ pl_nodes l ! k # drop (Suc k) (pl_nodes l)))"
    using pmr_ok_distinct [OF assms(1)] assms(2) by (simp add: id_take_nth_drop [symmetric])
  then have "distinct (map fst ?ns)" by auto
  with assms(1) have "pmr_ok lay N buffer u (l\<lparr>pl_nodes := ?ns\<rparr>)"
    by (auto simp: pmr_ok_def dest: in_set_takeD in_set_dropD)
  with run show ?thesis by (auto simp: blocks_left_def pmr_contents_def take_map drop_map)
qed

lemma pmr_contents_length: "length (pmr_contents l) = length (pl_nodes l)"
  by (simp add: pmr_contents_def)

lemma pmr_emplace_back_eq: "pmr_emplace_back env lay v l = pmr_emplace env lay (pmr_iter_at l (length (pl_nodes l))) v l"
  by (simp add: pmr_emplace_back_def pmr_iter_at_def)

lemma pmr_pops_refine:
  assumes "pmr_ok lay N buffer u l" and "pmr_contents l \<noteq> []"
  shows "\<exists>l'. pmr_pop_front l = Some l' \<and> pmr_ok lay N buffer u l' \<and>
      blocks_left lay l' = blocks_left lay l \<and> pmr_contents l' = tl (pmr_contents l)"
    and "\<exists>l'. pmr_pop_back l = Some l' \<and> pmr_ok lay N buffer u l' \<and>
      blocks_left lay l' = blocks_left lay l \<and> pmr_contents l' = butlast (pmr_contents l)"
proof -
  have len: "0 < length (pl_nodes l)" using assms(2) by (simp add: pmr_contents_def)
  show "\<exists>l'. pmr_pop_front l = Some l' \<and> pmr_ok lay N buffer u l' \<and>
      blocks_left lay l' = blocks_left lay l \<and> pmr_contents l' = tl (pmr_contents l)"
    using pmr_erase_refines [OF assms(1) len] by (simp add: pmr_pop_front_def drop_Suc)
  show "\<exists>l'. pmr_pop_back l = Some l' \<and> pmr_ok lay N buffer u l' \<and>
      blocks_left lay l' = blocks_left lay l \<and> pmr_contents l' = butlast (pmr_contents l)"
    using pmr_erase_refines [OF assms(1), of "length (pl_nodes l) - 1"] len
    by (simp add: pmr_pop_back_def butlast_conv_take pmr_contents_length)
qed

lemma pmr_step_refines:
  assumes "pmr_ok lay N buffer u l" and "fits N c (pmr_contents l)"
    and "is_insert c \<longrightarrow> 0 < blocks_left lay l"
  shows "\<exists>l'. pmr_exec env lay c l = Some l' \<and> pmr_ok lay N buffer u l' \<and>
    blocks_left lay l' = (if is_insert c then blocks_left lay l - 1 else blocks_left lay l) \<and>
    pmr_contents l' = plain_exec c (pmr_contents l)"
proof (cases c)
  case (Emplace k v)
  with assms pmr_emplace_refines [OF assms(1), of k env v] show ?thesis by (simp add: pmr_contents_length)
next
  case (Emplace_Back v)
  with assms pmr_emplace_refines [OF assms(1) order_refl, of env v] show ?thesis
    by (simp add: pmr_emplace_back_eq pmr_contents_length)
next
  case (Erase k)
  with assms pmr_erase_refines [OF assms(1), of k] show ?thesis by (simp add: pmr_contents_length)
next
  case Pop_Front
  with assms pmr_pops_refine(1) [OF assms(1)] show ?thesis by simp
next
  case Pop_Back
  with assms pmr_pops_refine(2) [OF assms(1)] show ?thesis by simp
qed

interpretation pmr_run: op_refinement "pmr_ok lay N buffer u :: ('a, 'u) pmr_list \<Rightarrow> bool" "\<lambda>l. (blocks_left lay l, pmr_contents l)"
  "pmr_exec env lay" supply_exec "supply_allowed N"
  for env :: "'u pmr_env" and lay N buffer u
proof unfold_locales
  fix l :: "('a, 'u) pmr_list" and c
  assume "pmr_ok lay N buffer u l" and "supply_allowed N c (blocks_left lay l, pmr_contents l)"
  with pmr_step_refines [of lay N buffer u l c env]
  show "\<exists>l'. pmr_exec env lay c l = Some l' \<and> pmr_ok lay N buffer u l' \<and>
      (blocks_left lay l', pmr_contents l') = supply_exec c (blocks_left lay l, pmr_contents l)"
    by (auto simp: supply_allowed_def supply_exec_def)
qed

lemma pmr_ctor_ok:
  "layout_ok lay buffer \<Longrightarrow> pmr_ok lay N buffer u (pmr_list_ctor env lay N buffer u)"
  "layout_ok lay buffer \<Longrightarrow> blocks_left lay (pmr_list_ctor env lay N buffer u) = N"
  "pmr_contents (pmr_list_ctor env lay N buffer u) = []"
  by (auto simp: pmr_ok_def layout_ok_def blocks_left_def pmr_contents_def pmr_list_ctor_def
      static_list_allocator_def pool_ctor_def buffer_bytes_def)

text \<open>With the blocks that are left, a run of commands gives the plain sequence.\<close>

lemma supply_run:
  "all_allowed (fits N) plain_exec cs xs \<Longrightarrow> inserts cs \<le> f \<Longrightarrow>
     all_allowed (supply_allowed N) supply_exec cs (f, xs) \<and>
     fold supply_exec cs (f, xs) = (f - inserts cs, fold plain_exec cs xs)"
proof (induction cs arbitrary: f xs)
  case Nil
  then show ?case by (simp add: inserts_def)
next
  case (Cons c cs)
  from Cons.prems have "inserts cs \<le> (if is_insert c then f - 1 else f)" and "is_insert c \<longrightarrow> 0 < f"
    by (auto simp: inserts_def split: if_splits)
  with Cons.IH [of "plain_exec c xs" "if is_insert c then f - 1 else f"] Cons.prems show ?case
    by (auto simp: supply_allowed_def supply_exec_def inserts_def)
qed

text \<open>Without a block left and with no upstream, an insertion fails.\<close>

lemma pmr_insert_exhausted:
  assumes "pmr_ok lay N buffer u l" and "blocks_left lay l = 0" and "\<forall>n a. upstream env n a u = None"
    and "is_insert c"
  shows "pmr_exec env lay c l = None"
  using assms by (cases c)
    (auto simp: pmr_emplace_def pmr_emplace_back_def pmr_allocate [OF assms(1)] Option.bind_eq_None_conv)

lemma pmr_run_exhausted:
  assumes "\<forall>n a. upstream env n a u = None"
  shows "pmr_ok lay N buffer u l \<Longrightarrow> all_allowed (fits N) plain_exec cs (pmr_contents l) \<Longrightarrow>
    blocks_left lay l < inserts cs \<Longrightarrow> run_ops (pmr_exec env lay) cs l = None"
proof (induction cs arbitrary: l)
  case Nil
  then show ?case by (simp add: inserts_def)
next
  case (Cons c cs)
  show ?case
  proof (cases "is_insert c \<and> blocks_left lay l = 0")
    case True
    with pmr_insert_exhausted [OF Cons.prems(1) _ assms] show ?thesis by simp
  next
    case False
    then obtain l' where "pmr_exec env lay c l = Some l'" "pmr_ok lay N buffer u l'"
      "blocks_left lay l' = (if is_insert c then blocks_left lay l - 1 else blocks_left lay l)"
      "pmr_contents l' = plain_exec c (pmr_contents l)"
      using pmr_step_refines [OF Cons.prems(1), of c env] Cons.prems(2) by auto
    with Cons.IH [of l'] Cons.prems(2,3) False show ?thesis
      by (auto simp: inserts_def split: if_splits)
  qed
qed

text \<open>The node array of \<open>Static_List\<close> serves the same callers for ever.\<close>

lemma bounded_run:
  "all_allowed (fits N) plain_exec cs xs \<Longrightarrow>
     all_allowed seq_allowed seq_exec cs (N, xs) \<and> fold seq_exec cs (N, xs) = (N, fold plain_exec cs xs)"
proof (induction cs arbitrary: xs)
  case Nil
  then show ?case by simp
next
  case (Cons c cs)
  from Cons.prems have "seq_allowed c (N, xs)" "seq_exec c (N, xs) = (N, plain_exec c xs)"
    by (cases c; simp add: bounded_insert_def)+
  with Cons.IH [of "plain_exec c xs"] Cons.prems show ?case by simp
qed

lemma node_array_serves:
  assumes "raw \<noteq> []" and "all_allowed (fits (length raw)) plain_exec cs []"
  shows "\<exists>l. Option.bind (static_list_ctor raw) (run_ops list_exec cs) = Some l \<and>
    contents l = fold plain_exec cs []"
proof -
  from static_list_ctor_refines [OF assms(1)] obtain l where
    "static_list_ctor raw = Some l" "wf_list l" "contents l = []" "capacity l = length raw" by blast
  with sl_run.run_refines [of l cs] bounded_run [OF assms(2)] show ?thesis by auto
qed

section \<open>Properties\<close>

text \<open>
  C21: on a sequence of calls that never asks for more than N elements at a time, the
  std::pmr variant of static_list agrees with the node array while no more than N insertions
  have been made since its construction. The next insertion leaves the static buffer, even when
  all elements have been erased, and fails where there is no heap; the node array goes on.
\<close>

theorem pmr_variant_agrees:
  assumes "layout_ok lay buffer" and "raw \<noteq> []"
    and "all_allowed (fits (length raw)) plain_exec cs []"
    and "\<forall>n a. upstream env n a u = None"
  shows "\<exists>l. Option.bind (static_list_ctor raw) (run_ops list_exec cs) = Some l \<and>
    map_option pmr_contents (run_ops (pmr_exec env lay) cs (pmr_list_ctor env lay (length raw) buffer u)) =
      (if inserts cs \<le> length raw then Some (contents l) else None)"
proof -
  let ?N = "length raw"
  let ?l = "pmr_list_ctor env lay ?N buffer u"
  note ok = pmr_ctor_ok(1) [OF assms(1), of ?N u env] and left = pmr_ctor_ok(2) [OF assms(1), of env ?N u]
  from node_array_serves [OF assms(2,3)] obtain l where
    l: "Option.bind (static_list_ctor raw) (run_ops list_exec cs) = Some l" "contents l = fold plain_exec cs []"
    by blast
  have "map_option pmr_contents (run_ops (pmr_exec env lay) cs ?l) =
      (if inserts cs \<le> ?N then Some (fold plain_exec cs []) else None)"
  proof (cases "inserts cs \<le> ?N")
    case True
    note run = supply_run [OF assms(3) True]
    with pmr_run.run_refines [OF ok, of cs env] obtain l' where
      "run_ops (pmr_exec env lay) cs ?l = Some l'" "pmr_contents l' = fold plain_exec cs []"
      by (auto simp: left pmr_ctor_ok(3))
    with True show ?thesis by simp
  next
    case False
    with pmr_run_exhausted [OF assms(4) ok, of cs] assms(3) show ?thesis by (simp add: left pmr_ctor_ok(3))
  qed
  with l show ?thesis by auto
qed

theorem pmr_variant_agrees_witness:
  "\<exists>l. Option.bind (static_list_ctor (replicate 2 \<lparr>node_next = None, node_prev = None, node_value = None\<rparr>))
      (run_ops list_exec [Emplace_Back (1 :: nat), Pop_Front, Emplace_Back 2, Pop_Front, Emplace_Back 3]) = Some l \<and>
    run_ops (pmr_exec \<lparr>upstream = \<lambda>n a u. None, growth = (\<lambda>n. 2 * n)\<rparr>
        \<lparr>ptr_bytes = 4, value_bytes = 8, node_bytes = 16, node_align = 4\<rparr>)
      [Emplace_Back (1 :: nat), Pop_Front, Emplace_Back 2, Pop_Front, Emplace_Back 3]
      (pmr_list_ctor \<lparr>upstream = \<lambda>n a u. None, growth = (\<lambda>n. 2 * n)\<rparr>
        \<lparr>ptr_bytes = 4, value_bytes = 8, node_bytes = 16, node_align = 4\<rparr> 2 0x80000100 ()) = None"
  using pmr_variant_agrees [of "\<lparr>ptr_bytes = 4, value_bytes = 8, node_bytes = 16, node_align = 4\<rparr>" "0x80000100"
      "replicate 2 \<lparr>node_next = None, node_prev = None, node_value = None\<rparr>"
      "[Emplace_Back (1 :: nat), Pop_Front, Emplace_Back 2, Pop_Front, Emplace_Back 3]"
      "\<lparr>upstream = \<lambda>n a u. None, growth = (\<lambda>n. 2 * n)\<rparr>" "()"]
  by (auto simp: layout_ok_def LIST_ELEM_SIZE_def inserts_def)

end
