(* ===== verification/Isr_Race.thy ===== *)
theory Isr_Race
  imports Static_List_Correct
begin

text \<open>
  \<open>example_irq.cpp\<close> runs \<open>main_thread.resume()\<close> with interrupts enabled, and its interrupt
  handler schedules coroutines on the same list. This theory takes \<open>static_list::pop_front\<close>
  apart at one point where an interrupt can come, between \<open>return_free_elem(first_)\<close> and the
  update of \<open>first_\<close> and \<open>last_\<close>, and shows what an \<open>emplace_back\<close> in the handler does there.
\<close>

text \<open>\<open>pop_front\<close> of a list that is not empty, up to and from that point.\<close>

definition pop_front_begin :: "'a static_list \<Rightarrow> (ptr \<times> 'a static_list) option" where
  "pop_front_begin l = do {
     n \<leftarrow> deref l (sl_first l);
     let nxt = node_next n;
     l \<leftarrow> (if nxt \<noteq> None then set_prev nxt None l else Some l);
     l \<leftarrow> return_free_elem (sl_first l) l;
     Some (nxt, l)
   }"

definition pop_front_end :: "ptr \<Rightarrow> 'a static_list \<Rightarrow> 'a static_list" where
  "pop_front_end nxt l =
     (let l = (if sl_first l = sl_last l then l\<lparr>sl_last := nxt\<rparr> else l) in l\<lparr>sl_first := nxt\<rparr>)"

definition pop_front_interrupted :: "('a static_list \<Rightarrow> 'a static_list option) \<Rightarrow> 'a static_list
    \<Rightarrow> 'a static_list option" where
  "pop_front_interrupted isr l =
     (if sl_first l \<noteq> None then do {
        (nxt, l) \<leftarrow> pop_front_begin l;
        l \<leftarrow> isr l;
        Some (pop_front_end nxt l)
      } else Some l)"

lemma pop_front_not_interrupted: "pop_front_interrupted Some l = pop_front l"
  by (simp add: pop_front_interrupted_def pop_front_begin_def pop_front_end_def pop_front_def Let_def
      bind_assoc cong: if_cong)

text \<open>Record facts that turn the updates of the two operations into one state.\<close>

lemma node_all_fields:
  "n\<lparr>node_value := v, node_prev := p, node_next := q\<rparr> = \<lparr>node_next = q, node_prev = p, node_value = v\<rparr>"
  by (cases n) simp

lemma list_own_free: "sl_free l = f \<Longrightarrow> l\<lparr>sl_free := f, sl_buffer := b, sl_last := x, sl_first := y\<rparr> =
    l\<lparr>sl_buffer := b, sl_first := y, sl_last := x\<rparr>"
  by (cases l) simp

text \<open>The state after the interrupted call on a list of one element in node \<open>u\<close>.\<close>

lemma interrupted_state:
  assumes "rep l [u] fs"
  shows "pop_front_interrupted (emplace_back g) l =
    Some (l\<lparr>sl_buffer := (sl_buffer l)[u := \<lparr>node_next = Some u, node_prev = Some u, node_value = Some g\<rparr>],
      sl_first := None, sl_last := None\<rparr>)"
proof -
  let ?ns = "sl_buffer l"
  have u: "sl_first l = Some u" "sl_last l = Some u" "u < length ?ns"
    "node_prev (?ns ! u) = None" "node_next (?ns ! u) = None" "u \<notin> set fs"
    using assms by (auto simp: rep_def node_chains_def)
  show ?thesis
  proof (cases fs)
    case Nil
    then have "sl_free l = None" using assms by (simp add: rep_def node_chains_def)
    with u show ?thesis
      by (simp add: pop_front_interrupted_def pop_front_begin_def pop_front_end_def return_free_elem_def
          emplace_back_def get_free_elem_def link_last_def access_defs Let_def node_all_fields list_own_free)
  next
    case (Cons f gs)
    have f: "sl_free l = Some f" "f < length ?ns" "node_prev (?ns ! f) = None" "f \<noteq> u"
      using assms Cons by (auto simp: rep_def node_chains_def)
    then have same: "?ns[f := (?ns ! f)\<lparr>node_prev := None\<rparr>] = ?ns"
      by (metis (mono_tags) list_update_id static_list_node.surjective static_list_node.update_convs(2))
    with u f show ?thesis
      by (simp add: pop_front_interrupted_def pop_front_begin_def pop_front_end_def return_free_elem_def
          emplace_back_def get_free_elem_def link_last_def access_defs Let_def list_update_swap
          node_all_fields list_own_free)
  qed
qed

text \<open>A list whose two chains do not cover the array is not well formed.\<close>

lemma lost_node:
  assumes "rep l [u] fs" and "sl_free l' = sl_free l" and "sl_first l' = None"
    and "sl_buffer l' = (sl_buffer l)[u := n]"
  shows "\<not> wf_list l'" and "free_nodes l' = free_nodes l"
proof -
  have N: "capacity l' = capacity l" using assms(4) by (simp add: capacity_def)
  have "dll (sl_buffer l') None (sl_free l') fs (last_opt fs) None"
    using assms by (simp add: rep_def node_chains_def)
  moreover have len: "1 + length fs = capacity l" using rep_length [OF assms(1)] by simp
  ultimately have fs: "free_nodes l' = fs"
    unfolding free_nodes_def N by (intro chain_dll) auto
  then show "free_nodes l' = free_nodes l" using rep_unique [OF assms(1)] by simp
  have "used_nodes l' = []"
    using assms(3) by (cases "capacity l'") (simp_all add: used_nodes_def)
  with fs len N rep_length [of l' "[]" fs] show "\<not> wf_list l'"
    by (auto simp: wf_list_def)
qed

text \<open>
  C33: when an interrupt that schedules a coroutine g comes inside main_thread.resume(), after
  pop_front has returned the node of the only waiting entry to the free list and before it
  updates first_ and last_, the list is empty afterwards: g is not in it and will never be
  resumed. Its node is in neither chain, so the list has lost that place for good: the free chain
  is the one from before the call, without the node that pop_front gave back.
\<close>

theorem interrupted_pop_loses_task:
  assumes "wf_list l" and "contents l = [h]"
  shows "\<exists>l'. pop_front_interrupted (emplace_back g) l = Some l' \<and> contents l' = [] \<and> list_empty l' \<and>
    free_nodes l' = free_nodes l \<and> length (free_nodes l') < capacity l' \<and> \<not> wf_list l'"
proof -
  obtain u where u: "used_nodes l = [u]"
    using assms(2) contents_length [of l] by (cases "used_nodes l") auto
  with assms(1) have r: "rep l [u] (free_nodes l)" by (simp add: wf_list_def)
  let ?l = "l\<lparr>sl_buffer := (sl_buffer l)[u := \<lparr>node_next = Some u, node_prev = Some u, node_value = Some g\<rparr>],
      sl_first := None, sl_last := None\<rparr>"
  have "\<not> wf_list ?l" "free_nodes ?l = free_nodes l" using lost_node [OF r, of ?l] by simp_all
  moreover have "used_nodes ?l = []" by (cases "capacity ?l") (simp_all add: used_nodes_def)
  moreover have "length (free_nodes l) < capacity ?l"
    using rep_length [OF r] by (simp add: capacity_def)
  ultimately show ?thesis
    using interrupted_state [OF r, of g]
    by (intro exI [of _ ?l]) (simp add: list_empty_def contents_def vals_def)
qed

theorem interrupted_pop_loses_task_witness:
  "\<exists>l :: nat static_list. wf_list l \<and> contents l = [3] \<and>
    (\<exists>l'. pop_front_interrupted (emplace_back 4) l = Some l' \<and> contents l' = [] \<and> list_empty l' \<and>
      free_nodes l' = free_nodes l \<and> length (free_nodes l') < capacity l' \<and> \<not> wf_list l')"
proof -
  obtain l :: "nat static_list" where l: "wf_list l" "contents l = [3]"
    using exists_list [of "[3 :: nat]" 3] by auto
  with interrupted_pop_loses_task [OF l, of 4] show ?thesis by blast
qed

end
