(* ===== verification/Wake_Condition.thy ===== *)
theory Wake_Condition
  imports Coro_Prelude
begin

text \<open>
  The parts of \<open>std::chrono\<close> the library uses, and the wake conditions of
  \<open>include/coro/scheduler.hpp\<close>: \<open>schedule_by_delay\<close>, \<open>schedule_by_priority\<close> and what the
  concept \<open>HasWakeUpTest\<close> has to promise to the scheduler (locale \<open>wake_test\<close>).
\<close>

section \<open>Durations\<close>

text \<open>
  A duration is its tick count; its period is a ratio \<open>(num, den)\<close> of a second.
  \<open>std::chrono::duration_cast\<close> multiplies by the ratio of the periods in lowest terms and
  divides with truncation, both in \<open>intmax_t\<close>, and converts to the target's representation.
\<close>

type_synonym period = "int \<times> int"

definition period_micro :: period where "period_micro = (1, 1000000)"
definition period_nano :: period where "period_nano = (1, 1000000000)"

definition ratio_divide :: "period \<Rightarrow> period \<Rightarrow> period" where
  "ratio_divide p q =
     (let n = fst p * snd q; d = snd p * fst q; g = gcd n d in (n div g, d div g))"

definition duration_cast :: "(int \<Rightarrow> int) \<Rightarrow> period \<Rightarrow> period \<Rightarrow> int \<Rightarrow> int option" where
  "duration_cast to_rep from to c =
     do { x \<leftarrow> i64 (c * fst (ratio_divide from to));
          Some (to_rep (cdiv x (snd (ratio_divide from to)))) }"

text \<open>Conversion to the representation types \<open>int\<close> (32 bits, modulo) and \<open>int64_t\<close>.\<close>

definition to_int32 :: "int \<Rightarrow> int" where
  "to_int32 x = sint (word_of_int x :: 32 word)"

definition to_int64 :: "int \<Rightarrow> int" where
  "to_int64 x = sint (word_of_int x :: 64 word)"

lemma to_int32_small: "- (2 ^ 31) \<le> x \<Longrightarrow> x < 2 ^ 31 \<Longrightarrow> to_int32 x = x"
  by (simp add: to_int32_def sint_sbintrunc' signed_take_bit_int_eq_self)

lemma to_int64_small: "- (2 ^ 63) \<le> x \<Longrightarrow> x < 2 ^ 63 \<Longrightarrow> to_int64 x = x"
  by (simp add: to_int64_def sint_sbintrunc' signed_take_bit_int_eq_self)

section \<open>Waking after a delay\<close>

text \<open>
  \<open>schedule_by_delay<CLOCK_T>\<close>. \<open>CLOCK_T::duration\<close> has a 64 bit signed representation and the
  period \<open>clock_period\<close>; a reading of \<open>CLOCK_T::now()\<close> is an argument of the operation that
  makes it. A time point is its count since the clock's epoch.
\<close>

record schedule_by_delay =
  expires :: int

definition schedule_by_delay_after :: "period \<Rightarrow> int \<Rightarrow> int \<Rightarrow> schedule_by_delay option" where
  "schedule_by_delay_after clock_period t_now delay_us =
     do { d \<leftarrow> duration_cast to_int64 period_micro clock_period delay_us;
          e \<leftarrow> i64 (t_now + d);
          Some \<lparr>expires = e\<rparr> }"

definition schedule_by_delay_now :: "int \<Rightarrow> schedule_by_delay" where
  "schedule_by_delay_now t_now = \<lparr>expires = t_now\<rparr>"

definition ready_by_delay :: "schedule_by_delay \<Rightarrow> schedule_by_delay \<Rightarrow> bool" where
  "ready_by_delay c current_state = (expires current_state > expires c)"

definition remaining_delay :: "schedule_by_delay \<Rightarrow> int \<Rightarrow> int option" where
  "remaining_delay c t_now = (if expires c > t_now then i64 (expires c - t_now) else Some 0)"

section \<open>Waking by priority\<close>

record schedule_by_priority =
  priority :: int

definition schedule_by_priority_of :: "int \<Rightarrow> schedule_by_priority" where
  "schedule_by_priority_of p = \<lparr>priority = p\<rparr>"

definition schedule_by_priority_default :: schedule_by_priority where
  "schedule_by_priority_default = \<lparr>priority = 0\<rparr>"

definition ready_by_priority :: "schedule_by_priority \<Rightarrow> schedule_by_priority \<Rightarrow> bool" where
  "ready_by_priority c current_state = (priority c \<ge> priority current_state)"

section \<open>The concept \<open>HasWakeUpTest\<close>\<close>

text \<open>
  \<open>ready a b\<close> is \<open>a.ready_to_wake(b)\<close>. The scheduler orders its list with the same test it
  wakes with, so the test has to be transitive, and so has its negation. \<open>x\<close> is scheduled no
  later than \<open>y\<close> when \<open>x\<close> is ready for \<open>y\<close> or \<open>y\<close> is not ready for \<open>x\<close>.
\<close>

definition no_later :: "('c \<Rightarrow> 'c \<Rightarrow> bool) \<Rightarrow> 'c \<Rightarrow> 'c \<Rightarrow> bool" where
  "no_later ready x y \<longleftrightarrow> ready x y \<or> \<not> ready y x"

locale wake_test =
  fixes ready :: "'c \<Rightarrow> 'c \<Rightarrow> bool"
  assumes ready_trans: "ready x y \<Longrightarrow> ready y z \<Longrightarrow> ready x z"
    and unready_trans: "\<not> ready x y \<Longrightarrow> \<not> ready y z \<Longrightarrow> \<not> ready x z"
begin

lemma no_later_trans: "no_later ready x y \<Longrightarrow> no_later ready y z \<Longrightarrow> no_later ready x z"
  unfolding no_later_def using ready_trans unready_trans by blast

lemma no_later_total: "no_later ready x y \<or> no_later ready y x"
  by (auto simp: no_later_def)

lemma no_later_wakes: "no_later ready x y \<Longrightarrow> ready y rc \<Longrightarrow> ready x rc"
  unfolding no_later_def using ready_trans unready_trans by blast

text \<open>The conditions of a list that is in order.\<close>

lemma insert_sorted:
  assumes "sorted_wrt (no_later ready) cs"
  shows "sorted_wrt (no_later ready)
    (takeWhile (\<lambda>c. \<not> ready n c) cs @ n # dropWhile (\<lambda>c. \<not> ready n c) cs)"
proof -
  let ?A = "takeWhile (\<lambda>c. \<not> ready n c) cs" and ?B = "dropWhile (\<lambda>c. \<not> ready n c) cs"
  have AB: "sorted_wrt (no_later ready) (?A @ ?B)" using assms by simp
  have A: "no_later ready a n" if "a \<in> set ?A" for a
    using set_takeWhileD [OF that] by (simp add: no_later_def)
  have B: "no_later ready n b" if "b \<in> set ?B" for b
  proof (cases ?B)
    case Nil
    with that show ?thesis by simp
  next
    case (Cons b0 bs)
    then have "ready n b0" by (metis hd_dropWhile list.discI list.sel(1))
    then have n: "no_later ready n b0" by (simp add: no_later_def)
    from AB Cons that have "b = b0 \<or> no_later ready b0 b" by (auto simp: sorted_wrt_append)
    with n show ?thesis using no_later_trans by blast
  qed
  from AB A B show ?thesis
    by (auto simp: sorted_wrt_append intro: no_later_trans)
qed

lemma sorted_ready_prefix:
  assumes "sorted_wrt (no_later ready) (c # cs)" and "d \<in> set cs" and "ready d rc"
  shows "ready c rc"
  using assms no_later_wakes by auto

end

interpretation by_delay: wake_test ready_by_delay
  by unfold_locales (auto simp: ready_by_delay_def)

interpretation by_priority: wake_test ready_by_priority
  by unfold_locales (auto simp: ready_by_priority_def)

lemma no_later_delay [simp]: "no_later ready_by_delay x y \<longleftrightarrow> expires x \<le> expires y"
  by (auto simp: no_later_def ready_by_delay_def)

lemma no_later_priority [simp]: "no_later ready_by_priority x y \<longleftrightarrow> priority y \<le> priority x"
  by (auto simp: no_later_def ready_by_priority_def)

section \<open>Properties\<close>

text \<open>
  C26: delay() is the exact time left: it is zero when the expiry time has been reached, and
  otherwise leads to the expiry time. At the end of the delay the condition is still not ready
  to wake, since ready_to_wake asks for a strictly later time; one tick later it is.
\<close>

theorem remaining_delay_exact:
  assumes "remaining_delay c t_now = Some d"
  shows "0 \<le> d \<and> (d = 0 \<longleftrightarrow> expires c \<le> t_now) \<and> (0 < d \<longrightarrow> t_now + d = expires c) \<and>
    (0 < d \<longrightarrow> \<not> ready_by_delay c \<lparr>expires = t_now + d\<rparr>) \<and>
    ready_by_delay c \<lparr>expires = t_now + d + 1\<rparr>"
  using assms by (auto simp: remaining_delay_def ready_by_delay_def split: if_splits dest!: i64_SomeD)

theorem remaining_delay_exact_witness:
  "remaining_delay \<lparr>expires = 70\<rparr> 50 = Some 20 \<and> \<not> ready_by_delay \<lparr>expires = 70\<rparr> \<lparr>expires = 50 + 20\<rparr> \<and>
   ready_by_delay \<lparr>expires = 70\<rparr> \<lparr>expires = 50 + 20 + 1\<rparr>"
proof -
  have "remaining_delay \<lparr>expires = 70\<rparr> 50 = Some 20" by code_simp
  from remaining_delay_exact [OF this] this show ?thesis by simp
qed

end
