(* ===== verification/Mtimer.thy ===== *)
theory Mtimer
  imports Wake_Condition Interfaces
begin

text \<open>
  The machine timer driver \<open>include/riscv/timer.hpp\<close> and the clock
  \<open>include/riscv/scheduler-timer-mtimer.hpp\<close>. The timer hardware is a parameter: \<open>clk n\<close> is the
  64 bit counter \<open>mtime\<close> at the \<open>n\<close>-th access to the timer's registers. The state counts those
  accesses and holds \<open>mtimecmp\<close>; it also records the value of \<open>mtimecmp\<close> after each
  write, with the number of the access, for the claims about interrupts.
\<close>

section \<open>Registers\<close>

type_synonym mtime = "nat \<Rightarrow> 64 word"

record mtimer =
  bus_count :: nat
  mtimecmp :: "64 word"
  cmp_writes :: "(nat \<times> 64 word) list"

definition hi32 :: "64 word \<Rightarrow> 32 word" where
  "hi32 w = ucast (drop_bit 32 w)"

definition lo32 :: "64 word \<Rightarrow> 32 word" where
  "lo32 w = ucast w"

definition join32 :: "32 word \<Rightarrow> 32 word \<Rightarrow> 64 word" where
  "join32 h l = push_bit 32 (ucast h) OR ucast l"

text \<open>Volatile reads of \<open>MTIME_ADDR\<close> and \<open>MTIME_ADDR + 4\<close>, and of all 64 bits.\<close>

definition read_mtime :: "mtime \<Rightarrow> mtimer \<Rightarrow> 64 word \<times> mtimer" where
  "read_mtime clk m = (clk (bus_count m), m\<lparr>bus_count := bus_count m + 1\<rparr>)"

definition read_mtimel :: "mtime \<Rightarrow> mtimer \<Rightarrow> 32 word \<times> mtimer" where
  "read_mtimel clk m = (lo32 (clk (bus_count m)), m\<lparr>bus_count := bus_count m + 1\<rparr>)"

definition read_mtimeh :: "mtime \<Rightarrow> mtimer \<Rightarrow> 32 word \<times> mtimer" where
  "read_mtimeh clk m = (hi32 (clk (bus_count m)), m\<lparr>bus_count := bus_count m + 1\<rparr>)"

text \<open>Volatile writes of \<open>MTIMECMP_ADDR\<close> and \<open>MTIMECMP_ADDR + 4\<close>, and of all 64 bits.\<close>

definition write_mtimecmp :: "64 word \<Rightarrow> mtimer \<Rightarrow> mtimer" where
  "write_mtimecmp v m = m\<lparr>bus_count := bus_count m + 1, mtimecmp := v,
     cmp_writes := cmp_writes m @ [(bus_count m, v)]\<rparr>"

definition write_mtimecmpl :: "32 word \<Rightarrow> mtimer \<Rightarrow> mtimer" where
  "write_mtimecmpl v m = write_mtimecmp (join32 (hi32 (mtimecmp m)) v) m"

definition write_mtimecmph :: "32 word \<Rightarrow> mtimer \<Rightarrow> mtimer" where
  "write_mtimecmph v m = write_mtimecmp (join32 v (lo32 (mtimecmp m))) m"

text \<open>The interrupt \<open>mti\<close> is pending while \<open>mtime\<close> is at or past \<open>mtimecmp\<close>.\<close>

definition mti_pending :: "64 word \<Rightarrow> 64 word \<Rightarrow> bool" where
  "mti_pending now cmp = (cmp \<le> now)"

section \<open>The driver\<close>

text \<open>The loop of \<open>get_raw_time\<close> on RV32 polls until it reads the same high word twice.\<close>

partial_function (option) poll_raw_time :: "mtime \<Rightarrow> mtimer \<Rightarrow> (64 word \<times> mtimer) option" where
  "poll_raw_time clk m =
     (let (mtimeh_val, m) = read_mtimeh clk m;
          (mtimel_val, m) = read_mtimel clk m;
          (again, m) = read_mtimeh clk m
      in if mtimeh_val \<noteq> again then poll_raw_time clk m
         else Some (join32 mtimeh_val mtimel_val, m))"

declare poll_raw_time.simps [code]

definition get_raw_time :: "nat \<Rightarrow> mtime \<Rightarrow> mtimer \<Rightarrow> (64 word \<times> mtimer) option" where
  "get_raw_time riscv_xlen clk m =
     (if riscv_xlen = 64 then Some (read_mtime clk m) else poll_raw_time clk m)"

definition set_raw_time_cmp :: "nat \<Rightarrow> mtime \<Rightarrow> 64 word \<Rightarrow> mtimer \<Rightarrow> mtimer option" where
  "set_raw_time_cmp riscv_xlen clk clock_offset m = do {
     (raw, m) \<leftarrow> get_raw_time riscv_xlen clk m;
     let new_mtimecmp = raw + clock_offset;
     Some (if riscv_xlen = 64 then write_mtimecmp new_mtimecmp m
           else write_mtimecmph (ucast (drop_bit 32 new_mtimecmp))
               (write_mtimecmpl (ucast (new_mtimecmp AND 0x0FFFFFFFF))
                 (write_mtimecmph 0xFFFFFFFF m)))
   }"

text \<open>
  \<open>timer_ticks\<close> is a duration with the period of the timer and an \<open>int\<close> count; an \<open>int\<close>
  passed for a \<open>uint64_t\<close> is sign-extended.
\<close>

text \<open>
  The frequency of the timer: the value of the macro \<open>TARGET_MTIME_FREQ_HZ\<close> where the build defines
  it (\<open>CMakeLists.txt\<close> does, as 10 MHz), otherwise 32768. The driver takes it as the argument \<open>freq\<close>.
\<close>

definition MTIME_FREQ_HZ :: "int option \<Rightarrow> int" where
  "MTIME_FREQ_HZ target = (case target of None \<Rightarrow> 32768 | Some f \<Rightarrow> f)"

definition timer_ticks :: "int \<Rightarrow> period" where
  "timer_ticks freq = (1, freq)"

definition get_ticks_time :: "nat \<Rightarrow> mtime \<Rightarrow> mtimer \<Rightarrow> (int \<times> mtimer) option" where
  "get_ticks_time riscv_xlen clk m = do {
     (raw, m) \<leftarrow> get_raw_time riscv_xlen clk m;
     Some (to_int32 (uint raw), m)
   }"

definition set_ticks_time_cmp :: "nat \<Rightarrow> mtime \<Rightarrow> int \<Rightarrow> mtimer \<Rightarrow> mtimer option" where
  "set_ticks_time_cmp riscv_xlen clk time_offset m =
     set_raw_time_cmp riscv_xlen clk (word_of_int time_offset) m"

text \<open>\<open>get_time<T>\<close> and \<open>set_time_cmp<T>\<close> for a duration type with a 64 bit count.\<close>

definition get_time :: "nat \<Rightarrow> int \<Rightarrow> period \<Rightarrow> mtime \<Rightarrow> mtimer \<Rightarrow> (int \<times> mtimer) option" where
  "get_time riscv_xlen freq p clk m = do {
     (t, m) \<leftarrow> get_ticks_time riscv_xlen clk m;
     d \<leftarrow> duration_cast to_int64 (timer_ticks freq) p t;
     Some (d, m)
   }"

definition set_time_cmp :: "nat \<Rightarrow> int \<Rightarrow> period \<Rightarrow> mtime \<Rightarrow> int \<Rightarrow> mtimer \<Rightarrow> mtimer option" where
  "set_time_cmp riscv_xlen freq p clk time_offset m = do {
     d \<leftarrow> duration_cast to_int32 p (timer_ticks freq) time_offset;
     set_ticks_time_cmp riscv_xlen clk d m
   }"

section \<open>The clock\<close>

text \<open>\<open>mtimer_clock\<close> counts nanoseconds, as \<open>std::chrono::steady_clock\<close> does, from epoch 0.\<close>

definition mtimer_clock_now :: "nat \<Rightarrow> int \<Rightarrow> mtime \<Rightarrow> mtimer \<Rightarrow> (int \<times> mtimer) option" where
  "mtimer_clock_now riscv_xlen freq clk m = do {
     let epoch = 0;
     (duration_since_epoch, m) \<leftarrow> get_time riscv_xlen freq period_nano clk m;
     retval \<leftarrow> i64 (epoch + duration_since_epoch);
     Some (retval, m)
   }"

section \<open>Reading a counter in two halves\<close>

lemma join32_split [simp]: "join32 (hi32 w) (lo32 w) = w"
  by (intro bit_word_eqI) (auto simp: join32_def hi32_def lo32_def bit_simps)

lemma hi32_join32 [simp]: "hi32 (join32 h l) = h"
  by (intro bit_word_eqI) (auto simp: join32_def hi32_def bit_simps dest: bit_imp_le_length)

lemma lo32_join32 [simp]: "lo32 (join32 h l) = l"
  by (intro bit_word_eqI) (auto simp: join32_def lo32_def bit_simps)

lemma uint_hi32: "uint (hi32 w) = uint w div 2 ^ 32"
proof -
  have "uint w < 2 ^ 64" using uint_lt2p [of w] by simp
  then have "uint w div 2 ^ 32 < 2 ^ 32" by simp
  moreover have "0 \<le> uint w div 2 ^ 32" by (simp add: pos_imp_zdiv_nonneg_iff)
  ultimately have "take_bit 32 (uint w div 2 ^ 32) = uint w div 2 ^ 32"
    by (simp only: take_bit_int_eq_self)
  then show ?thesis
    by (simp add: hi32_def unsigned_ucast_eq drop_bit_eq_div uint_div)
qed

lemma hi32_mono: "w \<le> w' \<Longrightarrow> hi32 w \<le> hi32 w'"
  by (simp add: word_le_def uint_hi32 zdiv_mono1)

lemma uint_join32: "uint (join32 h l) = uint h * 2 ^ 32 + uint l"
proof -
  have "join32 h l = push_bit 32 (ucast h) + ucast l"
    unfolding join32_def
    by (rule disjunctive_add [symmetric]) (auto simp: bit_simps dest: bit_imp_le_length)
  moreover have "uint h < 2 ^ 32" "uint l < 2 ^ 32" using uint_lt2p [of h] uint_lt2p [of l] by simp_all
  moreover from this have "take_bit 64 (uint h) = uint h" "take_bit 64 (uint l) = uint l"
    by (simp_all add: take_bit_int_eq_self)
  ultimately show ?thesis
    by (simp add: push_bit_eq_mult uint_word_ariths unsigned_ucast_eq)
qed

text \<open>
  \<open>mtime\<close> does not go back and does not wrap, and less than \<open>2 ^ 32\<close> ticks pass during the
  six accesses that two rounds of polling make from access \<open>b\<close> on.
\<close>

definition mtime_steady :: "mtime \<Rightarrow> nat \<Rightarrow> bool" where
  "mtime_steady clk b \<longleftrightarrow> (\<forall>i < 5. clk (b + i) \<le> clk (b + i + 1)) \<and> uint (clk (b + 5)) - uint (clk b) < 2 ^ 32"

lemma mtime_steady_mono:
  assumes "mtime_steady clk b" and "i \<le> j" and "j \<le> 5"
  shows "clk (b + i) \<le> clk (b + j)"
  using assms(2,3)
proof (induction j)
  case (Suc j)
  show ?case
  proof (cases "i = Suc j")
    case False
    with Suc have "clk (b + i) \<le> clk (b + j)" by simp
    also have "\<dots> \<le> clk (b + Suc j)" using assms(1) Suc.prems by (simp add: mtime_steady_def)
    finally show ?thesis .
  qed simp
qed simp

lemma poll_step:
  "poll_raw_time clk m =
     (if hi32 (clk (bus_count m)) \<noteq> hi32 (clk (bus_count m + 2))
      then poll_raw_time clk (m\<lparr>bus_count := bus_count m + 3\<rparr>)
      else Some (join32 (hi32 (clk (bus_count m))) (lo32 (clk (bus_count m + 1))),
                 m\<lparr>bus_count := bus_count m + 3\<rparr>))"
  by (subst poll_raw_time.simps) (simp add: read_mtimeh_def read_mtimel_def numeral_eq_Suc)

text \<open>One round that sees the same high word twice returns the counter at its middle access.\<close>

lemma join_middle:
  assumes "a \<le> b" and "b \<le> c" and "hi32 a = hi32 c"
  shows "join32 (hi32 a) (lo32 b) = b"
proof -
  have "hi32 b = hi32 a" using hi32_mono [OF assms(1)] hi32_mono [OF assms(2)] assms(3) by simp
  then show ?thesis by (metis join32_split)
qed

lemma hi32_changes_once:
  assumes "a \<le> b" "b \<le> c" "c \<le> d" and "uint d - uint a < 2 ^ 32" and "hi32 a \<noteq> hi32 b"
  shows "hi32 c = hi32 d"
proof -
  have "uint (hi32 a) \<noteq> uint (hi32 b)" using assms(5) by (simp only: word_uint_eq_iff not_False_eq_True)
  moreover have "uint (hi32 a) \<le> uint (hi32 b)" "uint (hi32 b) \<le> uint (hi32 c)" "uint (hi32 c) \<le> uint (hi32 d)"
    using hi32_mono assms(1-3) by (auto simp: word_le_def)
  moreover have "uint (hi32 d) \<le> uint (hi32 a) + 1"
    using assms(4) by (simp add: uint_hi32)
  ultimately have "uint (hi32 c) = uint (hi32 d)" by linarith
  then show ?thesis by (simp only: word_uint_eq_iff)
qed

lemma poll_raw_time_returns:
  assumes "mtime_steady clk (bus_count m)"
  shows "\<exists>k n. poll_raw_time clk m = Some (clk k, m\<lparr>bus_count := n\<rparr>) \<and>
    bus_count m < k \<and> k < n \<and> n \<le> bus_count m + 6"
proof -
  let ?b = "bus_count m"
  note mono = mtime_steady_mono [OF assms]
  show ?thesis
  proof (cases "hi32 (clk ?b) = hi32 (clk (?b + 2))")
    case True
    with join_middle [of "clk ?b" "clk (?b + 1)" "clk (?b + 2)"] mono [of 0 1] mono [of 1 2]
    show ?thesis
      by (subst poll_step) (rule exI [of _ "?b + 1"], rule exI [of _ "?b + 3"], simp add: True)
  next
    case False
    have eq: "hi32 (clk (?b + 3)) = hi32 (clk (?b + 5))"
      using hi32_changes_once [of "clk ?b" "clk (?b + 2)" "clk (?b + 3)" "clk (?b + 5)"]
        mono [of 0 2] mono [of 2 3] mono [of 3 5] assms False by (simp add: mtime_steady_def)
    moreover have "join32 (hi32 (clk (?b + 3))) (lo32 (clk (?b + 4))) = clk (?b + 4)"
      using join_middle [of "clk (?b + 3)" "clk (?b + 4)" "clk (?b + 5)"] mono [of 3 4] mono [of 4 5] eq by simp
    ultimately have "poll_raw_time clk (m\<lparr>bus_count := ?b + 3\<rparr>) = Some (clk (?b + 4), m\<lparr>bus_count := ?b + 6\<rparr>)"
      by (subst poll_step) (simp add: add.commute [of _ ?b])
    with False show ?thesis
      by (subst poll_step) (rule exI [of _ "?b + 4"], rule exI [of _ "?b + 6"], simp)
  qed
qed

text \<open>The driver reads \<open>mtime\<close> at one instant during the call, on RV32 and on RV64.\<close>

lemma get_raw_time_returns:
  assumes "mtime_steady clk (bus_count m)"
  shows "\<exists>k n. get_raw_time riscv_xlen clk m = Some (clk k, m\<lparr>bus_count := n\<rparr>) \<and>
    bus_count m \<le> k \<and> k < n \<and> n \<le> bus_count m + 6"
proof (cases "riscv_xlen = 64")
  case True
  then show ?thesis
    by (intro exI [of _ "bus_count m"] exI [of _ "bus_count m + 1"]) (simp add: get_raw_time_def read_mtime_def)
next
  case False
  from poll_raw_time_returns [OF assms] obtain k n where
    "poll_raw_time clk m = Some (clk k, m\<lparr>bus_count := n\<rparr>)" "bus_count m < k" "k < n" "n \<le> bus_count m + 6" by blast
  with False show ?thesis
    by (intro exI [of _ k] exI [of _ n]) (simp add: get_raw_time_def)
qed

section \<open>Setting the comparator in two halves\<close>

lemma lo32_and: "ucast (w AND 0xFFFFFFFF :: 64 word) = lo32 w"
proof -
  have m: "(0xFFFFFFFF :: 64 word) = mask 32" by (simp add: mask_eq_exp_minus_1)
  show ?thesis unfolding m by (intro bit_word_eqI) (simp add: lo32_def bit_simps)
qed

lemma write_halves:
  "mtimecmp (write_mtimecmph h (write_mtimecmpl l m)) = join32 h l"
  by (simp add: write_mtimecmph_def write_mtimecmpl_def write_mtimecmp_def)

lemma high_dummy_not_pending:
  assumes "uint now < 2 ^ 64 - 2 ^ 32"
  shows "\<not> mti_pending now (join32 0xFFFFFFFF l)"
proof -
  have "2 ^ 64 - 2 ^ 32 \<le> uint (join32 0xFFFFFFFF l)" by (simp add: uint_join32)
  with assms show ?thesis by (simp add: mti_pending_def word_le_def)
qed

text \<open>The writes of \<open>mtimecmp\<close> that one call makes, oldest first.\<close>

definition new_cmp_writes :: "mtimer \<Rightarrow> mtimer \<Rightarrow> (nat \<times> 64 word) list" where
  "new_cmp_writes m m' = drop (length (cmp_writes m)) (cmp_writes m')"

lemma set_raw_time_cmp_returns:
  assumes "mtime_steady clk (bus_count m)"
  shows "\<exists>k m'. set_raw_time_cmp riscv_xlen clk off m = Some m' \<and> bus_count m \<le> k \<and> k < bus_count m' \<and>
    mtimecmp m' = clk k + off \<and> new_cmp_writes m m' \<noteq> [] \<and> snd (last (new_cmp_writes m m')) = clk k + off \<and>
    (\<forall>w \<in> set (butlast (new_cmp_writes m m')). \<exists>l. snd w = join32 0xFFFFFFFF l)"
proof -
  from get_raw_time_returns [OF assms, of riscv_xlen] obtain k n where
    r: "get_raw_time riscv_xlen clk m = Some (clk k, m\<lparr>bus_count := n\<rparr>)" "bus_count m \<le> k" "k < n" by blast
  let ?v = "clk k + off"
  let ?m' = "if riscv_xlen = 64 then write_mtimecmp ?v (m\<lparr>bus_count := n\<rparr>)
    else write_mtimecmph (hi32 ?v) (write_mtimecmpl (lo32 ?v) (write_mtimecmph 0xFFFFFFFF (m\<lparr>bus_count := n\<rparr>)))"
  have "set_raw_time_cmp riscv_xlen clk off m = Some ?m'"
    using r(1) by (simp add: set_raw_time_cmp_def lo32_and hi32_def Let_def)
  moreover have "k < bus_count ?m'" "mtimecmp ?m' = ?v"
    using r(3) by (simp_all add: write_mtimecmph_def write_mtimecmpl_def write_mtimecmp_def)
  moreover have "new_cmp_writes m ?m' = (if riscv_xlen = 64 then [(n, ?v)]
      else [(n, join32 0xFFFFFFFF (lo32 (mtimecmp m))), (n + 1, join32 0xFFFFFFFF (lo32 ?v)), (n + 2, ?v)])"
    by (simp add: new_cmp_writes_def write_mtimecmph_def write_mtimecmpl_def write_mtimecmp_def)
  ultimately show ?thesis
    using r(2) by (intro exI [of _ k] exI [of _ ?m'] conjI) (auto split: if_splits)
qed

section \<open>The clock in nanoseconds\<close>

text \<open>
  \<open>duration_cast\<close> works with the ratio in lowest terms. The quotient is the same without the
  reduction.
\<close>

lemma cdiv_cancel:
  assumes "0 < g"
  shows "cdiv (a * g) (b * g) = cdiv a b"
proof -
  have "\<bar>a * g\<bar> div \<bar>b * g\<bar> = \<bar>a\<bar> div \<bar>b\<bar>" using assms by (simp add: abs_mult)
  with assms show ?thesis by (simp add: cdiv_def sgn_mult)
qed

lemma ratio_divide_units:
  assumes "0 < a" and "0 < b"
  shows "\<exists>g n d. 0 < g \<and> 0 < n \<and> 0 < d \<and> ratio_divide (1, a) (1, b) = (n, d) \<and> b = n * g \<and> a = d * g"
proof -
  let ?g = "gcd b a"
  have "0 < ?g" using assms by simp
  moreover have "b = b div ?g * ?g" "a = a div ?g * ?g" by simp_all
  moreover from this assms \<open>0 < ?g\<close> have "0 < b div ?g" "0 < a div ?g" by (metis zero_less_mult_pos2)+
  ultimately show ?thesis
    by (intro exI [of _ ?g] exI [of _ "b div ?g"] exI [of _ "a div ?g"]) (simp add: ratio_divide_def Let_def)
qed

lemma cast_units:
  assumes "0 < a" and "0 < b" and "\<bar>c\<bar> * b < 2 ^ 63"
  shows "duration_cast to_rep (1, a) (1, b) c = Some (to_rep (cdiv (c * b) a))"
proof -
  from ratio_divide_units [OF assms(1,2)] obtain g n d where
    r: "0 < g" "0 < n" "0 < d" "ratio_divide (1, a) (1, b) = (n, d)" "b = n * g" "a = d * g" by blast
  have "\<bar>c * n\<bar> \<le> \<bar>c\<bar> * b" using r(1,2,5) by (simp add: abs_mult mult_left_mono mult_le_cancel_left1)
  with assms(3) have "\<bar>c * n\<bar> < 2 ^ 63" by (rule order_le_less_trans [rotated])
  then have "i64 (c * n) = Some (c * n)" by (auto simp: i64_def abs_less_iff)
  moreover have "cdiv (c * n) d = cdiv (c * b) a" using cdiv_cancel [OF r(1), of "c * n" d] by (simp add: r(5,6) mult.assoc)
  ultimately show ?thesis by (simp add: duration_cast_def r(4))
qed

lemma period_nano_unit: "period_nano = (1, 10 ^ 9)"
  by (simp add: period_nano_def)

lemma to_int32_bounds: "- (2 ^ 31) \<le> to_int32 x" "to_int32 x < 2 ^ 31"
  using sint_ge [of "word_of_int x :: 32 word"] sint_lt [of "word_of_int x :: 32 word"]
  by (simp_all add: to_int32_def)

text \<open>The nanoseconds in \<open>t\<close> ticks of a timer with frequency \<open>freq\<close>.\<close>

definition tick_nanos :: "int \<Rightarrow> int \<Rightarrow> int" where
  "tick_nanos freq t = cdiv (t * 10 ^ 9) freq"

lemma tick_nanos_bound:
  assumes "0 < freq" and "\<bar>t\<bar> \<le> 2 ^ 32"
  shows "\<bar>tick_nanos freq t\<bar> < 2 ^ 62"
proof -
  have "\<bar>tick_nanos freq t\<bar> \<le> \<bar>t * 10 ^ 9\<bar>" unfolding tick_nanos_def by (rule cdiv_le) (rule assms(1))
  also have "\<dots> \<le> 2 ^ 32 * 10 ^ 9" using assms(2) by (simp add: abs_mult)
  also have "\<dots> < (2 ^ 62 :: int)" by simp
  finally show ?thesis .
qed

lemma cast_ticks:
  assumes "0 < freq" and "- (2 ^ 31) \<le> t" and "t < 2 ^ 31"
  shows "duration_cast to_int64 (timer_ticks freq) period_nano t = Some (tick_nanos freq t)"
proof -
  have t: "\<bar>t\<bar> \<le> 2 ^ 32" using assms(2,3) by (simp add: abs_le_iff)
  have "\<bar>t\<bar> * 10 ^ 9 < 2 ^ 63" using assms(2,3) by (simp add: abs_if)
  then have "duration_cast to_int64 (timer_ticks freq) period_nano t = Some (to_int64 (tick_nanos freq t))"
    unfolding timer_ticks_def period_nano_unit tick_nanos_def using assms(1) by (intro cast_units) simp_all
  moreover have "to_int64 (tick_nanos freq t) = tick_nanos freq t"
    using tick_nanos_bound [OF assms(1) t] by (intro to_int64_small) (simp_all add: abs_less_iff)
  ultimately show ?thesis by simp
qed

lemma mtimer_clock_now_returns:
  assumes "mtime_steady clk (bus_count m)" and "0 < freq"
  shows "\<exists>k n. mtimer_clock_now riscv_xlen freq clk m =
      Some (tick_nanos freq (to_int32 (uint (clk k))), m\<lparr>bus_count := n\<rparr>) \<and>
    bus_count m \<le> k \<and> k < n \<and> n \<le> bus_count m + 6"
proof -
  from get_raw_time_returns [OF assms(1), of riscv_xlen] obtain k n where
    r: "get_raw_time riscv_xlen clk m = Some (clk k, m\<lparr>bus_count := n\<rparr>)"
      "bus_count m \<le> k" "k < n" "n \<le> bus_count m + 6" by blast
  let ?t = "to_int32 (uint (clk k))"
  have "\<bar>?t\<bar> \<le> 2 ^ 32" using to_int32_bounds [of "uint (clk k)"] by (simp add: abs_le_iff)
  from tick_nanos_bound [OF assms(2) this] have "i64 (tick_nanos freq ?t) = Some (tick_nanos freq ?t)"
    by (auto simp: i64_def abs_less_iff)
  with r show ?thesis
    using cast_ticks [OF assms(2) to_int32_bounds, of "uint (clk k)"]
    by (intro exI [of _ k] exI [of _ n])
      (simp add: mtimer_clock_now_def get_time_def get_ticks_time_def)
qed

text \<open>While \<open>mtime\<close> is below \<open>2 ^ 31\<close> ticks it neither wraps the \<open>int\<close> nor goes back.\<close>

definition mtime_small :: "mtime \<Rightarrow> bool" where
  "mtime_small clk \<longleftrightarrow> (\<forall>i. clk i \<le> clk (Suc i) \<and> uint (clk i) < 2 ^ 31)"

lemma mtime_small_steady:
  assumes "mtime_small clk"
  shows "mtime_steady clk b"
proof -
  have "uint (clk (b + 5)) < 2 ^ 31" "0 \<le> uint (clk b)" using assms by (simp_all add: mtime_small_def)
  then have "uint (clk (b + 5)) - uint (clk b) < 2 ^ 31" by linarith
  then have "uint (clk (b + 5)) - uint (clk b) < 2 ^ 32" by simp
  then show ?thesis using assms by (simp add: mtime_steady_def mtime_small_def)
qed

lemma mtime_small_mono: "mtime_small clk \<Longrightarrow> i \<le> j \<Longrightarrow> clk i \<le> clk j"
  by (rule lift_Suc_mono_le [of clk]) (simp_all add: mtime_small_def)

lemma tick_nanos_mono: "0 < freq \<Longrightarrow> t \<le> t' \<Longrightarrow> tick_nanos freq t \<le> tick_nanos freq t'"
  by (simp add: tick_nanos_def cdiv_mono)

lemma tick_nanos_nonneg: "0 < freq \<Longrightarrow> 0 \<le> t \<Longrightarrow> tick_nanos freq t = t * 10 ^ 9 div freq"
  by (simp add: tick_nanos_def)

lemma ticks_small: "mtime_small clk \<Longrightarrow> to_int32 (uint (clk k)) = uint (clk k)"
  by (rule to_int32_small) (auto simp: mtime_small_def intro: order_trans [OF _ uint_ge_0])

section \<open>A clock for the wake conditions\<close>

text \<open>
  \<open>mtimer_clock\<close> as a \<open>clock_source\<close>. The state is the register width, the frequency, the hardware
  counter and the timer's registers.
\<close>

type_synonym clock_state = "nat \<times> int \<times> mtime \<times> mtimer"

fun clock_reading :: "clock_state \<Rightarrow> (int \<times> clock_state) option" where
  "clock_reading (xlen, freq, clk, m) = do { (t, m) \<leftarrow> mtimer_clock_now xlen freq clk m; Some (t, xlen, freq, clk, m) }"

fun least_reading :: "clock_state \<Rightarrow> int" where
  "least_reading (xlen, freq, clk, m) = tick_nanos freq (uint (clk (bus_count m)))"

fun small_clock :: "clock_state \<Rightarrow> bool" where
  "small_clock (xlen, freq, clk, m) \<longleftrightarrow> 0 < freq \<and> mtime_small clk"

lemma clock_reading_bounds:
  assumes "mtime_small clk" and "0 < freq"
  shows "\<exists>t m'. clock_reading (xlen, freq, clk, m) = Some (t, xlen, freq, clk, m') \<and>
    least_reading (xlen, freq, clk, m) \<le> t \<and> t \<le> least_reading (xlen, freq, clk, m')"
proof -
  have mono: "tick_nanos freq (uint (clk i)) \<le> tick_nanos freq (uint (clk j))" if "i \<le> j" for i j
    using mtime_small_mono [OF assms(1) that] assms(2) by (simp add: word_le_def tick_nanos_mono)
  from mtimer_clock_now_returns [OF mtime_small_steady [OF assms(1)] assms(2), where m = m and riscv_xlen = xlen] obtain k n where
    r: "mtimer_clock_now xlen freq clk m = Some (tick_nanos freq (uint (clk k)), m\<lparr>bus_count := n\<rparr>)"
      "bus_count m \<le> k" "k < n" unfolding ticks_small [OF assms(1)] by blast
  then show ?thesis
    using mono [OF r(2)] mono [of k n]
    by (intro exI [of _ "tick_nanos freq (uint (clk k))"] exI [of _ "m\<lparr>bus_count := n\<rparr>"]) simp
qed

interpretation mclock: clock_source small_clock least_reading clock_reading
proof unfold_locales
  fix s :: clock_state
  assume s: "small_clock s"
  obtain xlen freq clk m where e: "s = (xlen, freq, clk, m)" by (cases s)
  with s have ok: "mtime_small clk" "0 < freq" by simp_all
  from clock_reading_bounds [OF this, of xlen m] obtain t m' where
    "clock_reading s = Some (t, xlen, freq, clk, m')" "least_reading s \<le> t" "t \<le> least_reading (xlen, freq, clk, m')"
    unfolding e by blast
  with ok show "\<exists>t s'. clock_reading s = Some (t, s') \<and> small_clock s' \<and> least_reading s \<le> t \<and> t \<le> least_reading s'"
    by (intro exI [of _ t] exI [of _ "(xlen, freq, clk, m')"]) simp
qed

section \<open>Properties\<close>

text \<open>
  C11: get_raw_time returns, after at most two rounds of polling on RV32, and its value is the
  full 64 bit mtime at one instant during the call: the two 32 bit reads are never combined
  across a carry. The hardware is assumed not to run mtime backwards and not to advance it by
  2^32 ticks within six bus accesses.
\<close>

theorem raw_time_linearizable:
  assumes "mtime_steady clk (bus_count m)"
  shows "\<exists>k n. get_raw_time riscv_xlen clk m = Some (clk k, m\<lparr>bus_count := n\<rparr>) \<and>
    bus_count m \<le> k \<and> k < n \<and> n \<le> bus_count m + 6"
  using assms by (rule get_raw_time_returns)

definition carry_clk :: mtime where
  "carry_clk n = (if n = 0 then 0xFFFFFFFF else 0x100000000)"

lemma carry_clk_steady: "mtime_steady carry_clk 0"
  by (simp add: mtime_steady_def carry_clk_def)

theorem raw_time_linearizable_witness:
  "\<exists>k n. get_raw_time 32 carry_clk \<lparr>bus_count = 0, mtimecmp = 0, cmp_writes = []\<rparr> =
      Some (carry_clk k, \<lparr>bus_count = n, mtimecmp = 0, cmp_writes = []\<rparr>) \<and> k < n \<and> n \<le> 6"
  using raw_time_linearizable [of carry_clk "\<lparr>bus_count = 0, mtimecmp = 0, cmp_writes = []\<rparr>" 32]
    carry_clk_steady by simp

text \<open>
  C12: set_raw_time_cmp returns with mtimecmp set to the time of the call plus the offset, and
  while it replaces the two halves of mtimecmp on RV32 no value it passes through makes the
  timer interrupt pending, at any time before mtime reaches the last 2^32 ticks of its range.
\<close>

theorem no_spurious_interrupt:
  assumes "mtime_steady clk (bus_count m)" and "\<forall>i. uint (clk i) < 2 ^ 64 - 2 ^ 32"
  shows "\<exists>k m'. set_raw_time_cmp riscv_xlen clk off m = Some m' \<and> bus_count m \<le> k \<and> k < bus_count m' \<and>
    mtimecmp m' = clk k + off \<and> snd (last (new_cmp_writes m m')) = clk k + off \<and>
    (\<forall>w \<in> set (butlast (new_cmp_writes m m')). \<forall>i. \<not> mti_pending (clk i) (snd w))"
proof -
  obtain k m' where "set_raw_time_cmp riscv_xlen clk off m = Some m'" "bus_count m \<le> k" "k < bus_count m'"
    "mtimecmp m' = clk k + off" "snd (last (new_cmp_writes m m')) = clk k + off"
    "\<forall>w \<in> set (butlast (new_cmp_writes m m')). \<exists>l. snd w = join32 0xFFFFFFFF l"
    using set_raw_time_cmp_returns [OF assms(1), of riscv_xlen off] by blast
  moreover from this(6) assms(2) high_dummy_not_pending
  have "\<forall>w \<in> set (butlast (new_cmp_writes m m')). \<forall>i. \<not> mti_pending (clk i) (snd w)" by metis
  ultimately show ?thesis by blast
qed

definition stopped_clk :: mtime where
  "stopped_clk n = 0x1FFFFFFFF"

theorem no_spurious_interrupt_witness:
  "\<exists>m'. set_raw_time_cmp 32 stopped_clk 5 \<lparr>bus_count = 0, mtimecmp = 0x200000001, cmp_writes = []\<rparr> = Some m' \<and>
    mtimecmp m' = 0x200000004 \<and>
    (\<forall>w \<in> set (butlast (new_cmp_writes \<lparr>bus_count = 0, mtimecmp = 0x200000001, cmp_writes = []\<rparr> m')).
       \<not> mti_pending 0x1FFFFFFFF (snd w))"
  using no_spurious_interrupt [of stopped_clk "\<lparr>bus_count = 0, mtimecmp = 0x200000001, cmp_writes = []\<rparr>" 32 5]
  by (auto simp: mtime_steady_def stopped_clk_def)

text \<open>
  C28: any number of successive readings of mtimer_clock return and none is before an earlier one,
  as long as mtime stays below 2^31 ticks, whatever the frequency of the timer.
\<close>

theorem clock_monotone:
  assumes "mtime_small clk" and "0 < freq"
  shows "\<exists>ts s'. readings clock_reading n (riscv_xlen, freq, clk, m) = Some (ts, s') \<and> length ts = n \<and> sorted ts \<and>
    (\<forall>t \<in> set ts. 0 \<le> t)"
proof -
  from mclock.readings_sorted [of "(riscv_xlen, freq, clk, m)" n] assms obtain ts s' where
    r: "readings clock_reading n (riscv_xlen, freq, clk, m) = Some (ts, s')" "length ts = n" "sorted ts"
      "\<forall>t \<in> set ts. least_reading (riscv_xlen, freq, clk, m) \<le> t" by auto
  moreover have "0 \<le> least_reading (riscv_xlen, freq, clk, m)"
    using assms(2) by (simp add: tick_nanos_nonneg pos_imp_zdiv_nonneg_iff)
  ultimately show ?thesis by (intro exI [of _ ts] exI [of _ s']) fastforce
qed

theorem clock_monotone_witness:
  "\<exists>ts s'. readings clock_reading 3
      (32, MTIME_FREQ_HZ None, (\<lambda>n. of_nat (min n 1000)), \<lparr>bus_count = 0, mtimecmp = 0, cmp_writes = []\<rparr>) =
      Some (ts, s') \<and> length ts = 3 \<and> sorted ts"
proof -
  have "mtime_small (\<lambda>n. of_nat (min n 1000))"
    by (auto simp: mtime_small_def word_le_def uint_nat unat_of_nat min_def take_bit_nat_eq_self)
  moreover have "0 < MTIME_FREQ_HZ None" by (simp add: MTIME_FREQ_HZ_def)
  ultimately show ?thesis
    using clock_monotone [of _ "MTIME_FREQ_HZ None" 3 32 "\<lparr>bus_count = 0, mtimecmp = 0, cmp_writes = []\<rparr>"] by blast
qed






end
