(* ===== verification/Csr_Access.thy ===== *)
theory Csr_Access
  imports Coro_Prelude
begin

text \<open>
  The base classes of \<open>include/riscv/riscv-csr.hpp\<close>: access to the control and status
  registers of a hart through the Zicsr instructions. The register width \<open>__riscv_xlen\<close> is the
  length of the type variable \<open>'x\<close> and \<open>uint_xlen_t\<close> is \<open>'x word\<close>.

  The hart is hardware: which registers it has is the domain of \<open>csr_file\<close>, and what it stores
  when a value is written (a WARL field may keep only legal values) is \<open>csr_legal\<close>, given the
  register, its old value and the value written. Registers may share bits (\<open>sstatus\<close>, \<open>sie\<close> and
  \<open>sip\<close> are views of \<open>mstatus\<close>, \<open>mie\<close> and \<open>mip\<close>): \<open>csr_views c file d x\<close> is the value that
  register \<open>d\<close> shows, given the one it showed before, once a write to \<open>c\<close> has led to \<open>file\<close>. An
  instruction on a register the hart does not have traps, and the method it is in does not
  return (\<open>None\<close>). \<open>wfi_log\<close> records the registers at every \<open>wfi\<close>, for the claims about waiting.
\<close>

section \<open>The Zicsr instructions\<close>

record 'v hart =
  csr_file :: "string \<rightharpoonup> 'v"
  csr_legal :: "string \<Rightarrow> 'v \<Rightarrow> 'v \<Rightarrow> 'v"
  csr_views :: "string \<Rightarrow> (string \<rightharpoonup> 'v) \<Rightarrow> string \<Rightarrow> 'v \<Rightarrow> 'v"
  wfi_log :: "(string \<rightharpoonup> 'v) list"

text \<open>The hart after register \<open>c\<close> has come to hold \<open>v\<close>.\<close>

definition csr_store :: "string \<Rightarrow> 'x word \<Rightarrow> 'x::len word hart \<Rightarrow> 'x word hart" where
  "csr_store c v h =
     (let file = (csr_file h)(c \<mapsto> v)
      in h\<lparr>csr_file := (\<lambda>d. if d = c then Some v else map_option (csr_views h c file d) (csr_file h d))\<rparr>)"

definition csr_put :: "string \<Rightarrow> 'x word \<Rightarrow> 'x::len word hart \<Rightarrow> 'x word hart option" where
  "csr_put c v h = do { old \<leftarrow> csr_file h c; Some (csr_store c (csr_legal h c old v) h) }"

definition wfi :: "'x::len word hart \<Rightarrow> 'x word hart" where
  "wfi h = h\<lparr>wfi_log := wfi_log h @ [csr_file h]\<rparr>"

definition csrr :: "string \<Rightarrow> 'x::len word hart \<Rightarrow> ('x word \<times> 'x word hart) option" where
  "csrr c h = do { old \<leftarrow> csr_file h c; Some (old, h) }"

definition csrrw :: "string \<Rightarrow> 'x word \<Rightarrow> 'x::len word hart \<Rightarrow> ('x word \<times> 'x word hart) option" where
  "csrrw c v h = do { old \<leftarrow> csr_file h c; h' \<leftarrow> csr_put c v h; Some (old, h') }"

definition csrrs :: "string \<Rightarrow> 'x word \<Rightarrow> 'x::len word hart \<Rightarrow> ('x word \<times> 'x word hart) option" where
  "csrrs c m h = do { old \<leftarrow> csr_file h c; h' \<leftarrow> csr_put c (old OR m) h; Some (old, h') }"

definition csrrc :: "string \<Rightarrow> 'x word \<Rightarrow> 'x::len word hart \<Rightarrow> ('x word \<times> 'x word hart) option" where
  "csrrc c m h = do { old \<leftarrow> csr_file h c; h' \<leftarrow> csr_put c (old AND NOT m) h; Some (old, h') }"

definition csrw :: "string \<Rightarrow> 'x word \<Rightarrow> 'x::len word hart \<Rightarrow> 'x word hart option" where
  "csrw c v h = csr_put c v h"

text \<open>
  The immediate forms have a 5 bit unsigned operand; a larger constant does not assemble. With
  the operand 0, \<open>csrrsi\<close> and \<open>csrrci\<close> do not write the register.
\<close>

definition CSR_IMM_OP_MASK :: "'x::len word" where
  "CSR_IMM_OP_MASK = 0x1F"

definition uimm :: "'x::len word \<Rightarrow> 'x word option" where
  "uimm v = (if v = take_bit 5 v then Some v else None)"

definition csrrwi :: "string \<Rightarrow> 'x word \<Rightarrow> 'x::len word hart \<Rightarrow> ('x word \<times> 'x word hart) option" where
  "csrrwi c i h = do { v \<leftarrow> uimm i; csrrw c v h }"

definition csrwi :: "string \<Rightarrow> 'x word \<Rightarrow> 'x::len word hart \<Rightarrow> 'x word hart option" where
  "csrwi c i h = do { v \<leftarrow> uimm i; csrw c v h }"

definition csrrsi :: "string \<Rightarrow> 'x word \<Rightarrow> 'x::len word hart \<Rightarrow> ('x word \<times> 'x word hart) option" where
  "csrrsi c i h = do { m \<leftarrow> uimm i; if m = 0 then csrr c h else csrrs c m h }"

definition csrrci :: "string \<Rightarrow> 'x word \<Rightarrow> 'x::len word hart \<Rightarrow> ('x word \<times> 'x word hart) option" where
  "csrrci c i h = do { m \<leftarrow> uimm i; if m = 0 then csrr c h else csrrc c m h }"

section \<open>The \<open>ops\<close> structures\<close>

datatype priv_t = URW | URO | SRW | SRO | HRW | HRO | MRW | MRO | DRW | DRO

text \<open>
  The types of a register's value. \<open>uint_csr64_t\<close> is as wide as \<open>uint_xlen_t\<close>;
  \<open>uint_csr32_t\<close> has 32 bits on RV64 too, and a value of it is zero-extended in its register.
\<close>

datatype csr_type = uint_xlen_t | uint_csr32_t | uint_csr64_t

fun to_csr_type :: "csr_type \<Rightarrow> 'x::len word \<Rightarrow> 'x word" where
  "to_csr_type uint_xlen_t v = v"
| "to_csr_type uint_csr32_t v = take_bit 32 v"
| "to_csr_type uint_csr64_t v = v"

definition to_uint32 :: "'x::len word \<Rightarrow> 'x word" where
  "to_uint32 v = take_bit 32 v"

definition to_uint8 :: "'x::len word \<Rightarrow> 'x word" where
  "to_uint8 v = take_bit 8 v"

text \<open>The static methods of the structures, one field each.\<close>

record 'v csr_ro_ops =
  ops_type :: csr_type
  ops_priv :: priv_t
  op_read :: "'v hart \<Rightarrow> ('v \<times> 'v hart) option"

record 'v csr_rw_ops = "'v csr_ro_ops" +
  op_write :: "'v \<Rightarrow> 'v hart \<Rightarrow> 'v hart option"
  op_write_imm :: "'v \<Rightarrow> 'v hart \<Rightarrow> 'v hart option"
  op_read_write :: "'v \<Rightarrow> 'v hart \<Rightarrow> ('v \<times> 'v hart) option"
  op_read_write_imm :: "'v \<Rightarrow> 'v hart \<Rightarrow> ('v \<times> 'v hart) option"
  op_set_bits :: "'v \<Rightarrow> 'v hart \<Rightarrow> 'v hart option"
  op_read_set_bits :: "'v \<Rightarrow> 'v hart \<Rightarrow> ('v \<times> 'v hart) option"
  op_clr_bits :: "'v \<Rightarrow> 'v hart \<Rightarrow> 'v hart option"
  op_read_clr_bits :: "'v \<Rightarrow> 'v hart \<Rightarrow> ('v \<times> 'v hart) option"
  op_set_bits_imm :: "'v \<Rightarrow> 'v hart \<Rightarrow> 'v hart option"
  op_read_set_bits_imm :: "'v \<Rightarrow> 'v hart \<Rightarrow> ('v \<times> 'v hart) option"
  op_clr_bits_imm :: "'v \<Rightarrow> 'v hart \<Rightarrow> 'v hart option"
  op_read_clr_bits_imm :: "'v \<Rightarrow> 'v hart \<Rightarrow> ('v \<times> 'v hart) option"

text \<open>
  The structures are instances of two texts, for a register that is only read and for one that
  is also written: \<open>t\<close> is the \<open>datatype\<close>, \<open>p\<close> the \<open>priv\<close> and \<open>c\<close> the register that every asm
  statement names. A parameter of type \<open>uint8_t\<close> or of the structure's \<open>datatype\<close> and a result
  are converted to their declared type; \<open>read_set_bits\<close> and \<open>read_clr_bits\<close> return
  \<open>uint32_t\<close> in all of them.
\<close>

definition to_ret :: "('x word \<Rightarrow> 'x word) \<Rightarrow> ('x word \<times> 'x::len word hart) option
    \<Rightarrow> ('x word \<times> 'x word hart) option" where
  "to_ret conv r = do { (v, h) \<leftarrow> r; Some (conv v, h) }"

definition no_ret :: "('x::len word \<times> 'x word hart) option \<Rightarrow> 'x word hart option" where
  "no_ret r = do { (v, h) \<leftarrow> r; Some h }"

definition ro_ops :: "csr_type \<Rightarrow> priv_t \<Rightarrow> string \<Rightarrow> 'x::len word csr_ro_ops" where
  "ro_ops t p c =
     \<lparr>ops_type = t, ops_priv = p, op_read = (\<lambda>h. to_ret (to_csr_type t) (csrr c h))\<rparr>"

definition rw_ops :: "csr_type \<Rightarrow> priv_t \<Rightarrow> string \<Rightarrow> 'x::len word csr_rw_ops" where
  "rw_ops t p c =
     \<lparr>ops_type = t, ops_priv = p,
      op_read = (\<lambda>h. to_ret (to_csr_type t) (csrr c h)),
      op_write = (\<lambda>v h. csrw c (to_csr_type t v) h),
      op_write_imm = (\<lambda>v h. csrwi c (to_csr_type t v) h),
      op_read_write = (\<lambda>v h. to_ret (to_csr_type t) (csrrw c (to_csr_type t v) h)),
      op_read_write_imm = (\<lambda>v h. to_ret (to_csr_type t) (csrrwi c (to_uint8 v) h)),
      op_set_bits = (\<lambda>m h. no_ret (csrrs c (to_csr_type t m) h)),
      op_read_set_bits = (\<lambda>m h. to_ret to_uint32 (csrrs c (to_csr_type t m) h)),
      op_clr_bits = (\<lambda>m h. no_ret (csrrc c (to_csr_type t m) h)),
      op_read_clr_bits = (\<lambda>m h. to_ret to_uint32 (csrrc c (to_csr_type t m) h)),
      op_set_bits_imm = (\<lambda>m h. no_ret (csrrsi c (to_uint8 m) h)),
      op_read_set_bits_imm = (\<lambda>m h. to_ret (to_csr_type t) (csrrsi c (to_uint8 m) h)),
      op_clr_bits_imm = (\<lambda>m h. no_ret (csrrci c (to_uint8 m) h)),
      op_read_clr_bits_imm = (\<lambda>m h. to_ret (to_csr_type t) (csrrci c (to_uint8 m) h))\<rparr>"

section \<open>Register classes\<close>

text \<open>The condition of \<open>if constexpr\<close> that selects an immediate instruction.\<close>

definition fits_imm :: "'x::len word \<Rightarrow> bool" where
  "fits_imm v = (v AND CSR_IMM_OP_MASK = v)"

definition reg_read :: "('x::len word, 'z) csr_ro_ops_scheme \<Rightarrow> 'x word hart \<Rightarrow> ('x word \<times> 'x word hart) option" where
  "reg_read C h = op_read C h"

definition reg_write :: "'x::len word csr_rw_ops \<Rightarrow> 'x word \<Rightarrow> 'x word hart \<Rightarrow> 'x word hart option" where
  "reg_write C v h = op_write C v h"

definition reg_write_const :: "'x::len word csr_rw_ops \<Rightarrow> 'x word \<Rightarrow> 'x word hart \<Rightarrow> 'x word hart option" where
  "reg_write_const C v h = (if fits_imm v then op_write_imm C v h else op_write C v h)"

definition reg_set :: "'x::len word csr_rw_ops \<Rightarrow> 'x word \<Rightarrow> 'x word hart \<Rightarrow> 'x word hart option" where
  "reg_set C m h = op_set_bits C m h"

definition reg_set_const :: "'x::len word csr_rw_ops \<Rightarrow> 'x word \<Rightarrow> 'x word hart \<Rightarrow> 'x word hart option" where
  "reg_set_const C m h = (if fits_imm m then op_set_bits_imm C m h else op_set_bits C m h)"

text \<open>\<open>operator|=\<close> is an alias of \<open>set\<close>.\<close>

definition reg_or_assign :: "'x::len word csr_rw_ops \<Rightarrow> 'x word \<Rightarrow> 'x word hart \<Rightarrow> 'x word hart option" where
  "reg_or_assign C m h = op_set_bits C m h"

definition reg_clr :: "'x::len word csr_rw_ops \<Rightarrow> 'x word \<Rightarrow> 'x word hart \<Rightarrow> 'x word hart option" where
  "reg_clr C m h = op_clr_bits C m h"

definition reg_clr_const :: "'x::len word csr_rw_ops \<Rightarrow> 'x word \<Rightarrow> 'x word hart \<Rightarrow> 'x word hart option" where
  "reg_clr_const C m h = (if fits_imm m then op_clr_bits_imm C m h else op_clr_bits C m h)"

text \<open>Results are converted to \<open>datatype_t\<close>, the structure's \<open>datatype\<close>.\<close>

definition reg_read_write :: "'x::len word csr_rw_ops \<Rightarrow> 'x word \<Rightarrow> 'x word hart \<Rightarrow> ('x word \<times> 'x word hart) option" where
  "reg_read_write C v h = to_ret (to_csr_type (ops_type C)) (op_read_write C v h)"

definition reg_read_write_const :: "'x::len word csr_rw_ops \<Rightarrow> 'x word \<Rightarrow> 'x word hart \<Rightarrow> ('x word \<times> 'x word hart) option" where
  "reg_read_write_const C v h = to_ret (to_csr_type (ops_type C))
     (if fits_imm v then op_read_write_imm C v h else op_read_write C v h)"

definition reg_read_set_bits :: "'x::len word csr_rw_ops \<Rightarrow> 'x word \<Rightarrow> 'x word hart \<Rightarrow> ('x word \<times> 'x word hart) option" where
  "reg_read_set_bits C m h = to_ret (to_csr_type (ops_type C)) (op_read_set_bits C m h)"

definition reg_read_set_bits_const :: "'x::len word csr_rw_ops \<Rightarrow> 'x word \<Rightarrow> 'x word hart \<Rightarrow> ('x word \<times> 'x word hart) option" where
  "reg_read_set_bits_const C m h = to_ret (to_csr_type (ops_type C))
     (if fits_imm m then op_read_set_bits_imm C m h else op_read_set_bits C m h)"

definition reg_read_clr_bits :: "'x::len word csr_rw_ops \<Rightarrow> 'x word \<Rightarrow> 'x word hart \<Rightarrow> ('x word \<times> 'x word hart) option" where
  "reg_read_clr_bits C m h = to_ret (to_csr_type (ops_type C)) (op_read_clr_bits C m h)"

definition reg_read_clr_bits_const :: "'x::len word csr_rw_ops \<Rightarrow> 'x word \<Rightarrow> 'x word hart \<Rightarrow> ('x word \<times> 'x word hart) option" where
  "reg_read_clr_bits_const C m h = to_ret (to_csr_type (ops_type C))
     (if fits_imm m then op_read_clr_bits_imm C m h else op_read_clr_bits C m h)"

section \<open>Field classes\<close>

text \<open>The constants of a field; its values have type \<open>uint_xlen_t\<close>.\<close>

record 'v csr_field =
  BIT_OFFSET :: nat
  BIT_WIDTH :: nat
  BIT_MASK :: "'v"
  ALL_SET_MASK :: "'v"

definition field_of :: "'x::len word csr_field \<Rightarrow> 'x word \<Rightarrow> 'x word" where
  "field_of F v = drop_bit (BIT_OFFSET F) (v AND BIT_MASK F)"

definition field_read :: "('x::len word, 'z) csr_ro_ops_scheme \<Rightarrow> 'x word csr_field \<Rightarrow> 'x word hart
    \<Rightarrow> ('x word \<times> 'x word hart) option" where
  "field_read C F h = do { (v, h) \<leftarrow> op_read C h; Some (field_of F v, h) }"

definition field_set :: "'x::len word csr_rw_ops \<Rightarrow> 'x word csr_field \<Rightarrow> 'x word hart \<Rightarrow> 'x word hart option" where
  "field_set C F h =
     (if fits_imm (BIT_MASK F) then op_set_bits_imm C (BIT_MASK F) h else op_set_bits C (BIT_MASK F) h)"

definition field_clr :: "'x::len word csr_rw_ops \<Rightarrow> 'x word csr_field \<Rightarrow> 'x word hart \<Rightarrow> 'x word hart option" where
  "field_clr C F h =
     (if fits_imm (BIT_MASK F) then op_clr_bits_imm C (BIT_MASK F) h else op_clr_bits C (BIT_MASK F) h)"

definition field_new_value :: "'x::len word csr_rw_ops \<Rightarrow> 'x word csr_field \<Rightarrow> 'x word \<Rightarrow> 'x word \<Rightarrow> 'x word" where
  "field_new_value C F value org_value =
     (org_value AND NOT (BIT_MASK F)) OR
     (push_bit (BIT_OFFSET F) (to_csr_type (ops_type C) value) AND BIT_MASK F)"

definition field_write :: "'x::len word csr_rw_ops \<Rightarrow> 'x word csr_field \<Rightarrow> 'x word \<Rightarrow> 'x word hart \<Rightarrow> 'x word hart option" where
  "field_write C F value h =
     do { (org_value, h) \<leftarrow> op_read C h; op_write C (field_new_value C F value org_value) h }"

definition field_read_write :: "'x::len word csr_rw_ops \<Rightarrow> 'x word csr_field \<Rightarrow> 'x word \<Rightarrow> 'x word hart
    \<Rightarrow> ('x word \<times> 'x word hart) option" where
  "field_read_write C F value h =
     do { (org_value, h) \<leftarrow> op_read C h;
          h \<leftarrow> op_write C (field_new_value C F value org_value) h;
          Some (field_of F org_value, h) }"

end
