(* ===== verification/Csr_Ops.thy ===== *)
theory Csr_Ops
  imports Csr_Access
begin

text \<open>
  The \<open>ops\<close> structures of \<open>include/riscv/riscv-csr.hpp\<close>, in the order of the file: each is
  one of the two texts \<open>rw_ops\<close> and \<open>ro_ops\<close> with its datatype, its privilege and the name
  of its register.
\<close>

definition misa_ops :: "'x::len word csr_rw_ops" where
  "misa_ops = rw_ops uint_xlen_t MRW ''misa''"

definition mvendorid_ops :: "'x::len word csr_ro_ops" where
  "mvendorid_ops = ro_ops uint_csr32_t MRO ''mvendorid''"

definition marchid_ops :: "'x::len word csr_ro_ops" where
  "marchid_ops = ro_ops uint_xlen_t MRO ''marchid''"

definition mimpid_ops :: "'x::len word csr_ro_ops" where
  "mimpid_ops = ro_ops uint_xlen_t MRO ''mimpid''"

definition mhartid_ops :: "'x::len word csr_ro_ops" where
  "mhartid_ops = ro_ops uint_xlen_t MRO ''mhartid''"

definition mstatus_ops :: "'x::len word csr_rw_ops" where
  "mstatus_ops = rw_ops uint_xlen_t MRW ''mstatus''"

definition mstatush_ops :: "'x::len word csr_rw_ops" where
  "mstatush_ops = rw_ops uint_xlen_t MRW ''mstatush''"

definition mtvec_ops :: "'x::len word csr_rw_ops" where
  "mtvec_ops = rw_ops uint_xlen_t MRW ''mtvec''"

definition medeleg_ops :: "'x::len word csr_rw_ops" where
  "medeleg_ops = rw_ops uint_xlen_t MRW ''medeleg''"

definition mideleg_ops :: "'x::len word csr_rw_ops" where
  "mideleg_ops = rw_ops uint_xlen_t MRW ''mideleg''"

definition mip_ops :: "'x::len word csr_rw_ops" where
  "mip_ops = rw_ops uint_xlen_t MRW ''mip''"

definition mie_ops :: "'x::len word csr_rw_ops" where
  "mie_ops = rw_ops uint_xlen_t MRW ''mie''"

definition mcountinhibit_ops :: "'x::len word csr_rw_ops" where
  "mcountinhibit_ops = rw_ops uint_csr32_t MRW ''mcountinhibit''"

definition mcycle_ops :: "'x::len word csr_rw_ops" where
  "mcycle_ops = rw_ops uint_csr64_t MRW ''mcycle''"

definition minstret_ops :: "'x::len word csr_rw_ops" where
  "minstret_ops = rw_ops uint_csr64_t MRW ''minstret''"

definition mhpmcounter3_ops :: "'x::len word csr_rw_ops" where
  "mhpmcounter3_ops = rw_ops uint_csr64_t MRW ''mhpmcounter3''"

definition mhpmevent3_ops :: "'x::len word csr_rw_ops" where
  "mhpmevent3_ops = rw_ops uint_xlen_t MRW ''mhpmevent3''"

definition mcounteren_ops :: "'x::len word csr_rw_ops" where
  "mcounteren_ops = rw_ops uint_csr32_t MRW ''mcounteren''"

definition scounteren_ops :: "'x::len word csr_rw_ops" where
  "scounteren_ops = rw_ops uint_xlen_t SRW ''scounteren''"

definition mscratch_ops :: "'x::len word csr_rw_ops" where
  "mscratch_ops = rw_ops uint_xlen_t MRW ''mscratch''"

definition mepc_ops :: "'x::len word csr_rw_ops" where
  "mepc_ops = rw_ops uint_xlen_t MRW ''mepc''"

definition mcause_ops :: "'x::len word csr_rw_ops" where
  "mcause_ops = rw_ops uint_xlen_t MRW ''mcause''"

definition mtval_ops :: "'x::len word csr_rw_ops" where
  "mtval_ops = rw_ops uint_xlen_t MRW ''mtval''"

definition sscratch_ops :: "'x::len word csr_rw_ops" where
  "sscratch_ops = rw_ops uint_xlen_t SRW ''sscratch''"

definition sepc_ops :: "'x::len word csr_rw_ops" where
  "sepc_ops = rw_ops uint_xlen_t SRW ''sepc''"

definition scause_ops :: "'x::len word csr_rw_ops" where
  "scause_ops = rw_ops uint_xlen_t SRW ''scause''"

definition sstatus_ops :: "'x::len word csr_rw_ops" where
  "sstatus_ops = rw_ops uint_xlen_t SRW ''sstatus''"

definition stvec_ops :: "'x::len word csr_rw_ops" where
  "stvec_ops = rw_ops uint_xlen_t SRW ''stvec''"

definition sideleg_ops :: "'x::len word csr_rw_ops" where
  "sideleg_ops = rw_ops uint_xlen_t SRW ''sideleg''"

definition sedeleg_ops :: "'x::len word csr_rw_ops" where
  "sedeleg_ops = rw_ops uint_xlen_t SRW ''sedeleg''"

definition sip_ops :: "'x::len word csr_rw_ops" where
  "sip_ops = rw_ops uint_xlen_t SRW ''sip''"

definition sie_ops :: "'x::len word csr_rw_ops" where
  "sie_ops = rw_ops uint_xlen_t SRW ''sie''"

definition ustatus_ops :: "'x::len word csr_rw_ops" where
  "ustatus_ops = rw_ops uint_xlen_t URW ''ustatus''"

definition uip_ops :: "'x::len word csr_rw_ops" where
  "uip_ops = rw_ops uint_xlen_t URW ''uip''"

definition uie_ops :: "'x::len word csr_rw_ops" where
  "uie_ops = rw_ops uint_xlen_t URW ''uie''"

definition uscratch_ops :: "'x::len word csr_rw_ops" where
  "uscratch_ops = rw_ops uint_xlen_t URW ''uscratch''"

definition uepc_ops :: "'x::len word csr_rw_ops" where
  "uepc_ops = rw_ops uint_xlen_t URW ''uepc''"

definition ucause_ops :: "'x::len word csr_rw_ops" where
  "ucause_ops = rw_ops uint_xlen_t URW ''ucause''"

definition utvec_ops :: "'x::len word csr_rw_ops" where
  "utvec_ops = rw_ops uint_xlen_t URW ''utvec''"

definition utval_ops :: "'x::len word csr_rw_ops" where
  "utval_ops = rw_ops uint_xlen_t URW ''utval''"

definition fflags_ops :: "'x::len word csr_rw_ops" where
  "fflags_ops = rw_ops uint_xlen_t URW ''fflags''"

definition frm_ops :: "'x::len word csr_rw_ops" where
  "frm_ops = rw_ops uint_xlen_t URW ''frm''"

definition fcsr_ops :: "'x::len word csr_rw_ops" where
  "fcsr_ops = rw_ops uint_xlen_t URW ''fcsr''"

definition cycle_ops :: "'x::len word csr_ro_ops" where
  "cycle_ops = ro_ops uint_xlen_t URO ''cycle''"

definition time_ops :: "'x::len word csr_ro_ops" where
  "time_ops = ro_ops uint_xlen_t URO ''time''"

definition instret_ops :: "'x::len word csr_ro_ops" where
  "instret_ops = ro_ops uint_xlen_t URO ''instret''"

definition hpmcounter3_ops :: "'x::len word csr_ro_ops" where
  "hpmcounter3_ops = ro_ops uint_xlen_t URO ''hpmcounter3''"

definition hpmcounter4_ops :: "'x::len word csr_ro_ops" where
  "hpmcounter4_ops = ro_ops uint_xlen_t URO ''hpmcounter4''"

definition hpmcounter31_ops :: "'x::len word csr_ro_ops" where
  "hpmcounter31_ops = ro_ops uint_xlen_t URO ''hpmcounter31''"

definition cycleh_ops :: "'x::len word csr_ro_ops" where
  "cycleh_ops = ro_ops uint_xlen_t URO ''cycleh''"

definition timeh_ops :: "'x::len word csr_ro_ops" where
  "timeh_ops = ro_ops uint_xlen_t URO ''timeh''"

definition instreth_ops :: "'x::len word csr_ro_ops" where
  "instreth_ops = ro_ops uint_xlen_t URO ''instreth''"

definition hpmcounter3h_ops :: "'x::len word csr_ro_ops" where
  "hpmcounter3h_ops = ro_ops uint_xlen_t URO ''hpmcounter3h''"

definition hpmcounter4h_ops :: "'x::len word csr_ro_ops" where
  "hpmcounter4h_ops = ro_ops uint_xlen_t URO ''hpmcounter4h''"

definition hpmcounter31h_ops :: "'x::len word csr_ro_ops" where
  "hpmcounter31h_ops = ro_ops uint_xlen_t URO ''hpmcounter31h''"

definition stval_ops :: "'x::len word csr_rw_ops" where
  "stval_ops = rw_ops uint_xlen_t SRW ''stval''"

definition satp_ops :: "'x::len word csr_rw_ops" where
  "satp_ops = rw_ops uint_xlen_t SRW ''satp''"

definition hstatus_ops :: "'x::len word csr_rw_ops" where
  "hstatus_ops = rw_ops uint_xlen_t HRW ''hstatus''"

definition hedeleg_ops :: "'x::len word csr_rw_ops" where
  "hedeleg_ops = rw_ops uint_xlen_t HRW ''hedeleg''"

definition hideleg_ops :: "'x::len word csr_rw_ops" where
  "hideleg_ops = rw_ops uint_xlen_t HRW ''hideleg''"

definition hcounteren_ops :: "'x::len word csr_rw_ops" where
  "hcounteren_ops = rw_ops uint_xlen_t HRW ''hcounteren''"

definition hgatp_ops :: "'x::len word csr_rw_ops" where
  "hgatp_ops = rw_ops uint_xlen_t HRW ''hgatp''"

definition htimedelta_ops :: "'x::len word csr_rw_ops" where
  "htimedelta_ops = rw_ops uint_xlen_t HRW ''htimedelta''"

definition htimedeltah_ops :: "'x::len word csr_rw_ops" where
  "htimedeltah_ops = rw_ops uint_xlen_t HRW ''htimedeltah''"

definition vsstatus_ops :: "'x::len word csr_rw_ops" where
  "vsstatus_ops = rw_ops uint_xlen_t HRW ''vsstatus''"

definition vsie_ops :: "'x::len word csr_rw_ops" where
  "vsie_ops = rw_ops uint_xlen_t HRW ''vsie''"

definition vstvec_ops :: "'x::len word csr_rw_ops" where
  "vstvec_ops = rw_ops uint_xlen_t HRW ''vstvec''"

definition vsscratch_ops :: "'x::len word csr_rw_ops" where
  "vsscratch_ops = rw_ops uint_xlen_t HRW ''vsscratch''"

definition vsepc_ops :: "'x::len word csr_rw_ops" where
  "vsepc_ops = rw_ops uint_xlen_t HRW ''vsepc''"

definition vscause_ops :: "'x::len word csr_rw_ops" where
  "vscause_ops = rw_ops uint_xlen_t HRW ''vscause''"

definition vstval_ops :: "'x::len word csr_rw_ops" where
  "vstval_ops = rw_ops uint_xlen_t HRW ''vstval''"

definition vsip_ops :: "'x::len word csr_rw_ops" where
  "vsip_ops = rw_ops uint_xlen_t HRW ''vsip''"

definition vsatp_ops :: "'x::len word csr_rw_ops" where
  "vsatp_ops = rw_ops uint_xlen_t HRW ''vsatp''"

definition mbase_ops :: "'x::len word csr_rw_ops" where
  "mbase_ops = rw_ops uint_xlen_t MRW ''mbase''"

definition mbound_ops :: "'x::len word csr_rw_ops" where
  "mbound_ops = rw_ops uint_xlen_t MRW ''mbound''"

definition mibase_ops :: "'x::len word csr_rw_ops" where
  "mibase_ops = rw_ops uint_xlen_t MRW ''mibase''"

definition mibound_ops :: "'x::len word csr_rw_ops" where
  "mibound_ops = rw_ops uint_xlen_t MRW ''mibound''"

definition mdbase_ops :: "'x::len word csr_rw_ops" where
  "mdbase_ops = rw_ops uint_xlen_t MRW ''mdbase''"

definition mdbound_ops :: "'x::len word csr_rw_ops" where
  "mdbound_ops = rw_ops uint_xlen_t MRW ''mdbound''"

definition pmpcfg0_ops :: "'x::len word csr_rw_ops" where
  "pmpcfg0_ops = rw_ops uint_xlen_t MRW ''pmpcfg0''"

definition pmpcfg1_ops :: "'x::len word csr_rw_ops" where
  "pmpcfg1_ops = rw_ops uint_xlen_t MRW ''pmpcfg1''"

definition pmpcfg2_ops :: "'x::len word csr_rw_ops" where
  "pmpcfg2_ops = rw_ops uint_xlen_t MRW ''pmpcfg2''"

definition pmpcfg3_ops :: "'x::len word csr_rw_ops" where
  "pmpcfg3_ops = rw_ops uint_xlen_t MRW ''pmpcfg3''"

definition pmpaddr0_ops :: "'x::len word csr_rw_ops" where
  "pmpaddr0_ops = rw_ops uint_xlen_t MRW ''pmpaddr0''"

definition pmpaddr1_ops :: "'x::len word csr_rw_ops" where
  "pmpaddr1_ops = rw_ops uint_xlen_t MRW ''pmpaddr1''"

definition pmpaddr15_ops :: "'x::len word csr_rw_ops" where
  "pmpaddr15_ops = rw_ops uint_xlen_t MRW ''pmpaddr15''"

definition mhpmcounter4_ops :: "'x::len word csr_rw_ops" where
  "mhpmcounter4_ops = rw_ops uint_xlen_t MRW ''mhpmcounter4''"

definition mhpmcounter31_ops :: "'x::len word csr_rw_ops" where
  "mhpmcounter31_ops = rw_ops uint_xlen_t MRW ''mhpmcounter31''"

definition mcycleh_ops :: "'x::len word csr_rw_ops" where
  "mcycleh_ops = rw_ops uint_csr32_t MRW ''mcycleh''"

definition minstreth_ops :: "'x::len word csr_rw_ops" where
  "minstreth_ops = rw_ops uint_csr32_t MRW ''minstreth''"

definition mhpmcounter3h_ops :: "'x::len word csr_rw_ops" where
  "mhpmcounter3h_ops = rw_ops uint_csr32_t MRW ''mhpmcounter3h''"

definition mhpmcounter4h_ops :: "'x::len word csr_rw_ops" where
  "mhpmcounter4h_ops = rw_ops uint_csr32_t MRW ''mhpmcounter4h''"

definition mhpmcounter31h_ops :: "'x::len word csr_rw_ops" where
  "mhpmcounter31h_ops = rw_ops uint_csr32_t MRW ''mhpmcounter31h''"

definition mhpmevent4_ops :: "'x::len word csr_rw_ops" where
  "mhpmevent4_ops = rw_ops uint_xlen_t MRW ''mhpmevent4''"

definition mhpmevent31_ops :: "'x::len word csr_rw_ops" where
  "mhpmevent31_ops = rw_ops uint_xlen_t MRW ''mhpmevent31''"

definition tselect_ops :: "'x::len word csr_rw_ops" where
  "tselect_ops = rw_ops uint_xlen_t MRW ''tselect''"

definition tdata1_ops :: "'x::len word csr_rw_ops" where
  "tdata1_ops = rw_ops uint_xlen_t MRW ''tdata1''"

definition tdata2_ops :: "'x::len word csr_rw_ops" where
  "tdata2_ops = rw_ops uint_xlen_t MRW ''tdata2''"

definition tdata3_ops :: "'x::len word csr_rw_ops" where
  "tdata3_ops = rw_ops uint_xlen_t MRW ''tdata3''"

definition dcsr_ops :: "'x::len word csr_rw_ops" where
  "dcsr_ops = rw_ops uint_xlen_t DRW ''dcsr''"

definition dpc_ops :: "'x::len word csr_rw_ops" where
  "dpc_ops = rw_ops uint_xlen_t DRW ''dpc''"

definition dscratch0_ops :: "'x::len word csr_rw_ops" where
  "dscratch0_ops = rw_ops uint_xlen_t DRW ''dscratch0''"

definition dscratch1_ops :: "'x::len word csr_rw_ops" where
  "dscratch1_ops = rw_ops uint_xlen_t DRW ''dscratch1''"

definition hie_ops :: "'x::len word csr_rw_ops" where
  "hie_ops = rw_ops uint_xlen_t HRW ''hie''"

definition hgeie_ops :: "'x::len word csr_rw_ops" where
  "hgeie_ops = rw_ops uint_xlen_t HRW ''hgeie''"

definition htval_ops :: "'x::len word csr_rw_ops" where
  "htval_ops = rw_ops uint_xlen_t HRW ''htval''"

definition hip_ops :: "'x::len word csr_rw_ops" where
  "hip_ops = rw_ops uint_xlen_t HRW ''hip''"

definition htinst_ops :: "'x::len word csr_rw_ops" where
  "htinst_ops = rw_ops uint_xlen_t HRW ''htinst''"

definition hgeip_ops :: "'x::len word csr_ro_ops" where
  "hgeip_ops = ro_ops uint_xlen_t HRO ''hgeip''"

definition mtinst_ops :: "'x::len word csr_rw_ops" where
  "mtinst_ops = rw_ops uint_xlen_t MRW ''mtinst''"

definition mtval2_ops :: "'x::len word csr_rw_ops" where
  "mtval2_ops = rw_ops uint_xlen_t MRW ''mtval2''"

lemmas rw_ops_defs =
  misa_ops_def mstatus_ops_def mstatush_ops_def mtvec_ops_def medeleg_ops_def
  mideleg_ops_def mip_ops_def mie_ops_def mcountinhibit_ops_def mcycle_ops_def
  minstret_ops_def mhpmcounter3_ops_def mhpmevent3_ops_def mcounteren_ops_def
  scounteren_ops_def mscratch_ops_def mepc_ops_def mcause_ops_def mtval_ops_def
  sscratch_ops_def sepc_ops_def scause_ops_def sstatus_ops_def stvec_ops_def
  sideleg_ops_def sedeleg_ops_def sip_ops_def sie_ops_def ustatus_ops_def uip_ops_def
  uie_ops_def uscratch_ops_def uepc_ops_def ucause_ops_def utvec_ops_def utval_ops_def
  fflags_ops_def frm_ops_def fcsr_ops_def stval_ops_def satp_ops_def hstatus_ops_def
  hedeleg_ops_def hideleg_ops_def hcounteren_ops_def hgatp_ops_def htimedelta_ops_def
  htimedeltah_ops_def vsstatus_ops_def vsie_ops_def vstvec_ops_def vsscratch_ops_def
  vsepc_ops_def vscause_ops_def vstval_ops_def vsip_ops_def vsatp_ops_def mbase_ops_def
  mbound_ops_def mibase_ops_def mibound_ops_def mdbase_ops_def mdbound_ops_def
  pmpcfg0_ops_def pmpcfg1_ops_def pmpcfg2_ops_def pmpcfg3_ops_def pmpaddr0_ops_def
  pmpaddr1_ops_def pmpaddr15_ops_def mhpmcounter4_ops_def mhpmcounter31_ops_def
  mcycleh_ops_def minstreth_ops_def mhpmcounter3h_ops_def mhpmcounter4h_ops_def
  mhpmcounter31h_ops_def mhpmevent4_ops_def mhpmevent31_ops_def tselect_ops_def
  tdata1_ops_def tdata2_ops_def tdata3_ops_def dcsr_ops_def dpc_ops_def
  dscratch0_ops_def dscratch1_ops_def hie_ops_def hgeie_ops_def htval_ops_def
  hip_ops_def htinst_ops_def mtinst_ops_def mtval2_ops_def

lemmas ro_ops_defs =
  mvendorid_ops_def marchid_ops_def mimpid_ops_def mhartid_ops_def cycle_ops_def
  time_ops_def instret_ops_def hpmcounter3_ops_def hpmcounter4_ops_def
  hpmcounter31_ops_def cycleh_ops_def timeh_ops_def instreth_ops_def
  hpmcounter3h_ops_def hpmcounter4h_ops_def hpmcounter31h_ops_def hgeip_ops_def

end
