(* ===== verification/Csr_Fields.thy ===== *)
theory Csr_Fields
  imports Csr_Access
begin

text \<open>
  The field parameters of \<open>include/riscv/riscv-csr.hpp\<close> (the namespaces \<open>*_data\<close>), in the
  order of the file. \<open>__riscv_xlen\<close> is \<open>LENGTH('x)\<close> and \<open>1UL\<close>, an \<open>unsigned long\<close>, has
  as many bits as a register.
\<close>

definition mstatus_data_mie :: "'x::len word csr_field" where
  "mstatus_data_mie = \<lparr>BIT_OFFSET = 3, BIT_WIDTH = 1,
     BIT_MASK = 0x8,
     ALL_SET_MASK = 0x1\<rparr>"

definition mstatus_data_sie :: "'x::len word csr_field" where
  "mstatus_data_sie = \<lparr>BIT_OFFSET = 2, BIT_WIDTH = 1,
     BIT_MASK = 0x4,
     ALL_SET_MASK = 0x1\<rparr>"

definition mstatus_data_mpie :: "'x::len word csr_field" where
  "mstatus_data_mpie = \<lparr>BIT_OFFSET = 7, BIT_WIDTH = 1,
     BIT_MASK = 0x80,
     ALL_SET_MASK = 0x1\<rparr>"

definition mstatus_data_spie :: "'x::len word csr_field" where
  "mstatus_data_spie = \<lparr>BIT_OFFSET = 5, BIT_WIDTH = 1,
     BIT_MASK = 0x20,
     ALL_SET_MASK = 0x1\<rparr>"

definition mstatus_data_mprv :: "'x::len word csr_field" where
  "mstatus_data_mprv = \<lparr>BIT_OFFSET = 17, BIT_WIDTH = 1,
     BIT_MASK = 0x20000,
     ALL_SET_MASK = 0x1\<rparr>"

definition mstatus_data_mpp :: "'x::len word csr_field" where
  "mstatus_data_mpp = \<lparr>BIT_OFFSET = 11, BIT_WIDTH = 2,
     BIT_MASK = 0x1800,
     ALL_SET_MASK = 0x3\<rparr>"

definition mstatus_data_spp :: "'x::len word csr_field" where
  "mstatus_data_spp = \<lparr>BIT_OFFSET = 8, BIT_WIDTH = 1,
     BIT_MASK = 0x100,
     ALL_SET_MASK = 0x1\<rparr>"

definition mtvec_data_base :: "'x::len word csr_field" where
  "mtvec_data_base = \<lparr>BIT_OFFSET = 2, BIT_WIDTH = (LENGTH('x) - 1) - 2 + 1,
     BIT_MASK = push_bit 2 (push_bit (((LENGTH('x) - 1) - 2 + 1) - 1) 1),
     ALL_SET_MASK = push_bit 0 (push_bit (((LENGTH('x) - 1) - 2 + 1) - 1) 1)\<rparr>"

definition mtvec_data_mode :: "'x::len word csr_field" where
  "mtvec_data_mode = \<lparr>BIT_OFFSET = 0, BIT_WIDTH = 2,
     BIT_MASK = 0x3,
     ALL_SET_MASK = 0x3\<rparr>"

definition mip_data_msi :: "'x::len word csr_field" where
  "mip_data_msi = \<lparr>BIT_OFFSET = 3, BIT_WIDTH = 1,
     BIT_MASK = 0x8,
     ALL_SET_MASK = 0x1\<rparr>"

definition mip_data_mti :: "'x::len word csr_field" where
  "mip_data_mti = \<lparr>BIT_OFFSET = 7, BIT_WIDTH = 1,
     BIT_MASK = 0x80,
     ALL_SET_MASK = 0x1\<rparr>"

definition mip_data_mei :: "'x::len word csr_field" where
  "mip_data_mei = \<lparr>BIT_OFFSET = 11, BIT_WIDTH = 1,
     BIT_MASK = 0x800,
     ALL_SET_MASK = 0x1\<rparr>"

definition mip_data_ssi :: "'x::len word csr_field" where
  "mip_data_ssi = \<lparr>BIT_OFFSET = 1, BIT_WIDTH = 1,
     BIT_MASK = 0x2,
     ALL_SET_MASK = 0x1\<rparr>"

definition mip_data_sti :: "'x::len word csr_field" where
  "mip_data_sti = \<lparr>BIT_OFFSET = 5, BIT_WIDTH = 1,
     BIT_MASK = 0x20,
     ALL_SET_MASK = 0x1\<rparr>"

definition mip_data_sei :: "'x::len word csr_field" where
  "mip_data_sei = \<lparr>BIT_OFFSET = 9, BIT_WIDTH = 1,
     BIT_MASK = 0x200,
     ALL_SET_MASK = 0x1\<rparr>"

definition mip_data_usi :: "'x::len word csr_field" where
  "mip_data_usi = \<lparr>BIT_OFFSET = 0, BIT_WIDTH = 1,
     BIT_MASK = 0x1,
     ALL_SET_MASK = 0x1\<rparr>"

definition mip_data_uti :: "'x::len word csr_field" where
  "mip_data_uti = \<lparr>BIT_OFFSET = 4, BIT_WIDTH = 1,
     BIT_MASK = 0x10,
     ALL_SET_MASK = 0x1\<rparr>"

definition mip_data_uei :: "'x::len word csr_field" where
  "mip_data_uei = \<lparr>BIT_OFFSET = 8, BIT_WIDTH = 1,
     BIT_MASK = 0x100,
     ALL_SET_MASK = 0x1\<rparr>"

definition mip_data_platform_defined :: "'x::len word csr_field" where
  "mip_data_platform_defined = \<lparr>BIT_OFFSET = 16, BIT_WIDTH = LENGTH('x) - 16 + 1,
     BIT_MASK = push_bit 16 (push_bit ((LENGTH('x) - 16 + 1) - 1) 1),
     ALL_SET_MASK = push_bit 0 (push_bit ((LENGTH('x) - 16 + 1) - 1) 1)\<rparr>"

definition mie_data_msi :: "'x::len word csr_field" where
  "mie_data_msi = \<lparr>BIT_OFFSET = 3, BIT_WIDTH = 1,
     BIT_MASK = 0x8,
     ALL_SET_MASK = 0x1\<rparr>"

definition mie_data_mti :: "'x::len word csr_field" where
  "mie_data_mti = \<lparr>BIT_OFFSET = 7, BIT_WIDTH = 1,
     BIT_MASK = 0x80,
     ALL_SET_MASK = 0x1\<rparr>"

definition mie_data_mei :: "'x::len word csr_field" where
  "mie_data_mei = \<lparr>BIT_OFFSET = 11, BIT_WIDTH = 1,
     BIT_MASK = 0x800,
     ALL_SET_MASK = 0x1\<rparr>"

definition mie_data_ssi :: "'x::len word csr_field" where
  "mie_data_ssi = \<lparr>BIT_OFFSET = 1, BIT_WIDTH = 1,
     BIT_MASK = 0x2,
     ALL_SET_MASK = 0x1\<rparr>"

definition mie_data_sti :: "'x::len word csr_field" where
  "mie_data_sti = \<lparr>BIT_OFFSET = 5, BIT_WIDTH = 1,
     BIT_MASK = 0x20,
     ALL_SET_MASK = 0x1\<rparr>"

definition mie_data_sei :: "'x::len word csr_field" where
  "mie_data_sei = \<lparr>BIT_OFFSET = 9, BIT_WIDTH = 1,
     BIT_MASK = 0x200,
     ALL_SET_MASK = 0x1\<rparr>"

definition mie_data_usi :: "'x::len word csr_field" where
  "mie_data_usi = \<lparr>BIT_OFFSET = 0, BIT_WIDTH = 1,
     BIT_MASK = 0x1,
     ALL_SET_MASK = 0x1\<rparr>"

definition mie_data_uti :: "'x::len word csr_field" where
  "mie_data_uti = \<lparr>BIT_OFFSET = 4, BIT_WIDTH = 1,
     BIT_MASK = 0x10,
     ALL_SET_MASK = 0x1\<rparr>"

definition mie_data_uei :: "'x::len word csr_field" where
  "mie_data_uei = \<lparr>BIT_OFFSET = 8, BIT_WIDTH = 1,
     BIT_MASK = 0x100,
     ALL_SET_MASK = 0x1\<rparr>"

definition mie_data_platform_defined :: "'x::len word csr_field" where
  "mie_data_platform_defined = \<lparr>BIT_OFFSET = 16, BIT_WIDTH = LENGTH('x) - 16 + 1,
     BIT_MASK = push_bit 16 (push_bit ((LENGTH('x) - 16 + 1) - 1) 1),
     ALL_SET_MASK = push_bit 0 (push_bit ((LENGTH('x) - 16 + 1) - 1) 1)\<rparr>"

definition mcountinhibit_data_cy :: "'x::len word csr_field" where
  "mcountinhibit_data_cy = \<lparr>BIT_OFFSET = 0, BIT_WIDTH = 1,
     BIT_MASK = 0x1,
     ALL_SET_MASK = 0x1\<rparr>"

definition mcountinhibit_data_ir :: "'x::len word csr_field" where
  "mcountinhibit_data_ir = \<lparr>BIT_OFFSET = 2, BIT_WIDTH = 1,
     BIT_MASK = 0x4,
     ALL_SET_MASK = 0x1\<rparr>"

definition mcountinhibit_data_hpm :: "'x::len word csr_field" where
  "mcountinhibit_data_hpm = \<lparr>BIT_OFFSET = 3, BIT_WIDTH = 29,
     BIT_MASK = 0xfffffff8,
     ALL_SET_MASK = 0x1fffffff\<rparr>"

definition mcounteren_data_cy :: "'x::len word csr_field" where
  "mcounteren_data_cy = \<lparr>BIT_OFFSET = 0, BIT_WIDTH = 1,
     BIT_MASK = 0x1,
     ALL_SET_MASK = 0x1\<rparr>"

definition mcounteren_data_tm :: "'x::len word csr_field" where
  "mcounteren_data_tm = \<lparr>BIT_OFFSET = 1, BIT_WIDTH = 1,
     BIT_MASK = 0x2,
     ALL_SET_MASK = 0x1\<rparr>"

definition mcounteren_data_ir :: "'x::len word csr_field" where
  "mcounteren_data_ir = \<lparr>BIT_OFFSET = 2, BIT_WIDTH = 1,
     BIT_MASK = 0x4,
     ALL_SET_MASK = 0x1\<rparr>"

definition mcounteren_data_hpm :: "'x::len word csr_field" where
  "mcounteren_data_hpm = \<lparr>BIT_OFFSET = 3, BIT_WIDTH = 29,
     BIT_MASK = 0xfffffff8,
     ALL_SET_MASK = 0x1fffffff\<rparr>"

definition mcause_data_interrupt :: "'x::len word csr_field" where
  "mcause_data_interrupt = \<lparr>BIT_OFFSET = LENGTH('x) - 1, BIT_WIDTH = 1,
     BIT_MASK = push_bit (LENGTH('x) - 1) 1,
     ALL_SET_MASK = 0x1\<rparr>"

definition mcause_data_exception_code :: "'x::len word csr_field" where
  "mcause_data_exception_code = \<lparr>BIT_OFFSET = 0, BIT_WIDTH = (LENGTH('x) - 2) - 0 + 1,
     BIT_MASK = push_bit 0 (push_bit (((LENGTH('x) - 2) - 0 + 1) - 1) 1),
     ALL_SET_MASK = push_bit 0 (push_bit (((LENGTH('x) - 2) - 0 + 1) - 1) 1)\<rparr>"

definition scause_data_interrupt :: "'x::len word csr_field" where
  "scause_data_interrupt = \<lparr>BIT_OFFSET = LENGTH('x) - 1, BIT_WIDTH = 1,
     BIT_MASK = push_bit (LENGTH('x) - 1) 1,
     ALL_SET_MASK = 0x1\<rparr>"

definition scause_data_exception_code :: "'x::len word csr_field" where
  "scause_data_exception_code = \<lparr>BIT_OFFSET = 0, BIT_WIDTH = (LENGTH('x) - 2) - 0 + 1,
     BIT_MASK = push_bit 0 (push_bit (((LENGTH('x) - 2) - 0 + 1) - 1) 1),
     ALL_SET_MASK = push_bit 0 (push_bit (((LENGTH('x) - 2) - 0 + 1) - 1) 1)\<rparr>"

definition sstatus_data_sie :: "'x::len word csr_field" where
  "sstatus_data_sie = \<lparr>BIT_OFFSET = 2, BIT_WIDTH = 1,
     BIT_MASK = 0x4,
     ALL_SET_MASK = 0x1\<rparr>"

definition sstatus_data_spie :: "'x::len word csr_field" where
  "sstatus_data_spie = \<lparr>BIT_OFFSET = 5, BIT_WIDTH = 1,
     BIT_MASK = 0x20,
     ALL_SET_MASK = 0x1\<rparr>"

definition sstatus_data_spp :: "'x::len word csr_field" where
  "sstatus_data_spp = \<lparr>BIT_OFFSET = 8, BIT_WIDTH = 1,
     BIT_MASK = 0x100,
     ALL_SET_MASK = 0x1\<rparr>"

definition stvec_data_base :: "'x::len word csr_field" where
  "stvec_data_base = \<lparr>BIT_OFFSET = 2, BIT_WIDTH = (LENGTH('x) - 1) - 2 + 1,
     BIT_MASK = push_bit 2 (push_bit (((LENGTH('x) - 1) - 2 + 1) - 1) 1),
     ALL_SET_MASK = push_bit 0 (push_bit (((LENGTH('x) - 1) - 2 + 1) - 1) 1)\<rparr>"

definition stvec_data_mode :: "'x::len word csr_field" where
  "stvec_data_mode = \<lparr>BIT_OFFSET = 0, BIT_WIDTH = 2,
     BIT_MASK = 0x3,
     ALL_SET_MASK = 0x3\<rparr>"

definition sip_data_ssi :: "'x::len word csr_field" where
  "sip_data_ssi = \<lparr>BIT_OFFSET = 1, BIT_WIDTH = 1,
     BIT_MASK = 0x2,
     ALL_SET_MASK = 0x1\<rparr>"

definition sip_data_sti :: "'x::len word csr_field" where
  "sip_data_sti = \<lparr>BIT_OFFSET = 5, BIT_WIDTH = 1,
     BIT_MASK = 0x20,
     ALL_SET_MASK = 0x1\<rparr>"

definition sip_data_sei :: "'x::len word csr_field" where
  "sip_data_sei = \<lparr>BIT_OFFSET = 9, BIT_WIDTH = 1,
     BIT_MASK = 0x200,
     ALL_SET_MASK = 0x1\<rparr>"

definition sip_data_usi :: "'x::len word csr_field" where
  "sip_data_usi = \<lparr>BIT_OFFSET = 0, BIT_WIDTH = 1,
     BIT_MASK = 0x1,
     ALL_SET_MASK = 0x1\<rparr>"

definition sip_data_uti :: "'x::len word csr_field" where
  "sip_data_uti = \<lparr>BIT_OFFSET = 4, BIT_WIDTH = 1,
     BIT_MASK = 0x10,
     ALL_SET_MASK = 0x1\<rparr>"

definition sip_data_uei :: "'x::len word csr_field" where
  "sip_data_uei = \<lparr>BIT_OFFSET = 8, BIT_WIDTH = 1,
     BIT_MASK = 0x100,
     ALL_SET_MASK = 0x1\<rparr>"

definition sie_data_ssi :: "'x::len word csr_field" where
  "sie_data_ssi = \<lparr>BIT_OFFSET = 1, BIT_WIDTH = 1,
     BIT_MASK = 0x2,
     ALL_SET_MASK = 0x1\<rparr>"

definition sie_data_sti :: "'x::len word csr_field" where
  "sie_data_sti = \<lparr>BIT_OFFSET = 5, BIT_WIDTH = 1,
     BIT_MASK = 0x20,
     ALL_SET_MASK = 0x1\<rparr>"

definition sie_data_sei :: "'x::len word csr_field" where
  "sie_data_sei = \<lparr>BIT_OFFSET = 9, BIT_WIDTH = 1,
     BIT_MASK = 0x200,
     ALL_SET_MASK = 0x1\<rparr>"

definition sie_data_usi :: "'x::len word csr_field" where
  "sie_data_usi = \<lparr>BIT_OFFSET = 0, BIT_WIDTH = 1,
     BIT_MASK = 0x1,
     ALL_SET_MASK = 0x1\<rparr>"

definition sie_data_uti :: "'x::len word csr_field" where
  "sie_data_uti = \<lparr>BIT_OFFSET = 4, BIT_WIDTH = 1,
     BIT_MASK = 0x10,
     ALL_SET_MASK = 0x1\<rparr>"

definition sie_data_uei :: "'x::len word csr_field" where
  "sie_data_uei = \<lparr>BIT_OFFSET = 8, BIT_WIDTH = 1,
     BIT_MASK = 0x100,
     ALL_SET_MASK = 0x1\<rparr>"

definition ustatus_data_uie :: "'x::len word csr_field" where
  "ustatus_data_uie = \<lparr>BIT_OFFSET = 1, BIT_WIDTH = 1,
     BIT_MASK = 0x2,
     ALL_SET_MASK = 0x1\<rparr>"

definition ustatus_data_upie :: "'x::len word csr_field" where
  "ustatus_data_upie = \<lparr>BIT_OFFSET = 3, BIT_WIDTH = 1,
     BIT_MASK = 0x8,
     ALL_SET_MASK = 0x1\<rparr>"

definition uip_data_usi :: "'x::len word csr_field" where
  "uip_data_usi = \<lparr>BIT_OFFSET = 0, BIT_WIDTH = 1,
     BIT_MASK = 0x1,
     ALL_SET_MASK = 0x1\<rparr>"

definition uip_data_uti :: "'x::len word csr_field" where
  "uip_data_uti = \<lparr>BIT_OFFSET = 4, BIT_WIDTH = 1,
     BIT_MASK = 0x10,
     ALL_SET_MASK = 0x1\<rparr>"

definition uip_data_uei :: "'x::len word csr_field" where
  "uip_data_uei = \<lparr>BIT_OFFSET = 8, BIT_WIDTH = 1,
     BIT_MASK = 0x100,
     ALL_SET_MASK = 0x1\<rparr>"

definition uie_data_usi :: "'x::len word csr_field" where
  "uie_data_usi = \<lparr>BIT_OFFSET = 0, BIT_WIDTH = 1,
     BIT_MASK = 0x1,
     ALL_SET_MASK = 0x1\<rparr>"

definition uie_data_uti :: "'x::len word csr_field" where
  "uie_data_uti = \<lparr>BIT_OFFSET = 4, BIT_WIDTH = 1,
     BIT_MASK = 0x10,
     ALL_SET_MASK = 0x1\<rparr>"

definition uie_data_uei :: "'x::len word csr_field" where
  "uie_data_uei = \<lparr>BIT_OFFSET = 8, BIT_WIDTH = 1,
     BIT_MASK = 0x100,
     ALL_SET_MASK = 0x1\<rparr>"

definition ucause_data_interrupt :: "'x::len word csr_field" where
  "ucause_data_interrupt = \<lparr>BIT_OFFSET = LENGTH('x) - 1, BIT_WIDTH = 1,
     BIT_MASK = push_bit (LENGTH('x) - 1) 1,
     ALL_SET_MASK = 0x1\<rparr>"

definition ucause_data_exception_code :: "'x::len word csr_field" where
  "ucause_data_exception_code = \<lparr>BIT_OFFSET = 0, BIT_WIDTH = (LENGTH('x) - 2) - 0 + 1,
     BIT_MASK = push_bit 0 (push_bit (((LENGTH('x) - 2) - 0 + 1) - 1) 1),
     ALL_SET_MASK = push_bit 0 (push_bit (((LENGTH('x) - 2) - 0 + 1) - 1) 1)\<rparr>"

definition utvec_data_base :: "'x::len word csr_field" where
  "utvec_data_base = \<lparr>BIT_OFFSET = 2, BIT_WIDTH = (LENGTH('x) - 1) - 2 + 1,
     BIT_MASK = push_bit 2 (push_bit (((LENGTH('x) - 1) - 2 + 1) - 1) 1),
     ALL_SET_MASK = push_bit 0 (push_bit (((LENGTH('x) - 1) - 2 + 1) - 1) 1)\<rparr>"

definition utvec_data_mode :: "'x::len word csr_field" where
  "utvec_data_mode = \<lparr>BIT_OFFSET = 0, BIT_WIDTH = 2,
     BIT_MASK = 0x3,
     ALL_SET_MASK = 0x3\<rparr>"

lemmas field_defs =
  mstatus_data_mie_def mstatus_data_sie_def mstatus_data_mpie_def mstatus_data_spie_def
  mstatus_data_mprv_def mstatus_data_mpp_def mstatus_data_spp_def mtvec_data_base_def
  mtvec_data_mode_def mip_data_msi_def mip_data_mti_def mip_data_mei_def
  mip_data_ssi_def mip_data_sti_def mip_data_sei_def mip_data_usi_def mip_data_uti_def
  mip_data_uei_def mip_data_platform_defined_def mie_data_msi_def mie_data_mti_def
  mie_data_mei_def mie_data_ssi_def mie_data_sti_def mie_data_sei_def mie_data_usi_def
  mie_data_uti_def mie_data_uei_def mie_data_platform_defined_def
  mcountinhibit_data_cy_def mcountinhibit_data_ir_def mcountinhibit_data_hpm_def
  mcounteren_data_cy_def mcounteren_data_tm_def mcounteren_data_ir_def
  mcounteren_data_hpm_def mcause_data_interrupt_def mcause_data_exception_code_def
  scause_data_interrupt_def scause_data_exception_code_def sstatus_data_sie_def
  sstatus_data_spie_def sstatus_data_spp_def stvec_data_base_def stvec_data_mode_def
  sip_data_ssi_def sip_data_sti_def sip_data_sei_def sip_data_usi_def sip_data_uti_def
  sip_data_uei_def sie_data_ssi_def sie_data_sti_def sie_data_sei_def sie_data_usi_def
  sie_data_uti_def sie_data_uei_def ustatus_data_uie_def ustatus_data_upie_def
  uip_data_usi_def uip_data_uti_def uip_data_uei_def uie_data_usi_def uie_data_uti_def
  uie_data_uei_def ucause_data_interrupt_def ucause_data_exception_code_def
  utvec_data_base_def utvec_data_mode_def

end
