(* ===== verification/Csr_Regs.thy ===== *)
theory Csr_Regs
  imports Csr_Ops Csr_Fields
begin

text \<open>
  The register classes of \<open>include/riscv/riscv-csr.hpp\<close>, templates over their operations with
  one member per field, and the structure \<open>all\<close> with one member per register.
\<close>

record 'v csr_rw_reg =
  reg_ops :: "'v csr_rw_ops"
  reg_fields :: "(string \<times> 'v csr_field) list"

record 'v csr_ro_reg =
  ro_reg_ops :: "'v csr_ro_ops"

definition misa_reg :: "'x::len word csr_rw_ops \<Rightarrow> 'x word csr_rw_reg" where
  "misa_reg OPS = \<lparr>reg_ops = OPS, reg_fields = []\<rparr>"

definition mvendorid_reg :: "'x::len word csr_ro_ops \<Rightarrow> 'x word csr_ro_reg" where
  "mvendorid_reg OPS = \<lparr>ro_reg_ops = OPS\<rparr>"

definition marchid_reg :: "'x::len word csr_ro_ops \<Rightarrow> 'x word csr_ro_reg" where
  "marchid_reg OPS = \<lparr>ro_reg_ops = OPS\<rparr>"

definition mimpid_reg :: "'x::len word csr_ro_ops \<Rightarrow> 'x word csr_ro_reg" where
  "mimpid_reg OPS = \<lparr>ro_reg_ops = OPS\<rparr>"

definition mhartid_reg :: "'x::len word csr_ro_ops \<Rightarrow> 'x word csr_ro_reg" where
  "mhartid_reg OPS = \<lparr>ro_reg_ops = OPS\<rparr>"

definition mstatus_reg :: "'x::len word csr_rw_ops \<Rightarrow> 'x word csr_rw_reg" where
  "mstatus_reg OPS = \<lparr>reg_ops = OPS, reg_fields =
    [(''mie'', mstatus_data_mie), (''sie'', mstatus_data_sie), (''mpie'', mstatus_data_mpie),
     (''spie'', mstatus_data_spie), (''mprv'', mstatus_data_mprv), (''mpp'', mstatus_data_mpp),
     (''spp'', mstatus_data_spp)]\<rparr>"

definition mstatush_reg :: "'x::len word csr_rw_ops \<Rightarrow> 'x word csr_rw_reg" where
  "mstatush_reg OPS = \<lparr>reg_ops = OPS, reg_fields = []\<rparr>"

definition mtvec_reg :: "'x::len word csr_rw_ops \<Rightarrow> 'x word csr_rw_reg" where
  "mtvec_reg OPS = \<lparr>reg_ops = OPS, reg_fields =
    [(''base'', mtvec_data_base), (''mode'', mtvec_data_mode)]\<rparr>"

definition medeleg_reg :: "'x::len word csr_rw_ops \<Rightarrow> 'x word csr_rw_reg" where
  "medeleg_reg OPS = \<lparr>reg_ops = OPS, reg_fields = []\<rparr>"

definition mideleg_reg :: "'x::len word csr_rw_ops \<Rightarrow> 'x word csr_rw_reg" where
  "mideleg_reg OPS = \<lparr>reg_ops = OPS, reg_fields = []\<rparr>"

definition mip_reg :: "'x::len word csr_rw_ops \<Rightarrow> 'x word csr_rw_reg" where
  "mip_reg OPS = \<lparr>reg_ops = OPS, reg_fields =
    [(''msi'', mip_data_msi), (''mti'', mip_data_mti), (''mei'', mip_data_mei),
     (''ssi'', mip_data_ssi), (''sti'', mip_data_sti), (''sei'', mip_data_sei),
     (''usi'', mip_data_usi), (''uti'', mip_data_uti), (''uei'', mip_data_uei),
     (''platform_defined'', mip_data_platform_defined)]\<rparr>"

definition mie_reg :: "'x::len word csr_rw_ops \<Rightarrow> 'x word csr_rw_reg" where
  "mie_reg OPS = \<lparr>reg_ops = OPS, reg_fields =
    [(''msi'', mie_data_msi), (''mti'', mie_data_mti), (''mei'', mie_data_mei),
     (''ssi'', mie_data_ssi), (''sti'', mie_data_sti), (''sei'', mie_data_sei),
     (''usi'', mie_data_usi), (''uti'', mie_data_uti), (''uei'', mie_data_uei),
     (''platform_defined'', mie_data_platform_defined)]\<rparr>"

definition mcountinhibit_reg :: "'x::len word csr_rw_ops \<Rightarrow> 'x word csr_rw_reg" where
  "mcountinhibit_reg OPS = \<lparr>reg_ops = OPS, reg_fields =
    [(''cy'', mcountinhibit_data_cy), (''ir'', mcountinhibit_data_ir),
     (''hpm'', mcountinhibit_data_hpm)]\<rparr>"

definition mcycle_reg :: "'x::len word csr_rw_ops \<Rightarrow> 'x word csr_rw_reg" where
  "mcycle_reg OPS = \<lparr>reg_ops = OPS, reg_fields = []\<rparr>"

definition minstret_reg :: "'x::len word csr_rw_ops \<Rightarrow> 'x word csr_rw_reg" where
  "minstret_reg OPS = \<lparr>reg_ops = OPS, reg_fields = []\<rparr>"

definition mhpmcounter3_reg :: "'x::len word csr_rw_ops \<Rightarrow> 'x word csr_rw_reg" where
  "mhpmcounter3_reg OPS = \<lparr>reg_ops = OPS, reg_fields = []\<rparr>"

definition mhpmevent3_reg :: "'x::len word csr_rw_ops \<Rightarrow> 'x word csr_rw_reg" where
  "mhpmevent3_reg OPS = \<lparr>reg_ops = OPS, reg_fields = []\<rparr>"

definition mcounteren_reg :: "'x::len word csr_rw_ops \<Rightarrow> 'x word csr_rw_reg" where
  "mcounteren_reg OPS = \<lparr>reg_ops = OPS, reg_fields =
    [(''cy'', mcounteren_data_cy), (''tm'', mcounteren_data_tm), (''ir'', mcounteren_data_ir),
     (''hpm'', mcounteren_data_hpm)]\<rparr>"

definition scounteren_reg :: "'x::len word csr_rw_ops \<Rightarrow> 'x word csr_rw_reg" where
  "scounteren_reg OPS = \<lparr>reg_ops = OPS, reg_fields = []\<rparr>"

definition mscratch_reg :: "'x::len word csr_rw_ops \<Rightarrow> 'x word csr_rw_reg" where
  "mscratch_reg OPS = \<lparr>reg_ops = OPS, reg_fields = []\<rparr>"

definition mepc_reg :: "'x::len word csr_rw_ops \<Rightarrow> 'x word csr_rw_reg" where
  "mepc_reg OPS = \<lparr>reg_ops = OPS, reg_fields = []\<rparr>"

definition mcause_reg :: "'x::len word csr_rw_ops \<Rightarrow> 'x word csr_rw_reg" where
  "mcause_reg OPS = \<lparr>reg_ops = OPS, reg_fields =
    [(''interrupt'', mcause_data_interrupt), (''exception_code'', mcause_data_exception_code)]\<rparr>"

definition mtval_reg :: "'x::len word csr_rw_ops \<Rightarrow> 'x word csr_rw_reg" where
  "mtval_reg OPS = \<lparr>reg_ops = OPS, reg_fields = []\<rparr>"

definition sscratch_reg :: "'x::len word csr_rw_ops \<Rightarrow> 'x word csr_rw_reg" where
  "sscratch_reg OPS = \<lparr>reg_ops = OPS, reg_fields = []\<rparr>"

definition sepc_reg :: "'x::len word csr_rw_ops \<Rightarrow> 'x word csr_rw_reg" where
  "sepc_reg OPS = \<lparr>reg_ops = OPS, reg_fields = []\<rparr>"

definition scause_reg :: "'x::len word csr_rw_ops \<Rightarrow> 'x word csr_rw_reg" where
  "scause_reg OPS = \<lparr>reg_ops = OPS, reg_fields =
    [(''interrupt'', scause_data_interrupt), (''exception_code'', scause_data_exception_code)]\<rparr>"

definition sstatus_reg :: "'x::len word csr_rw_ops \<Rightarrow> 'x word csr_rw_reg" where
  "sstatus_reg OPS = \<lparr>reg_ops = OPS, reg_fields =
    [(''sie'', sstatus_data_sie), (''spie'', sstatus_data_spie), (''spp'', sstatus_data_spp)]\<rparr>"

definition stvec_reg :: "'x::len word csr_rw_ops \<Rightarrow> 'x word csr_rw_reg" where
  "stvec_reg OPS = \<lparr>reg_ops = OPS, reg_fields =
    [(''base'', stvec_data_base), (''mode'', stvec_data_mode)]\<rparr>"

definition sideleg_reg :: "'x::len word csr_rw_ops \<Rightarrow> 'x word csr_rw_reg" where
  "sideleg_reg OPS = \<lparr>reg_ops = OPS, reg_fields = []\<rparr>"

definition sedeleg_reg :: "'x::len word csr_rw_ops \<Rightarrow> 'x word csr_rw_reg" where
  "sedeleg_reg OPS = \<lparr>reg_ops = OPS, reg_fields = []\<rparr>"

definition sip_reg :: "'x::len word csr_rw_ops \<Rightarrow> 'x word csr_rw_reg" where
  "sip_reg OPS = \<lparr>reg_ops = OPS, reg_fields =
    [(''ssi'', sip_data_ssi), (''sti'', sip_data_sti), (''sei'', sip_data_sei),
     (''usi'', sip_data_usi), (''uti'', sip_data_uti), (''uei'', sip_data_uei)]\<rparr>"

definition sie_reg :: "'x::len word csr_rw_ops \<Rightarrow> 'x word csr_rw_reg" where
  "sie_reg OPS = \<lparr>reg_ops = OPS, reg_fields =
    [(''ssi'', sie_data_ssi), (''sti'', sie_data_sti), (''sei'', sie_data_sei),
     (''usi'', sie_data_usi), (''uti'', sie_data_uti), (''uei'', sie_data_uei)]\<rparr>"

definition ustatus_reg :: "'x::len word csr_rw_ops \<Rightarrow> 'x word csr_rw_reg" where
  "ustatus_reg OPS = \<lparr>reg_ops = OPS, reg_fields =
    [(''uie'', ustatus_data_uie), (''upie'', ustatus_data_upie)]\<rparr>"

definition uip_reg :: "'x::len word csr_rw_ops \<Rightarrow> 'x word csr_rw_reg" where
  "uip_reg OPS = \<lparr>reg_ops = OPS, reg_fields =
    [(''usi'', uip_data_usi), (''uti'', uip_data_uti), (''uei'', uip_data_uei)]\<rparr>"

definition uie_reg :: "'x::len word csr_rw_ops \<Rightarrow> 'x word csr_rw_reg" where
  "uie_reg OPS = \<lparr>reg_ops = OPS, reg_fields =
    [(''usi'', uie_data_usi), (''uti'', uie_data_uti), (''uei'', uie_data_uei)]\<rparr>"

definition uscratch_reg :: "'x::len word csr_rw_ops \<Rightarrow> 'x word csr_rw_reg" where
  "uscratch_reg OPS = \<lparr>reg_ops = OPS, reg_fields = []\<rparr>"

definition uepc_reg :: "'x::len word csr_rw_ops \<Rightarrow> 'x word csr_rw_reg" where
  "uepc_reg OPS = \<lparr>reg_ops = OPS, reg_fields = []\<rparr>"

definition ucause_reg :: "'x::len word csr_rw_ops \<Rightarrow> 'x word csr_rw_reg" where
  "ucause_reg OPS = \<lparr>reg_ops = OPS, reg_fields =
    [(''interrupt'', ucause_data_interrupt), (''exception_code'', ucause_data_exception_code)]\<rparr>"

definition utvec_reg :: "'x::len word csr_rw_ops \<Rightarrow> 'x word csr_rw_reg" where
  "utvec_reg OPS = \<lparr>reg_ops = OPS, reg_fields =
    [(''base'', utvec_data_base), (''mode'', utvec_data_mode)]\<rparr>"

definition utval_reg :: "'x::len word csr_rw_ops \<Rightarrow> 'x word csr_rw_reg" where
  "utval_reg OPS = \<lparr>reg_ops = OPS, reg_fields = []\<rparr>"

definition fflags_reg :: "'x::len word csr_rw_ops \<Rightarrow> 'x word csr_rw_reg" where
  "fflags_reg OPS = \<lparr>reg_ops = OPS, reg_fields = []\<rparr>"

definition frm_reg :: "'x::len word csr_rw_ops \<Rightarrow> 'x word csr_rw_reg" where
  "frm_reg OPS = \<lparr>reg_ops = OPS, reg_fields = []\<rparr>"

definition fcsr_reg :: "'x::len word csr_rw_ops \<Rightarrow> 'x word csr_rw_reg" where
  "fcsr_reg OPS = \<lparr>reg_ops = OPS, reg_fields = []\<rparr>"

definition cycle_reg :: "'x::len word csr_ro_ops \<Rightarrow> 'x word csr_ro_reg" where
  "cycle_reg OPS = \<lparr>ro_reg_ops = OPS\<rparr>"

definition time_reg :: "'x::len word csr_ro_ops \<Rightarrow> 'x word csr_ro_reg" where
  "time_reg OPS = \<lparr>ro_reg_ops = OPS\<rparr>"

definition instret_reg :: "'x::len word csr_ro_ops \<Rightarrow> 'x word csr_ro_reg" where
  "instret_reg OPS = \<lparr>ro_reg_ops = OPS\<rparr>"

definition hpmcounter3_reg :: "'x::len word csr_ro_ops \<Rightarrow> 'x word csr_ro_reg" where
  "hpmcounter3_reg OPS = \<lparr>ro_reg_ops = OPS\<rparr>"

definition hpmcounter4_reg :: "'x::len word csr_ro_ops \<Rightarrow> 'x word csr_ro_reg" where
  "hpmcounter4_reg OPS = \<lparr>ro_reg_ops = OPS\<rparr>"

definition hpmcounter31_reg :: "'x::len word csr_ro_ops \<Rightarrow> 'x word csr_ro_reg" where
  "hpmcounter31_reg OPS = \<lparr>ro_reg_ops = OPS\<rparr>"

definition cycleh_reg :: "'x::len word csr_ro_ops \<Rightarrow> 'x word csr_ro_reg" where
  "cycleh_reg OPS = \<lparr>ro_reg_ops = OPS\<rparr>"

definition timeh_reg :: "'x::len word csr_ro_ops \<Rightarrow> 'x word csr_ro_reg" where
  "timeh_reg OPS = \<lparr>ro_reg_ops = OPS\<rparr>"

definition instreth_reg :: "'x::len word csr_ro_ops \<Rightarrow> 'x word csr_ro_reg" where
  "instreth_reg OPS = \<lparr>ro_reg_ops = OPS\<rparr>"

definition hpmcounter3h_reg :: "'x::len word csr_ro_ops \<Rightarrow> 'x word csr_ro_reg" where
  "hpmcounter3h_reg OPS = \<lparr>ro_reg_ops = OPS\<rparr>"

definition hpmcounter4h_reg :: "'x::len word csr_ro_ops \<Rightarrow> 'x word csr_ro_reg" where
  "hpmcounter4h_reg OPS = \<lparr>ro_reg_ops = OPS\<rparr>"

definition hpmcounter31h_reg :: "'x::len word csr_ro_ops \<Rightarrow> 'x word csr_ro_reg" where
  "hpmcounter31h_reg OPS = \<lparr>ro_reg_ops = OPS\<rparr>"

definition stval_reg :: "'x::len word csr_rw_ops \<Rightarrow> 'x word csr_rw_reg" where
  "stval_reg OPS = \<lparr>reg_ops = OPS, reg_fields = []\<rparr>"

definition satp_reg :: "'x::len word csr_rw_ops \<Rightarrow> 'x word csr_rw_reg" where
  "satp_reg OPS = \<lparr>reg_ops = OPS, reg_fields = []\<rparr>"

definition hstatus_reg :: "'x::len word csr_rw_ops \<Rightarrow> 'x word csr_rw_reg" where
  "hstatus_reg OPS = \<lparr>reg_ops = OPS, reg_fields = []\<rparr>"

definition hedeleg_reg :: "'x::len word csr_rw_ops \<Rightarrow> 'x word csr_rw_reg" where
  "hedeleg_reg OPS = \<lparr>reg_ops = OPS, reg_fields = []\<rparr>"

definition hideleg_reg :: "'x::len word csr_rw_ops \<Rightarrow> 'x word csr_rw_reg" where
  "hideleg_reg OPS = \<lparr>reg_ops = OPS, reg_fields = []\<rparr>"

definition hcounteren_reg :: "'x::len word csr_rw_ops \<Rightarrow> 'x word csr_rw_reg" where
  "hcounteren_reg OPS = \<lparr>reg_ops = OPS, reg_fields = []\<rparr>"

definition hgatp_reg :: "'x::len word csr_rw_ops \<Rightarrow> 'x word csr_rw_reg" where
  "hgatp_reg OPS = \<lparr>reg_ops = OPS, reg_fields = []\<rparr>"

definition htimedelta_reg :: "'x::len word csr_rw_ops \<Rightarrow> 'x word csr_rw_reg" where
  "htimedelta_reg OPS = \<lparr>reg_ops = OPS, reg_fields = []\<rparr>"

definition htimedeltah_reg :: "'x::len word csr_rw_ops \<Rightarrow> 'x word csr_rw_reg" where
  "htimedeltah_reg OPS = \<lparr>reg_ops = OPS, reg_fields = []\<rparr>"

definition vsstatus_reg :: "'x::len word csr_rw_ops \<Rightarrow> 'x word csr_rw_reg" where
  "vsstatus_reg OPS = \<lparr>reg_ops = OPS, reg_fields = []\<rparr>"

definition vsie_reg :: "'x::len word csr_rw_ops \<Rightarrow> 'x word csr_rw_reg" where
  "vsie_reg OPS = \<lparr>reg_ops = OPS, reg_fields = []\<rparr>"

definition vstvec_reg :: "'x::len word csr_rw_ops \<Rightarrow> 'x word csr_rw_reg" where
  "vstvec_reg OPS = \<lparr>reg_ops = OPS, reg_fields = []\<rparr>"

definition vsscratch_reg :: "'x::len word csr_rw_ops \<Rightarrow> 'x word csr_rw_reg" where
  "vsscratch_reg OPS = \<lparr>reg_ops = OPS, reg_fields = []\<rparr>"

definition vsepc_reg :: "'x::len word csr_rw_ops \<Rightarrow> 'x word csr_rw_reg" where
  "vsepc_reg OPS = \<lparr>reg_ops = OPS, reg_fields = []\<rparr>"

definition vscause_reg :: "'x::len word csr_rw_ops \<Rightarrow> 'x word csr_rw_reg" where
  "vscause_reg OPS = \<lparr>reg_ops = OPS, reg_fields = []\<rparr>"

definition vstval_reg :: "'x::len word csr_rw_ops \<Rightarrow> 'x word csr_rw_reg" where
  "vstval_reg OPS = \<lparr>reg_ops = OPS, reg_fields = []\<rparr>"

definition vsip_reg :: "'x::len word csr_rw_ops \<Rightarrow> 'x word csr_rw_reg" where
  "vsip_reg OPS = \<lparr>reg_ops = OPS, reg_fields = []\<rparr>"

definition vsatp_reg :: "'x::len word csr_rw_ops \<Rightarrow> 'x word csr_rw_reg" where
  "vsatp_reg OPS = \<lparr>reg_ops = OPS, reg_fields = []\<rparr>"

definition mbase_reg :: "'x::len word csr_rw_ops \<Rightarrow> 'x word csr_rw_reg" where
  "mbase_reg OPS = \<lparr>reg_ops = OPS, reg_fields = []\<rparr>"

definition mbound_reg :: "'x::len word csr_rw_ops \<Rightarrow> 'x word csr_rw_reg" where
  "mbound_reg OPS = \<lparr>reg_ops = OPS, reg_fields = []\<rparr>"

definition mibase_reg :: "'x::len word csr_rw_ops \<Rightarrow> 'x word csr_rw_reg" where
  "mibase_reg OPS = \<lparr>reg_ops = OPS, reg_fields = []\<rparr>"

definition mibound_reg :: "'x::len word csr_rw_ops \<Rightarrow> 'x word csr_rw_reg" where
  "mibound_reg OPS = \<lparr>reg_ops = OPS, reg_fields = []\<rparr>"

definition mdbase_reg :: "'x::len word csr_rw_ops \<Rightarrow> 'x word csr_rw_reg" where
  "mdbase_reg OPS = \<lparr>reg_ops = OPS, reg_fields = []\<rparr>"

definition mdbound_reg :: "'x::len word csr_rw_ops \<Rightarrow> 'x word csr_rw_reg" where
  "mdbound_reg OPS = \<lparr>reg_ops = OPS, reg_fields = []\<rparr>"

definition pmpcfg0_reg :: "'x::len word csr_rw_ops \<Rightarrow> 'x word csr_rw_reg" where
  "pmpcfg0_reg OPS = \<lparr>reg_ops = OPS, reg_fields = []\<rparr>"

definition pmpcfg1_reg :: "'x::len word csr_rw_ops \<Rightarrow> 'x word csr_rw_reg" where
  "pmpcfg1_reg OPS = \<lparr>reg_ops = OPS, reg_fields = []\<rparr>"

definition pmpcfg2_reg :: "'x::len word csr_rw_ops \<Rightarrow> 'x word csr_rw_reg" where
  "pmpcfg2_reg OPS = \<lparr>reg_ops = OPS, reg_fields = []\<rparr>"

definition pmpcfg3_reg :: "'x::len word csr_rw_ops \<Rightarrow> 'x word csr_rw_reg" where
  "pmpcfg3_reg OPS = \<lparr>reg_ops = OPS, reg_fields = []\<rparr>"

definition pmpaddr0_reg :: "'x::len word csr_rw_ops \<Rightarrow> 'x word csr_rw_reg" where
  "pmpaddr0_reg OPS = \<lparr>reg_ops = OPS, reg_fields = []\<rparr>"

definition pmpaddr1_reg :: "'x::len word csr_rw_ops \<Rightarrow> 'x word csr_rw_reg" where
  "pmpaddr1_reg OPS = \<lparr>reg_ops = OPS, reg_fields = []\<rparr>"

definition pmpaddr15_reg :: "'x::len word csr_rw_ops \<Rightarrow> 'x word csr_rw_reg" where
  "pmpaddr15_reg OPS = \<lparr>reg_ops = OPS, reg_fields = []\<rparr>"

definition mhpmcounter4_reg :: "'x::len word csr_rw_ops \<Rightarrow> 'x word csr_rw_reg" where
  "mhpmcounter4_reg OPS = \<lparr>reg_ops = OPS, reg_fields = []\<rparr>"

definition mhpmcounter31_reg :: "'x::len word csr_rw_ops \<Rightarrow> 'x word csr_rw_reg" where
  "mhpmcounter31_reg OPS = \<lparr>reg_ops = OPS, reg_fields = []\<rparr>"

definition mcycleh_reg :: "'x::len word csr_rw_ops \<Rightarrow> 'x word csr_rw_reg" where
  "mcycleh_reg OPS = \<lparr>reg_ops = OPS, reg_fields = []\<rparr>"

definition minstreth_reg :: "'x::len word csr_rw_ops \<Rightarrow> 'x word csr_rw_reg" where
  "minstreth_reg OPS = \<lparr>reg_ops = OPS, reg_fields = []\<rparr>"

definition mhpmcounter3h_reg :: "'x::len word csr_rw_ops \<Rightarrow> 'x word csr_rw_reg" where
  "mhpmcounter3h_reg OPS = \<lparr>reg_ops = OPS, reg_fields = []\<rparr>"

definition mhpmcounter4h_reg :: "'x::len word csr_rw_ops \<Rightarrow> 'x word csr_rw_reg" where
  "mhpmcounter4h_reg OPS = \<lparr>reg_ops = OPS, reg_fields = []\<rparr>"

definition mhpmcounter31h_reg :: "'x::len word csr_rw_ops \<Rightarrow> 'x word csr_rw_reg" where
  "mhpmcounter31h_reg OPS = \<lparr>reg_ops = OPS, reg_fields = []\<rparr>"

definition mhpmevent4_reg :: "'x::len word csr_rw_ops \<Rightarrow> 'x word csr_rw_reg" where
  "mhpmevent4_reg OPS = \<lparr>reg_ops = OPS, reg_fields = []\<rparr>"

definition mhpmevent31_reg :: "'x::len word csr_rw_ops \<Rightarrow> 'x word csr_rw_reg" where
  "mhpmevent31_reg OPS = \<lparr>reg_ops = OPS, reg_fields = []\<rparr>"

definition tselect_reg :: "'x::len word csr_rw_ops \<Rightarrow> 'x word csr_rw_reg" where
  "tselect_reg OPS = \<lparr>reg_ops = OPS, reg_fields = []\<rparr>"

definition tdata1_reg :: "'x::len word csr_rw_ops \<Rightarrow> 'x word csr_rw_reg" where
  "tdata1_reg OPS = \<lparr>reg_ops = OPS, reg_fields = []\<rparr>"

definition tdata2_reg :: "'x::len word csr_rw_ops \<Rightarrow> 'x word csr_rw_reg" where
  "tdata2_reg OPS = \<lparr>reg_ops = OPS, reg_fields = []\<rparr>"

definition tdata3_reg :: "'x::len word csr_rw_ops \<Rightarrow> 'x word csr_rw_reg" where
  "tdata3_reg OPS = \<lparr>reg_ops = OPS, reg_fields = []\<rparr>"

definition dcsr_reg :: "'x::len word csr_rw_ops \<Rightarrow> 'x word csr_rw_reg" where
  "dcsr_reg OPS = \<lparr>reg_ops = OPS, reg_fields = []\<rparr>"

definition dpc_reg :: "'x::len word csr_rw_ops \<Rightarrow> 'x word csr_rw_reg" where
  "dpc_reg OPS = \<lparr>reg_ops = OPS, reg_fields = []\<rparr>"

definition dscratch0_reg :: "'x::len word csr_rw_ops \<Rightarrow> 'x word csr_rw_reg" where
  "dscratch0_reg OPS = \<lparr>reg_ops = OPS, reg_fields = []\<rparr>"

definition dscratch1_reg :: "'x::len word csr_rw_ops \<Rightarrow> 'x word csr_rw_reg" where
  "dscratch1_reg OPS = \<lparr>reg_ops = OPS, reg_fields = []\<rparr>"

definition hie_reg :: "'x::len word csr_rw_ops \<Rightarrow> 'x word csr_rw_reg" where
  "hie_reg OPS = \<lparr>reg_ops = OPS, reg_fields = []\<rparr>"

definition hgeie_reg :: "'x::len word csr_rw_ops \<Rightarrow> 'x word csr_rw_reg" where
  "hgeie_reg OPS = \<lparr>reg_ops = OPS, reg_fields = []\<rparr>"

definition htval_reg :: "'x::len word csr_rw_ops \<Rightarrow> 'x word csr_rw_reg" where
  "htval_reg OPS = \<lparr>reg_ops = OPS, reg_fields = []\<rparr>"

definition hip_reg :: "'x::len word csr_rw_ops \<Rightarrow> 'x word csr_rw_reg" where
  "hip_reg OPS = \<lparr>reg_ops = OPS, reg_fields = []\<rparr>"

definition htinst_reg :: "'x::len word csr_rw_ops \<Rightarrow> 'x word csr_rw_reg" where
  "htinst_reg OPS = \<lparr>reg_ops = OPS, reg_fields = []\<rparr>"

definition hgeip_reg :: "'x::len word csr_ro_ops \<Rightarrow> 'x word csr_ro_reg" where
  "hgeip_reg OPS = \<lparr>ro_reg_ops = OPS\<rparr>"

definition mtinst_reg :: "'x::len word csr_rw_ops \<Rightarrow> 'x word csr_rw_reg" where
  "mtinst_reg OPS = \<lparr>reg_ops = OPS, reg_fields = []\<rparr>"

definition mtval2_reg :: "'x::len word csr_rw_ops \<Rightarrow> 'x word csr_rw_reg" where
  "mtval2_reg OPS = \<lparr>reg_ops = OPS, reg_fields = []\<rparr>"

datatype 'v csr_reg = RW "'v csr_rw_reg" | RO "'v csr_ro_reg"

definition csr_all :: "(string \<times> 'x::len word csr_reg) list" where
  "csr_all =
    [(''misa'', RW (misa_reg misa_ops)), (''mvendorid'', RO (mvendorid_reg mvendorid_ops)),
     (''marchid'', RO (marchid_reg marchid_ops)), (''mimpid'', RO (mimpid_reg mimpid_ops)),
     (''mhartid'', RO (mhartid_reg mhartid_ops)), (''mstatus'', RW (mstatus_reg mstatus_ops)),
     (''mstatush'', RW (mstatush_reg mstatush_ops)), (''mtvec'', RW (mtvec_reg mtvec_ops)),
     (''medeleg'', RW (medeleg_reg medeleg_ops)), (''mideleg'', RW (mideleg_reg mideleg_ops)),
     (''mip'', RW (mip_reg mip_ops)), (''mie'', RW (mie_reg mie_ops)),
     (''mcountinhibit'', RW (mcountinhibit_reg mcountinhibit_ops)),
     (''mcycle'', RW (mcycle_reg mcycle_ops)), (''minstret'', RW (minstret_reg minstret_ops)),
     (''mhpmcounter3'', RW (mhpmcounter3_reg mhpmcounter3_ops)),
     (''mhpmevent3'', RW (mhpmevent3_reg mhpmevent3_ops)),
     (''mcounteren'', RW (mcounteren_reg mcounteren_ops)),
     (''scounteren'', RW (scounteren_reg scounteren_ops)),
     (''mscratch'', RW (mscratch_reg mscratch_ops)), (''mepc'', RW (mepc_reg mepc_ops)),
     (''mcause'', RW (mcause_reg mcause_ops)), (''mtval'', RW (mtval_reg mtval_ops)),
     (''sscratch'', RW (sscratch_reg sscratch_ops)), (''sepc'', RW (sepc_reg sepc_ops)),
     (''scause'', RW (scause_reg scause_ops)), (''sstatus'', RW (sstatus_reg sstatus_ops)),
     (''stvec'', RW (stvec_reg stvec_ops)), (''sideleg'', RW (sideleg_reg sideleg_ops)),
     (''sedeleg'', RW (sedeleg_reg sedeleg_ops)), (''sip'', RW (sip_reg sip_ops)),
     (''sie'', RW (sie_reg sie_ops)), (''ustatus'', RW (ustatus_reg ustatus_ops)),
     (''uip'', RW (uip_reg uip_ops)), (''uie'', RW (uie_reg uie_ops)),
     (''uscratch'', RW (uscratch_reg uscratch_ops)), (''uepc'', RW (uepc_reg uepc_ops)),
     (''ucause'', RW (ucause_reg ucause_ops)), (''utvec'', RW (utvec_reg utvec_ops)),
     (''utval'', RW (utval_reg utval_ops)), (''fflags'', RW (fflags_reg fflags_ops)),
     (''frm'', RW (frm_reg frm_ops)), (''fcsr'', RW (fcsr_reg fcsr_ops)),
     (''cycle'', RO (cycle_reg cycle_ops)), (''time'', RO (time_reg time_ops)),
     (''instret'', RO (instret_reg instret_ops)),
     (''hpmcounter3'', RO (hpmcounter3_reg hpmcounter3_ops)),
     (''hpmcounter4'', RO (hpmcounter4_reg hpmcounter4_ops)),
     (''hpmcounter31'', RO (hpmcounter31_reg hpmcounter31_ops)),
     (''cycleh'', RO (cycleh_reg cycleh_ops)), (''timeh'', RO (timeh_reg timeh_ops)),
     (''instreth'', RO (instreth_reg instreth_ops)),
     (''hpmcounter3h'', RO (hpmcounter3h_reg hpmcounter3h_ops)),
     (''hpmcounter4h'', RO (hpmcounter4h_reg hpmcounter4h_ops)),
     (''hpmcounter31h'', RO (hpmcounter31h_reg hpmcounter31h_ops)),
     (''stval'', RW (stval_reg stval_ops)), (''satp'', RW (satp_reg satp_ops)),
     (''hstatus'', RW (hstatus_reg hstatus_ops)), (''hedeleg'', RW (hedeleg_reg hedeleg_ops)),
     (''hideleg'', RW (hideleg_reg hideleg_ops)),
     (''hcounteren'', RW (hcounteren_reg hcounteren_ops)),
     (''hgatp'', RW (hgatp_reg hgatp_ops)),
     (''htimedelta'', RW (htimedelta_reg htimedelta_ops)),
     (''htimedeltah'', RW (htimedeltah_reg htimedeltah_ops)),
     (''vsstatus'', RW (vsstatus_reg vsstatus_ops)), (''vsie'', RW (vsie_reg vsie_ops)),
     (''vstvec'', RW (vstvec_reg vstvec_ops)),
     (''vsscratch'', RW (vsscratch_reg vsscratch_ops)), (''vsepc'', RW (vsepc_reg vsepc_ops)),
     (''vscause'', RW (vscause_reg vscause_ops)), (''vstval'', RW (vstval_reg vstval_ops)),
     (''vsip'', RW (vsip_reg vsip_ops)), (''vsatp'', RW (vsatp_reg vsatp_ops)),
     (''mbase'', RW (mbase_reg mbase_ops)), (''mbound'', RW (mbound_reg mbound_ops)),
     (''mibase'', RW (mibase_reg mibase_ops)), (''mibound'', RW (mibound_reg mibound_ops)),
     (''mdbase'', RW (mdbase_reg mdbase_ops)), (''mdbound'', RW (mdbound_reg mdbound_ops)),
     (''pmpcfg0'', RW (pmpcfg0_reg pmpcfg0_ops)), (''pmpcfg1'', RW (pmpcfg1_reg pmpcfg1_ops)),
     (''pmpcfg2'', RW (pmpcfg2_reg pmpcfg2_ops)), (''pmpcfg3'', RW (pmpcfg3_reg pmpcfg3_ops)),
     (''pmpaddr0'', RW (pmpaddr0_reg pmpaddr0_ops)),
     (''pmpaddr1'', RW (pmpaddr1_reg pmpaddr1_ops)),
     (''pmpaddr15'', RW (pmpaddr15_reg pmpaddr15_ops)),
     (''mhpmcounter4'', RW (mhpmcounter4_reg mhpmcounter4_ops)),
     (''mhpmcounter31'', RW (mhpmcounter31_reg mhpmcounter31_ops)),
     (''mcycleh'', RW (mcycleh_reg mcycleh_ops)),
     (''minstreth'', RW (minstreth_reg minstreth_ops)),
     (''mhpmcounter3h'', RW (mhpmcounter3h_reg mhpmcounter3h_ops)),
     (''mhpmcounter4h'', RW (mhpmcounter4h_reg mhpmcounter4h_ops)),
     (''mhpmcounter31h'', RW (mhpmcounter31h_reg mhpmcounter31h_ops)),
     (''mhpmevent4'', RW (mhpmevent4_reg mhpmevent4_ops)),
     (''mhpmevent31'', RW (mhpmevent31_reg mhpmevent31_ops)),
     (''tselect'', RW (tselect_reg tselect_ops)), (''tdata1'', RW (tdata1_reg tdata1_ops)),
     (''tdata2'', RW (tdata2_reg tdata2_ops)), (''tdata3'', RW (tdata3_reg tdata3_ops)),
     (''dcsr'', RW (dcsr_reg dcsr_ops)), (''dpc'', RW (dpc_reg dpc_ops)),
     (''dscratch0'', RW (dscratch0_reg dscratch0_ops)),
     (''dscratch1'', RW (dscratch1_reg dscratch1_ops)), (''hie'', RW (hie_reg hie_ops)),
     (''hgeie'', RW (hgeie_reg hgeie_ops)), (''htval'', RW (htval_reg htval_ops)),
     (''hip'', RW (hip_reg hip_ops)), (''htinst'', RW (htinst_reg htinst_ops)),
     (''hgeip'', RO (hgeip_reg hgeip_ops)), (''mtinst'', RW (mtinst_reg mtinst_ops)),
     (''mtval2'', RW (mtval2_reg mtval2_ops))]"

lemmas reg_defs =
  misa_reg_def mvendorid_reg_def marchid_reg_def mimpid_reg_def mhartid_reg_def
  mstatus_reg_def mstatush_reg_def mtvec_reg_def medeleg_reg_def mideleg_reg_def
  mip_reg_def mie_reg_def mcountinhibit_reg_def mcycle_reg_def minstret_reg_def
  mhpmcounter3_reg_def mhpmevent3_reg_def mcounteren_reg_def scounteren_reg_def
  mscratch_reg_def mepc_reg_def mcause_reg_def mtval_reg_def sscratch_reg_def
  sepc_reg_def scause_reg_def sstatus_reg_def stvec_reg_def sideleg_reg_def
  sedeleg_reg_def sip_reg_def sie_reg_def ustatus_reg_def uip_reg_def uie_reg_def
  uscratch_reg_def uepc_reg_def ucause_reg_def utvec_reg_def utval_reg_def
  fflags_reg_def frm_reg_def fcsr_reg_def cycle_reg_def time_reg_def instret_reg_def
  hpmcounter3_reg_def hpmcounter4_reg_def hpmcounter31_reg_def cycleh_reg_def
  timeh_reg_def instreth_reg_def hpmcounter3h_reg_def hpmcounter4h_reg_def
  hpmcounter31h_reg_def stval_reg_def satp_reg_def hstatus_reg_def hedeleg_reg_def
  hideleg_reg_def hcounteren_reg_def hgatp_reg_def htimedelta_reg_def
  htimedeltah_reg_def vsstatus_reg_def vsie_reg_def vstvec_reg_def vsscratch_reg_def
  vsepc_reg_def vscause_reg_def vstval_reg_def vsip_reg_def vsatp_reg_def mbase_reg_def
  mbound_reg_def mibase_reg_def mibound_reg_def mdbase_reg_def mdbound_reg_def
  pmpcfg0_reg_def pmpcfg1_reg_def pmpcfg2_reg_def pmpcfg3_reg_def pmpaddr0_reg_def
  pmpaddr1_reg_def pmpaddr15_reg_def mhpmcounter4_reg_def mhpmcounter31_reg_def
  mcycleh_reg_def minstreth_reg_def mhpmcounter3h_reg_def mhpmcounter4h_reg_def
  mhpmcounter31h_reg_def mhpmevent4_reg_def mhpmevent31_reg_def tselect_reg_def
  tdata1_reg_def tdata2_reg_def tdata3_reg_def dcsr_reg_def dpc_reg_def
  dscratch0_reg_def dscratch1_reg_def hie_reg_def hgeie_reg_def htval_reg_def
  hip_reg_def htinst_reg_def hgeip_reg_def mtinst_reg_def mtval2_reg_def

end
