(* ===== verification/Csr_Correct.thy ===== *)
theory Csr_Correct
  imports Csr_Regs
begin

text \<open>
  What the accessors of \<open>include/riscv/riscv-csr.hpp\<close> do: the effect of every method of an
  \<open>ops\<close> structure on the hart, the agreement of the immediate and the register forms, the
  fields as bit ranges, and the tables of registers and fields.
\<close>

section \<open>Operations on a register\<close>

text \<open>Register \<open>d\<close> shares nothing with register \<open>c\<close>: a write to \<open>c\<close> leaves it.\<close>

definition csr_leaves :: "'v hart \<Rightarrow> string \<Rightarrow> string \<Rightarrow> bool" where
  "csr_leaves h c d \<longleftrightarrow> (\<forall>file x. csr_views h c file d x = x)"

lemma csr_store_simps [simp]:
  "csr_file (csr_store c v h) c = Some v"
  "csr_legal (csr_store c v h) = csr_legal h"
  "csr_views (csr_store c v h) = csr_views h"
  "wfi_log (csr_store c v h) = wfi_log h"
  "csr_leaves (csr_store c v h) = csr_leaves h"
  "dom (csr_file (csr_store c v h)) = insert c (dom (csr_file h))"
  by (auto simp: csr_store_def csr_leaves_def fun_eq_iff Let_def)

lemma csr_store_other: "csr_leaves h c d \<Longrightarrow> d \<noteq> c \<Longrightarrow> csr_file (csr_store c v h) d = csr_file h d"
  by (cases "csr_file h d") (auto simp: csr_store_def csr_leaves_def Let_def)

lemma csr_put_eq: "csr_file h c = Some old \<Longrightarrow> csr_put c v h = Some (csr_store c (csr_legal h c old v) h)"
  by (simp add: csr_put_def)


lemmas zicsr_defs = csrr_def csrrw_def csrrs_def csrrc_def csrw_def csrrwi_def csrwi_def
  csrrsi_def csrrci_def to_ret_def no_ret_def

lemmas reg_method_defs = reg_read_def reg_or_assign_def reg_write_def reg_write_const_def reg_set_def
  reg_set_const_def reg_clr_def reg_clr_const_def reg_read_write_def reg_read_write_const_def
  reg_read_set_bits_def reg_read_set_bits_const_def reg_read_clr_bits_def
  reg_read_clr_bits_const_def

lemma imm_mask: "(CSR_IMM_OP_MASK :: 'x::len word) = mask 5"
  by (simp add: CSR_IMM_OP_MASK_def mask_eq_exp_minus_1)

lemma fits_imm_iff: "fits_imm v \<longleftrightarrow> take_bit 5 v = v"
  by (simp add: fits_imm_def imm_mask take_bit_eq_mask)

lemma fits_imm_uimm: "fits_imm v \<Longrightarrow> uimm v = Some v"
  by (simp add: fits_imm_iff uimm_def)

lemma fits_imm_take_bit: "fits_imm v \<Longrightarrow> 5 \<le> n \<Longrightarrow> take_bit n v = v"
  by (metis fits_imm_iff min.absorb2 take_bit_take_bit)

lemma fits_imm_convert [simp]:
  "fits_imm v \<Longrightarrow> to_csr_type t v = v"
  "fits_imm v \<Longrightarrow> to_uint8 v = v"
  by (cases t) (simp_all add: to_uint8_def fits_imm_take_bit)

lemma to_csr_type_idem [simp]: "to_csr_type t (to_csr_type t v) = to_csr_type t v"
  by (cases t) simp_all

text \<open>Reading and writing; the constant forms write what the register forms write.\<close>

lemma rw_read:
  "csr_file h c = Some v \<Longrightarrow> op_read (rw_ops t p c) h = Some (to_csr_type t v, h)"
  by (simp add: rw_ops_def zicsr_defs)

lemma ro_read:
  "csr_file h c = Some v \<Longrightarrow> op_read (ro_ops t p c) h = Some (to_csr_type t v, h)"
  by (simp add: ro_ops_def zicsr_defs)

lemma rw_write:
  "csr_file h c = Some old \<Longrightarrow>
     op_write (rw_ops t p c) v h = Some (csr_store c (csr_legal h c old (to_csr_type t v)) h)"
  by (simp add: rw_ops_def zicsr_defs csr_put_eq)

lemma rw_read_write:
  "csr_file h c = Some old \<Longrightarrow>
     op_read_write (rw_ops t p c) v h =
       Some (to_csr_type t old, csr_store c (csr_legal h c old (to_csr_type t v)) h)"
  by (simp add: rw_ops_def zicsr_defs csr_put_eq)

lemma rw_set_bits:
  "csr_file h c = Some old \<Longrightarrow>
     op_set_bits (rw_ops t p c) m h = Some (csr_store c (csr_legal h c old (old OR to_csr_type t m)) h)"
  by (simp add: rw_ops_def zicsr_defs csr_put_eq)

lemma rw_clr_bits:
  "csr_file h c = Some old \<Longrightarrow>
     op_clr_bits (rw_ops t p c) m h = Some (csr_store c (csr_legal h c old (old AND NOT (to_csr_type t m))) h)"
  by (simp add: rw_ops_def zicsr_defs csr_put_eq)

lemma rw_read_set_bits:
  "csr_file h c = Some old \<Longrightarrow>
     op_read_set_bits (rw_ops t p c) m h =
       Some (take_bit 32 old, csr_store c (csr_legal h c old (old OR to_csr_type t m)) h)"
  by (simp add: rw_ops_def zicsr_defs csr_put_eq to_uint32_def)

lemma rw_read_clr_bits:
  "csr_file h c = Some old \<Longrightarrow>
     op_read_clr_bits (rw_ops t p c) m h =
       Some (take_bit 32 old, csr_store c (csr_legal h c old (old AND NOT (to_csr_type t m))) h)"
  by (simp add: rw_ops_def zicsr_defs csr_put_eq to_uint32_def)

lemma rw_reads_None:
  assumes "csr_file h c = None"
  shows "op_read_set_bits (rw_ops t p c) m h = None" "op_read_clr_bits (rw_ops t p c) m h = None"
    "op_read_set_bits_imm (rw_ops t p c) m h = None" "op_read_clr_bits_imm (rw_ops t p c) m h = None"
  using assms by (auto simp: rw_ops_def zicsr_defs split: Option.bind_splits)

lemmas rw_methods = rw_read rw_write rw_read_write rw_set_bits rw_clr_bits rw_read_set_bits
  rw_read_clr_bits

text \<open>
  Immediate forms. A hart holds a legal value in \<open>c\<close> when writing it back changes nothing: that
  is the only difference between the two forms, and only for the mask 0.
\<close>

definition holds_legal :: "'x::len word hart \<Rightarrow> string \<Rightarrow> bool" where
  "holds_legal h c = (case csr_file h c of None \<Rightarrow> True | Some v \<Rightarrow> csr_legal h c v v = v \<and> csr_store c v h = h)"

lemma write_imm_eq: "fits_imm v \<Longrightarrow> op_write_imm (rw_ops t p c) v h = op_write (rw_ops t p c) v h"
  by (simp add: rw_ops_def zicsr_defs fits_imm_uimm)

lemma read_write_imm_eq:
  "fits_imm v \<Longrightarrow> op_read_write_imm (rw_ops t p c) v h = op_read_write (rw_ops t p c) v h"
  by (simp add: rw_ops_def zicsr_defs fits_imm_uimm)

lemma set_bits_imm_eq:
  "fits_imm m \<Longrightarrow> holds_legal h c \<Longrightarrow> op_set_bits_imm (rw_ops t p c) m h = op_set_bits (rw_ops t p c) m h"
  by (cases "csr_file h c")
    (simp_all add: rw_ops_def zicsr_defs fits_imm_uimm csr_put_eq holds_legal_def)

lemma clr_bits_imm_eq:
  "fits_imm m \<Longrightarrow> holds_legal h c \<Longrightarrow> op_clr_bits_imm (rw_ops t p c) m h = op_clr_bits (rw_ops t p c) m h"
  by (cases "csr_file h c")
    (simp_all add: rw_ops_def zicsr_defs fits_imm_uimm csr_put_eq holds_legal_def)

lemma read_set_bits_imm:
  "fits_imm m \<Longrightarrow> holds_legal h c \<Longrightarrow> csr_file h c = Some old \<Longrightarrow>
     op_read_set_bits_imm (rw_ops t p c) m h =
       Some (to_csr_type t old, csr_store c (csr_legal h c old (old OR m)) h)"
  by (simp add: rw_ops_def zicsr_defs fits_imm_uimm csr_put_eq holds_legal_def)

lemma read_clr_bits_imm:
  "fits_imm m \<Longrightarrow> holds_legal h c \<Longrightarrow> csr_file h c = Some old \<Longrightarrow>
     op_read_clr_bits_imm (rw_ops t p c) m h =
       Some (to_csr_type t old, csr_store c (csr_legal h c old (old AND NOT m)) h)"
  by (simp add: rw_ops_def zicsr_defs fits_imm_uimm csr_put_eq holds_legal_def)

text \<open>
  The constant forms that also read: the effect is that of the register forms, the value is the
  old one in the data type of the structure, not its low 32 bits.
\<close>

lemma to_csr_type_uint32: "to_csr_type t (take_bit 32 v) = take_bit 32 v"
  by (cases t) simp_all

lemma const_read_forms:
  fixes v :: "'x::len word"
  assumes "holds_legal h c"
  shows "map_option snd (reg_read_set_bits_const (rw_ops t p c) v h) = map_option snd (reg_read_set_bits (rw_ops t p c) v h)"
    and "map_option snd (reg_read_clr_bits_const (rw_ops t p c) v h) = map_option snd (reg_read_clr_bits (rw_ops t p c) v h)"
    and "LENGTH('x) \<le> 32 \<Longrightarrow> reg_read_set_bits_const (rw_ops t p c) v h = reg_read_set_bits (rw_ops t p c) v h"
    and "LENGTH('x) \<le> 32 \<Longrightarrow> reg_read_clr_bits_const (rw_ops t p c) v h = reg_read_clr_bits (rw_ops t p c) v h"
    and "fits_imm v \<Longrightarrow> map_option fst (reg_read_set_bits_const (rw_ops t p c) v h) = map_option (to_csr_type t) (csr_file h c)"
    and "fits_imm v \<Longrightarrow> map_option fst (reg_read_clr_bits_const (rw_ops t p c) v h) = map_option (to_csr_type t) (csr_file h c)"
proof -
  have ty: "ops_type (rw_ops t p c :: 'x word csr_rw_ops) = t" by (simp add: rw_ops_def)
  note defs = reg_method_defs to_ret_def ty rw_methods to_csr_type_uint32
  show "map_option snd (reg_read_set_bits_const (rw_ops t p c) v h) = map_option snd (reg_read_set_bits (rw_ops t p c) v h)"
    "map_option snd (reg_read_clr_bits_const (rw_ops t p c) v h) = map_option snd (reg_read_clr_bits (rw_ops t p c) v h)"
    "fits_imm v \<Longrightarrow> map_option fst (reg_read_set_bits_const (rw_ops t p c) v h) = map_option (to_csr_type t) (csr_file h c)"
    "fits_imm v \<Longrightarrow> map_option fst (reg_read_clr_bits_const (rw_ops t p c) v h) = map_option (to_csr_type t) (csr_file h c)"
    by (cases "csr_file h c"; use assms in \<open>simp add: defs read_set_bits_imm read_clr_bits_imm rw_reads_None\<close>)+
  have "take_bit 32 w = w" if "LENGTH('x) \<le> 32" for w :: "'x word"
    using that by (simp add: take_bit_word_eq_self)
  moreover from this have "to_csr_type t w = w" if "LENGTH('x) \<le> 32" for w :: "'x word"
    using that by (cases t) simp_all
  ultimately show "LENGTH('x) \<le> 32 \<Longrightarrow> reg_read_set_bits_const (rw_ops t p c) v h = reg_read_set_bits (rw_ops t p c) v h"
    "LENGTH('x) \<le> 32 \<Longrightarrow> reg_read_clr_bits_const (rw_ops t p c) v h = reg_read_clr_bits (rw_ops t p c) v h"
    by (cases "csr_file h c"; use assms in \<open>simp add: defs read_set_bits_imm read_clr_bits_imm rw_reads_None\<close>)+
qed

section \<open>Fields\<close>

text \<open>The constants describe the bits \<open>BIT_OFFSET\<close> to \<open>BIT_OFFSET + BIT_WIDTH - 1\<close>.\<close>

definition field_ok :: "'x::len word csr_field \<Rightarrow> bool" where
  "field_ok F \<longleftrightarrow> 0 < BIT_WIDTH F \<and> BIT_OFFSET F + BIT_WIDTH F \<le> LENGTH('x) \<and>
     BIT_MASK F = push_bit (BIT_OFFSET F) (mask (BIT_WIDTH F)) \<and>
     ALL_SET_MASK F = mask (BIT_WIDTH F)"

lemma field_of_new_value:
  assumes "field_ok F" and "to_csr_type (ops_type C) v = v"
  shows "field_of F (field_new_value C F v org) = take_bit (BIT_WIDTH F) v"
  using assms
  by (intro bit_word_eqI)
    (auto simp: field_of_def field_new_value_def field_ok_def bit_simps)

lemma new_value_frame: "field_new_value C F v org AND NOT (BIT_MASK F) = org AND NOT (BIT_MASK F)"
  by (intro bit_word_eqI) (auto simp: field_new_value_def bit_simps)

text \<open>A field of which the hart keeps every value written.\<close>

definition keeps_field :: "'x::len word hart \<Rightarrow> string \<Rightarrow> 'x word csr_field \<Rightarrow> bool" where
  "keeps_field h c F \<longleftrightarrow> (\<forall>old n. csr_legal h c old n AND BIT_MASK F = n AND BIT_MASK F)"

lemma to_csr_type_and:
  assumes "to_csr_type t M = M"
  shows "to_csr_type t n AND M = n AND M"
proof (cases t)
  case uint_csr32_t
  with assms have "take_bit 32 M = M" by simp
  then have "n AND M = n AND take_bit 32 M" by simp
  with uint_csr32_t \<open>take_bit 32 M = M\<close> show ?thesis
    by (metis to_csr_type.simps(2) take_bit_eq_mask and.assoc and.commute)
qed simp_all

lemma field_of_and: "a AND BIT_MASK F = b AND BIT_MASK F \<Longrightarrow> field_of F a = field_of F b"
  by (simp add: field_of_def)

lemma field_write_eq:
  "csr_file h c = Some old \<Longrightarrow> field_write (rw_ops t p c) F v h =
     Some (csr_store c (csr_legal h c old
       (to_csr_type t (field_new_value (rw_ops t p c) F v (to_csr_type t old)))) h)"
  by (simp add: field_write_def rw_methods)

lemma field_read_eq:
  "csr_file h c = Some old \<Longrightarrow> to_csr_type t (BIT_MASK F) = BIT_MASK F \<Longrightarrow>
     field_read (rw_ops t p c) F h = Some (field_of F old, h)"
  by (simp add: field_read_def rw_methods) (rule field_of_and, rule to_csr_type_and)

lemma ops_type_rw [simp]: "ops_type (rw_ops t p c) = t"
  by (simp add: rw_ops_def)

lemma field_write_read:
  assumes "csr_file h c = Some old" and "field_ok F" and "keeps_field h c F"
    and M: "to_csr_type t (BIT_MASK F) = BIT_MASK F" and "to_csr_type t v = v"
  shows "\<exists>h'. field_write (rw_ops t p c) F v h = Some h' \<and>
    field_read (rw_ops t p c) F h' = Some (take_bit (BIT_WIDTH F) v, h') \<and>
    (\<forall>d. d \<noteq> c \<and> csr_leaves h c d \<longrightarrow> csr_file h' d = csr_file h d)"
proof -
  let ?n = "field_new_value (rw_ops t p c) F v (to_csr_type t old)"
  let ?s = "csr_legal h c old (to_csr_type t ?n)"
  have "?s AND BIT_MASK F = ?n AND BIT_MASK F"
    using assms(3) to_csr_type_and [OF M] by (simp add: keeps_field_def)
  then have "field_of F ?s = field_of F ?n" by (rule field_of_and)
  then have "field_of F ?s = take_bit (BIT_WIDTH F) v"
    using field_of_new_value [OF assms(2), of "rw_ops t p c" v] assms(5) by simp
  then show ?thesis
    using field_write_eq [OF assms(1), of t p F v] M by (simp add: field_read_eq csr_store_other)
qed

lemma and_not_disjoint:
  fixes a b :: "'x::len word"
  assumes "a AND b = 0"
  shows "b AND NOT a = b"
proof (rule bit_word_eqI)
  fix n
  assume "n < LENGTH('x)"
  then show "bit (b AND NOT a) n \<longleftrightarrow> bit b n"
    using arg_cong [OF assms, of "\<lambda>w. bit w n"] by (auto simp: bit_simps)
qed

text \<open>A write of one field leaves the others alone.\<close>

lemma field_write_other:
  assumes "csr_file h c = Some old" and "keeps_field h c G" and "BIT_MASK F AND BIT_MASK G = 0"
    and M: "to_csr_type t (BIT_MASK G) = BIT_MASK G"
  shows "\<exists>h'. field_write (rw_ops t p c) F v h = Some h' \<and>
    map_option fst (field_read (rw_ops t p c) G h') = map_option fst (field_read (rw_ops t p c) G h)"
proof -
  let ?n = "field_new_value (rw_ops t p c) F v (to_csr_type t old)"
  let ?s = "csr_legal h c old (to_csr_type t ?n)"
  have G: "BIT_MASK G AND NOT (BIT_MASK F) = BIT_MASK G"
    using assms(3) by (rule and_not_disjoint)
  have "?s AND BIT_MASK G = ?n AND BIT_MASK G"
    using assms(2) to_csr_type_and [OF M] by (simp add: keeps_field_def)
  also have "\<dots> = (?n AND NOT (BIT_MASK F)) AND BIT_MASK G"
    using G by (metis and.assoc and.commute)
  also have "\<dots> = old AND BIT_MASK G"
    unfolding new_value_frame using G to_csr_type_and [OF M] by (metis and.assoc and.commute)
  finally have "field_of G ?s = field_of G old" by (rule field_of_and)
  then show ?thesis
    using field_write_eq [OF assms(1), of t p F v] M assms(1) by (simp add: field_read_eq)
qed

text \<open>Setting and clearing a field.\<close>

section \<open>The tables\<close>

text \<open>Every member of \<open>all\<close> is built on the operations of the register it is named after.\<close>

definition reg_of_name :: "string \<times> 'x::len word csr_reg \<Rightarrow> bool" where
  "reg_of_name x \<longleftrightarrow> (case snd x of
     RW r \<Rightarrow> (\<exists>t p. reg_ops r = rw_ops t p (fst x))
   | RO r \<Rightarrow> (\<exists>t p. ro_reg_ops r = ro_ops t p (fst x)))"

lemma ops_self: "\<exists>t' p'. rw_ops t p c = rw_ops t' p' c" "\<exists>t' p'. ro_ops t p c = ro_ops t' p' c"
  by blast+

lemma csr_all_names: "list_all reg_of_name csr_all"
  unfolding csr_all_def
  by (simp add: reg_of_name_def reg_defs rw_ops_defs ro_ops_defs ops_self)


text \<open>The fields of all registers, with the names of register and field.\<close>

definition all_fields :: "(string \<times> string \<times> 'x::len word csr_field) list" where
  "all_fields = concat (map (\<lambda>x. case snd x of
     RW r \<Rightarrow> map (\<lambda>f. (fst x, fst f, snd f)) (reg_fields r) | RO r \<Rightarrow> []) csr_all)"

definition wrong_fields :: "(string \<times> string \<times> 'x::len word csr_field) list \<Rightarrow> (string \<times> string) list" where
  "wrong_fields fs = map (\<lambda>(r, f, F). (r, f)) (filter (\<lambda>(r, f, F). \<not> field_ok F) fs)"

lemmas table_defs = csr_all_def reg_defs field_defs

section \<open>Properties\<close>

lemma csr_all_rw:
  assumes "(c, RW r) \<in> set csr_all"
  shows "\<exists>t p. reg_ops r = rw_ops t p c"
  using csr_all_names assms by (force simp: list_all_iff reg_of_name_def)


lemma to_csr_type_rv32 [simp]: "to_csr_type t (v :: 32 word) = v"
  by (cases t) (simp_all add: take_bit_word_eq_self)

lemma mscratch_in_csr_all: "(''mscratch'', RW (mscratch_reg mscratch_ops)) \<in> set csr_all"
  by (simp add: csr_all_def)

lemma mstatus_in_csr_all: "(''mstatus'', RW (mstatus_reg mstatus_ops)) \<in> set csr_all"
  by (simp add: csr_all_def)

text \<open>A hart that stores what is written, without registers that share bits, for the witnesses.\<close>

definition plain_hart :: "(string \<times> 'x::len word) list \<Rightarrow> 'x word hart" where
  "plain_hart rs = \<lparr>csr_file = map_of rs, csr_legal = (\<lambda>c old n. n),
     csr_views = (\<lambda>c file d x. x), wfi_log = []\<rparr>"

lemma plain_hart_simps [simp]:
  "csr_file (plain_hart rs) = map_of rs" "csr_legal (plain_hart rs) c old n = n"
  "keeps_field (plain_hart rs) c F" "csr_leaves (plain_hart rs) c d" "wfi_log (plain_hart rs) = []"
  by (simp_all add: plain_hart_def keeps_field_def csr_leaves_def)

lemma plain_hart_store: "csr_store c v (plain_hart rs) = plain_hart ((c, v) # rs)"
  by (auto simp: csr_store_def plain_hart_def fun_eq_iff Let_def option.map_ident)

lemma plain_hart_legal [simp]: "holds_legal (plain_hart rs) c"
  by (auto simp: holds_legal_def plain_hart_store split: option.splits)
    (auto simp: plain_hart_def map_upd_triv)

text \<open>
  A hart on which \<open>sstatus\<close> is a view of the bits \<open>sie\<close>, \<open>spie\<close> and \<open>spp\<close> of \<open>mstatus\<close>.
\<close>

definition view_hart :: "32 word \<Rightarrow> 32 word hart" where
  "view_hart ms = \<lparr>csr_file = map_of [(''mstatus'', ms), (''sstatus'', ms AND 0x122), (''mscratch'', 5)],
     csr_legal = (\<lambda>c old n. n),
     csr_views = (\<lambda>c file d x. if c = ''mstatus'' \<and> d = ''sstatus'' then the (file ''mstatus'') AND 0x122 else x),
     wfi_log = []\<rparr>"

text \<open>
  C13: on RV32, writing a value that fits into a field of any register of the structure all,
  and reading the field back, gives the value; for every field whose constants describe its bits
  and that the hart lets be written. The registers that share no bits with the one that is
  written do not change. (On a hart where sstatus is a view of mstatus, it follows mstatus.)
\<close>

theorem field_round_trip:
  fixes r :: "32 word csr_rw_reg"
  assumes "(c, RW r) \<in> set csr_all" and "(f, F) \<in> set (reg_fields r)" and "field_ok F"
    and "csr_file h c = Some old" and "keeps_field h c F" and "take_bit (BIT_WIDTH F) v = v"
  shows "\<exists>h'. field_write (reg_ops r) F v h = Some h' \<and> field_read (reg_ops r) F h' = Some (v, h') \<and>
    (\<forall>d. d \<noteq> c \<and> csr_leaves h c d \<longrightarrow> csr_file h' d = csr_file h d)"
proof -
  obtain t p where "reg_ops r = rw_ops t p c" using csr_all_rw [OF assms(1)] by blast
  with field_write_read [OF assms(4,3,5), of t v p] assms(6) show ?thesis by simp
qed

theorem field_round_trip_witness:
  "\<exists>h'. field_write mstatus_ops mstatus_data_spie 1 (view_hart 8) = Some h' \<and>
    field_read mstatus_ops mstatus_data_spie h' = Some (1, h') \<and> csr_file h' ''mscratch'' = Some 5"
proof -
  have "field_ok (mstatus_data_spie :: 32 word csr_field)" by code_simp
  moreover have "take_bit (BIT_WIDTH (mstatus_data_spie :: 32 word csr_field)) 1 = (1 :: 32 word)" by code_simp
  moreover have "keeps_field (view_hart 8) ''mstatus'' mstatus_data_spie" by (simp add: keeps_field_def view_hart_def)
  moreover have "csr_leaves (view_hart 8) ''mstatus'' ''mscratch''" by (simp add: csr_leaves_def view_hart_def)
  moreover have "csr_file (view_hart 8) ''mstatus'' = Some 8" "csr_file (view_hart 8) ''mscratch'' = Some 5"
    by (simp_all add: view_hart_def)
  ultimately show ?thesis
    using field_round_trip [OF mstatus_in_csr_all, of "''spie''" mstatus_data_spie "view_hart 8" 8 1]
    by (auto simp: mstatus_reg_def)
qed

text \<open>The view follows.\<close>

lemma view_hart_follows:
  "map_option (\<lambda>h. csr_file h ''sstatus'') (field_write mstatus_ops mstatus_data_spie 1 (view_hart 8)) = Some (Some 0x20)"
  by code_simp

text \<open>
  C14: on RV32, writing a field of a register leaves the value of every other field of that
  register as it was.
\<close>

definition fields_disjoint :: "'x::len word csr_reg \<Rightarrow> bool" where
  "fields_disjoint r = (case r of
     RW q \<Rightarrow> list_all (\<lambda>x. list_all (\<lambda>y. fst x = fst y \<or> BIT_MASK (snd x) AND BIT_MASK (snd y) = 0)
       (reg_fields q)) (reg_fields q)
   | RO q \<Rightarrow> True)"

lemma csr_all_fields_disjoint: "list_all (\<lambda>x. fields_disjoint (snd x)) (csr_all :: (string \<times> 32 word csr_reg) list)"
  by code_simp

theorem field_write_frame:
  fixes r :: "32 word csr_rw_reg"
  assumes "(c, RW r) \<in> set csr_all" and "(f, F) \<in> set (reg_fields r)" and "(g, G) \<in> set (reg_fields r)"
    and "f \<noteq> g" and "csr_file h c = Some old" and "keeps_field h c G"
  shows "\<exists>h'. field_write (reg_ops r) F v h = Some h' \<and>
    map_option fst (field_read (reg_ops r) G h') = map_option fst (field_read (reg_ops r) G h)"
proof -
  obtain t p where r: "reg_ops r = rw_ops t p c" using csr_all_rw [OF assms(1)] by blast
  have "fields_disjoint (RW r)" using csr_all_fields_disjoint assms(1) by (force simp: list_all_iff)
  then have "BIT_MASK F AND BIT_MASK G = 0" using assms(2-4) by (force simp: fields_disjoint_def list_all_iff)
  from field_write_other [OF assms(5,6) this, of t p v] r show ?thesis by simp
qed

theorem field_write_frame_witness:
  "\<exists>h'. field_write mstatus_ops mstatus_data_mpp 0 (plain_hart [(''mstatus'', 0x1888 :: 32 word)]) = Some h' \<and>
    map_option fst (field_read mstatus_ops mstatus_data_mie h') = Some 1"
proof -
  have "map_option fst (field_read mstatus_ops mstatus_data_mie (plain_hart [(''mstatus'', 0x1888 :: 32 word)])) = Some 1"
    by code_simp
  with field_write_frame [OF mstatus_in_csr_all, of "''mpp''" mstatus_data_mpp "''mie''" mstatus_data_mie
      "plain_hart [(''mstatus'', 0x1888)]" "0x1888" 0]
  show ?thesis by (auto simp: mstatus_reg_def)
qed



text \<open>
  C16: the six methods that take their operand as a template constant and choose the immediate
  instructions for constants of up to five bits have the effect on the hart of the methods that
  take it as a parameter, on any register of the structure all and any hart that holds a legal
  value, and return the same values on RV32. On RV64 this is so for write, set, clr and
  read_write; read_set_bits and read_clr_bits of a small constant return the old value in the
  member's data type, where the forms with a parameter return its low 32 bits.
\<close>

theorem const_forms_agree:
  fixes r :: "'x::len word csr_rw_reg"
  assumes "(c, RW r) \<in> set csr_all" and "holds_legal h c"
  shows "reg_write_const (reg_ops r) v h = reg_write (reg_ops r) v h \<and>
    reg_set_const (reg_ops r) v h = reg_set (reg_ops r) v h \<and>
    reg_clr_const (reg_ops r) v h = reg_clr (reg_ops r) v h \<and>
    reg_read_write_const (reg_ops r) v h = reg_read_write (reg_ops r) v h \<and>
    map_option snd (reg_read_set_bits_const (reg_ops r) v h) = map_option snd (reg_read_set_bits (reg_ops r) v h) \<and>
    map_option snd (reg_read_clr_bits_const (reg_ops r) v h) = map_option snd (reg_read_clr_bits (reg_ops r) v h) \<and>
    (LENGTH('x) \<le> 32 \<longrightarrow>
      reg_read_set_bits_const (reg_ops r) v h = reg_read_set_bits (reg_ops r) v h \<and>
      reg_read_clr_bits_const (reg_ops r) v h = reg_read_clr_bits (reg_ops r) v h) \<and>
    (fits_imm v \<longrightarrow>
      map_option fst (reg_read_set_bits_const (reg_ops r) v h) = map_option (to_csr_type (ops_type (reg_ops r))) (csr_file h c) \<and>
      map_option fst (reg_read_clr_bits_const (reg_ops r) v h) = map_option (to_csr_type (ops_type (reg_ops r))) (csr_file h c))"
proof -
  obtain t p where r: "reg_ops r = rw_ops t p c" using csr_all_rw [OF assms(1)] by blast
  have "reg_write_const (reg_ops r) v h = reg_write (reg_ops r) v h \<and>
    reg_set_const (reg_ops r) v h = reg_set (reg_ops r) v h \<and>
    reg_clr_const (reg_ops r) v h = reg_clr (reg_ops r) v h \<and>
    reg_read_write_const (reg_ops r) v h = reg_read_write (reg_ops r) v h"
    using r assms(2) by (simp add: reg_method_defs write_imm_eq set_bits_imm_eq clr_bits_imm_eq read_write_imm_eq)
  moreover note const_read_forms [OF assms(2), where t = t and p = p and v = v]
  ultimately show ?thesis unfolding r by simp
qed

theorem const_forms_agree_witness:
  "reg_set_const mscratch_ops 6 (plain_hart [(''mscratch'', 9 :: 32 word)]) =
     reg_set mscratch_ops 6 (plain_hart [(''mscratch'', 9)]) \<and>
   reg_read_set_bits_const mscratch_ops 6 (plain_hart [(''mscratch'', 9 :: 32 word)]) =
     reg_read_set_bits mscratch_ops 6 (plain_hart [(''mscratch'', 9)]) \<and>
   map_option fst (reg_read_set_bits_const mscratch_ops 6 (plain_hart [(''mscratch'', 0x500000008 :: 64 word)])) = Some 0x500000008"
proof -
  have "fits_imm (6 :: 64 word)" by code_simp
  then show ?thesis
    using const_forms_agree [OF mscratch_in_csr_all, of "plain_hart [(''mscratch'', 9 :: 32 word)]" 6]
      const_forms_agree [OF mscratch_in_csr_all, of "plain_hart [(''mscratch'', 0x500000008 :: 64 word)]" 6]
    by (simp add: mscratch_reg_def mscratch_ops_def)
qed

text \<open>
  The constants of all 69 fields describe a range of bits of the register, on RV32 and on RV64,
  except those of eight fields whose masks are wrong: \<open>base\<close> of \<open>mtvec\<close>, \<open>stvec\<close> and \<open>utvec\<close>, the
  exception codes of the three cause registers, and the platform defined bits of \<open>mip\<close> and \<open>mie\<close>.
\<close>

lemma field_constants:
  "wrong_fields (all_fields :: (string \<times> string \<times> 32 word csr_field) list) =
     [(''mtvec'', ''base''), (''mip'', ''platform_defined''), (''mie'', ''platform_defined''),
      (''mcause'', ''exception_code''), (''scause'', ''exception_code''), (''stvec'', ''base''),
      (''ucause'', ''exception_code''), (''utvec'', ''base'')] \<and>
   wrong_fields (all_fields :: (string \<times> string \<times> 64 word csr_field) list) =
     [(''mtvec'', ''base''), (''mip'', ''platform_defined''), (''mie'', ''platform_defined''),
      (''mcause'', ''exception_code''), (''scause'', ''exception_code''), (''stvec'', ''base''),
      (''ucause'', ''exception_code''), (''utvec'', ''base'')]"
  by code_simp

text \<open>The field \<open>base\<close> of a trap vector register: its mask is the top bit of the register only.\<close>

definition top_bit_base :: "string \<times> 'x::len word csr_reg \<Rightarrow> bool" where
  "top_bit_base x = (case snd x of RO r \<Rightarrow> True
     | RW r \<Rightarrow> list_all (\<lambda>f. fst f = ''base'' \<longrightarrow> BIT_OFFSET (snd f) = 2 \<and> BIT_MASK (snd f) = push_bit (LENGTH('x) - 1) 1)
         (reg_fields r))"

lemma csr_all_base32: "list_all top_bit_base (csr_all :: (string \<times> 32 word csr_reg) list)"
  by code_simp

lemma new_value_top_bit:
  assumes "BIT_OFFSET F = 2" and "BIT_MASK F = 0x80000000" and "uint v < 2 ^ 29"
  shows "field_new_value C F v org = org AND NOT (0x80000000 :: 32 word)"
proof -
  have top: "(0x80000000 :: 32 word) = push_bit 31 1" by simp
  have "\<not> bit v 29" using assms(3) bit_uint_iff [of v 29] by (simp add: bit_iff_odd)
  moreover have "n = 31" if "bit (push_bit 31 1 :: 32 word) n" for n using that by (simp only: bit_simps) simp
  ultimately have "\<not> bit (push_bit 2 v AND push_bit 31 1) n" for n
    by (cases "n = 31") (auto simp only: bit_and_iff bit_push_bit_iff, simp)
  then have "push_bit 2 v AND 0x80000000 = 0" unfolding top by (intro bit_word_eqI) simp
  with assms show ?thesis by (simp add: field_new_value_def)
qed

text \<open>
  C17: on RV32, writing the field base of a trap vector register (mtvec, stvec or utvec of the
  structure all) with any base address below 2^31 (the field value is the address divided by 4)
  stores nothing of it: whatever the value, the register keeps its old contents with the top bit
  cleared, and reading the field back gives 0. The mask of the field has one bit instead of thirty.
\<close>

theorem trap_vector_base_not_written:
  fixes r :: "32 word csr_rw_reg"
  assumes "(c, RW r) \<in> set csr_all" and "(''base'', F) \<in> set (reg_fields r)"
    and "csr_file h c = Some old" and "\<forall>o' n. csr_legal h c o' n = n" and "uint v < 2 ^ 29"
  shows "\<exists>h'. field_write (reg_ops r) F v h = Some h' \<and> csr_file h' c = Some (old AND NOT 0x80000000) \<and>
    field_read (reg_ops r) F h' = Some (0, h')"
proof -
  obtain t p where r: "reg_ops r = rw_ops t p c" using csr_all_rw [OF assms(1)] by blast
  have "top_bit_base (c, RW r)" using csr_all_base32 assms(1) by (force simp: list_all_iff)
  then have F: "BIT_OFFSET F = 2" "BIT_MASK F = 0x80000000"
    using assms(2) by (force simp: top_bit_base_def list_all_iff)+
  let ?h = "csr_store c (old AND NOT 0x80000000) h"
  have "field_write (reg_ops r) F v h = Some ?h"
    using field_write_eq [OF assms(3), of t p F v] new_value_top_bit [OF F assms(5)] assms(4) r by simp
  moreover have "field_of F (old AND NOT 0x80000000) = 0"
    by (simp add: field_of_def F and.assoc)
  then have "field_read (reg_ops r) F ?h = Some (0, ?h)"
    using field_read_eq [of ?h c "old AND NOT 0x80000000" t F p] r by simp
  ultimately show ?thesis by simp
qed

theorem trap_vector_base_not_written_witness:
  "\<exists>h'. field_write mtvec_ops mtvec_data_base 0x8004000 (plain_hart [(''mtvec'', 0x20010001 :: 32 word)]) = Some h' \<and>
    csr_file h' ''mtvec'' = Some 0x20010001 \<and> field_read mtvec_ops mtvec_data_base h' = Some (0, h')"
proof -
  have "(''mtvec'', RW (mtvec_reg mtvec_ops)) \<in> set (csr_all :: (string \<times> 32 word csr_reg) list)" by (simp add: csr_all_def)
  from trap_vector_base_not_written [OF this, of mtvec_data_base "plain_hart [(''mtvec'', 0x20010001)]" "0x20010001" "0x8004000"]
  show ?thesis by (simp add: mtvec_reg_def)
qed

text \<open>
  C19: on RV64, read_set_bits and read_clr_bits of every register of the structure all return
  only the low 32 bits of the old value, while read_write returns all of them for a register
  of 64 bits.
\<close>

theorem read_set_bits_truncates:
  fixes r :: "64 word csr_rw_reg"
  assumes "(c, RW r) \<in> set csr_all" and "csr_file h c = Some old"
  shows "map_option fst (reg_read_set_bits (reg_ops r) m h) = Some (take_bit 32 old) \<and>
    map_option fst (reg_read_clr_bits (reg_ops r) m h) = Some (take_bit 32 old) \<and>
    map_option fst (reg_read_write (reg_ops r) m h) = Some (to_csr_type (ops_type (reg_ops r)) old)"
proof -
  obtain t p where "reg_ops r = rw_ops t p c" using csr_all_rw [OF assms(1)] by blast
  with assms(2) show ?thesis by (cases t) (simp_all add: reg_method_defs rw_methods to_ret_def)
qed

theorem read_set_bits_truncates_witness:
  "map_option fst (reg_read_set_bits mscratch_ops 1 (plain_hart [(''mscratch'', 0x500000008 :: 64 word)])) = Some 8 \<and>
   map_option fst (reg_read_write mscratch_ops 1 (plain_hart [(''mscratch'', 0x500000008 :: 64 word)])) = Some 0x500000008"
  using read_set_bits_truncates [OF mscratch_in_csr_all, of "plain_hart [(''mscratch'', 0x500000008)]" "0x500000008" 1]
  by (simp add: mscratch_reg_def mscratch_ops_def)

end
