(* ===== verification/Irq.thy ===== *)
theory Irq
  imports Csr_Correct
begin

text \<open>
  \<open>include/riscv/riscv-irq.hpp\<close> and \<open>riscv-interrupts.hpp\<close>: installing a function object as
  the machine mode interrupt handler, and what runs when the hart takes a trap.

  A function object lives at an address and has a type \<open>T\<close> (a number) and an \<open>operator()\<close>;
  \<open>objects\<close> says which. The static member \<open>_execute_handler\<close> points to code that depends on
  \<open>T\<close> only, so it is \<open>T\<close>; a null pointer is \<open>None\<close>. Using an object as another type or calling
  a null pointer is undefined.
\<close>

record 'v irq_world =
  irq_hart :: "'v hart"
  execute_handler :: "nat option"

type_synonym ('v, 'z) isr_objects =
  "'v \<Rightarrow> (nat \<times> (('v, 'z) irq_world_scheme \<Rightarrow> ('v, 'z) irq_world_scheme option)) option"

definition irq_handler_ctor :: "'x::len word \<Rightarrow> nat \<Rightarrow> 'x word \<Rightarrow> ('x word, 'z) irq_world_scheme
    \<Rightarrow> ('x word, 'z) irq_world_scheme option" where
  "irq_handler_ctor entry T isr_handler w = do {
     let w = w\<lparr>execute_handler := Some T\<rparr>;
     let isr_context = isr_handler;
     h \<leftarrow> reg_write mscratch_ops isr_context (irq_hart w);
     h \<leftarrow> reg_write mtvec_ops entry h;
     Some (w\<lparr>irq_hart := h\<rparr>)
   }"

definition handler_entry :: "('x::len word, 'z) isr_objects \<Rightarrow> ('x word, 'z) irq_world_scheme
    \<Rightarrow> ('x word, 'z) irq_world_scheme option" where
  "handler_entry objects w = do {
     T \<leftarrow> execute_handler w;
     (isr_context, h) \<leftarrow> reg_read mscratch_ops (irq_hart w);
     (T', operator_call) \<leftarrow> objects isr_context;
     if T' = T then operator_call (w\<lparr>irq_hart := h\<rparr>) else None
   }"

text \<open>
  A trap sets the program counter to the base of \<open>mtvec\<close> (its low two bits are the mode); the
  function \<open>entry\<close> at that address calls \<open>handler_entry\<close>. No other code is known there.
\<close>

definition irq_entry :: "('x::len word, 'z) isr_objects \<Rightarrow> ('x word, 'z) irq_world_scheme
    \<Rightarrow> ('x word, 'z) irq_world_scheme option" where
  "irq_entry objects w = handler_entry objects w"

definition take_trap :: "'x::len word \<Rightarrow> ('x word, 'z) isr_objects \<Rightarrow> ('x word, 'z) irq_world_scheme
    \<Rightarrow> ('x word, 'z) irq_world_scheme option" where
  "take_trap entry objects w = do {
     tv \<leftarrow> csr_file (irq_hart w) ''mtvec'';
     if tv AND NOT 3 = entry then irq_entry objects w else None
   }"

section \<open>Interrupt numbers\<close>

definition interrupts_msi :: "32 word" where "interrupts_msi = 3"
definition interrupts_mti :: "32 word" where "interrupts_mti = 7"
definition interrupts_mei :: "32 word" where "interrupts_mei = 11"
definition interrupts_ssi :: "32 word" where "interrupts_ssi = 1"
definition interrupts_sti :: "32 word" where "interrupts_sti = 5"
definition interrupts_sei :: "32 word" where "interrupts_sei = 9"
definition interrupts_usi :: "32 word" where "interrupts_usi = 0"
definition interrupts_uti :: "32 word" where "interrupts_uti = 4"
definition interrupts_uei :: "32 word" where "interrupts_uei = 8"

definition interrupt_numbers :: "(string \<times> 32 word) list" where
  "interrupt_numbers = [(''msi'', interrupts_msi), (''mti'', interrupts_mti), (''mei'', interrupts_mei),
     (''ssi'', interrupts_ssi), (''sti'', interrupts_sti), (''sei'', interrupts_sei),
     (''usi'', interrupts_usi), (''uti'', interrupts_uti), (''uei'', interrupts_uei)]"

section \<open>The handler that is installed is the one that runs\<close>

lemma mscratch_write:
  "csr_file h ''mscratch'' = Some old \<Longrightarrow>
     reg_write mscratch_ops v h = Some (csr_store ''mscratch'' (csr_legal h ''mscratch'' old v) h)"
  by (simp add: reg_write_def mscratch_ops_def rw_write)

lemma mtvec_write:
  "csr_file h ''mtvec'' = Some old \<Longrightarrow>
     reg_write mtvec_ops v h = Some (csr_store ''mtvec'' (csr_legal h ''mtvec'' old v) h)"
  by (simp add: reg_write_def mtvec_ops_def rw_write)

lemma mscratch_read:
  "csr_file h ''mscratch'' = Some v \<Longrightarrow> reg_read mscratch_ops h = Some (v, h)"
  by (simp add: reg_read_def mscratch_ops_def rw_read)

section \<open>Properties\<close>

text \<open>
  C20: after irq::handler has been constructed with a function object, a trap runs the
  operator() of that object, once, in the state the trap finds. The hart must have mscratch and
  mtvec, which share no bits, keep any value in mscratch, and take the (aligned) address of entry
  as the base of mtvec.
\<close>

theorem installed_handler_runs:
  assumes "csr_file (irq_hart w) ''mscratch'' = Some ms" and "csr_file (irq_hart w) ''mtvec'' = Some tv"
    and "\<forall>v. csr_legal (irq_hart w) ''mscratch'' ms v = v"
    and "csr_legal (irq_hart w) ''mtvec'' tv entry AND NOT 3 = entry"
    and "csr_leaves (irq_hart w) ''mscratch'' ''mtvec''" and "csr_leaves (irq_hart w) ''mtvec'' ''mscratch''"
    and "objects isr_handler = Some (T, operator_call)"
  shows "\<exists>w'. irq_handler_ctor entry T isr_handler w = Some w' \<and>
    csr_file (irq_hart w') ''mscratch'' = Some isr_handler \<and>
    take_trap entry objects w' = operator_call w'"
proof -
  let ?h1 = "csr_store ''mscratch'' isr_handler (irq_hart w)"
  let ?h2 = "csr_store ''mtvec'' (csr_legal (irq_hart w) ''mtvec'' tv entry) ?h1"
  let ?w' = "w\<lparr>execute_handler := Some T, irq_hart := ?h2\<rparr>"
  have "irq_handler_ctor entry T isr_handler w = Some ?w'"
    using assms(1-3,5) by (simp add: irq_handler_ctor_def mscratch_write mtvec_write csr_store_other)
  moreover have ms: "csr_file (irq_hart ?w') ''mscratch'' = Some isr_handler" using assms(6) by (simp add: csr_store_other)
  moreover have "take_trap entry objects ?w' = operator_call ?w'"
    using assms(4,7) mscratch_read [OF ms] by (simp add: take_trap_def irq_entry_def handler_entry_def)
  ultimately show ?thesis by blast
qed

theorem installed_handler_runs_witness:
  "\<exists>w'. irq_handler_ctor 0x20010000 1 0x80000040
      \<lparr>irq_hart = plain_hart [(''mscratch'', 0), (''mtvec'', 0 :: 32 word)], execute_handler = None\<rparr> = Some w' \<and>
    take_trap 0x20010000 (\<lambda>a. if a = 0x80000040 then Some (1, \<lambda>w. Some (w\<lparr>execute_handler := None\<rparr>)) else None) w' =
      Some (w'\<lparr>execute_handler := None\<rparr>)"
  using installed_handler_runs [of "\<lparr>irq_hart = plain_hart [(''mscratch'', 0), (''mtvec'', 0 :: 32 word)], execute_handler = None\<rparr>"
      0 0 "0x20010000" "\<lambda>a. if a = 0x80000040 then Some (1, \<lambda>w. Some (w\<lparr>execute_handler := None\<rparr>)) else None"
      "0x80000040" 1 "\<lambda>w. Some (w\<lparr>execute_handler := None\<rparr>)"]
  by auto

text \<open>
  The interrupt numbers of riscv::interrupts are the bit positions of the fields of the
  same names in mie and in mip.
\<close>

lemma interrupt_numbers_match:
  "map (\<lambda>x. (fst x, of_nat (BIT_OFFSET (snd x)))) (filter (\<lambda>x. fst x \<noteq> ''platform_defined'')
     (reg_fields (mie_reg mie_ops :: 32 word csr_rw_reg))) = interrupt_numbers \<and>
   map (\<lambda>x. (fst x, of_nat (BIT_OFFSET (snd x)))) (filter (\<lambda>x. fst x \<noteq> ''platform_defined'')
     (reg_fields (mip_reg mip_ops :: 32 word csr_rw_reg))) = interrupt_numbers"
  by code_simp

end
