(* ===== verification/Board.thy ===== *)
theory Board
  imports Mtimer Irq Nop_Task
begin

text \<open>
  The devices of the RV32 board as the example programs use them: the hart with its control and
  status registers, the installed interrupt handler and the machine timer, the statements of the
  examples that only touch these, and that each of them returns. The examples extend the record
  \<open>board\<close> with their own variables; \<open>demo_tasks\<close> is the state of \<open>nop_task.hpp\<close>.
\<close>

record board = "32 word irq_world" +
  demo_timer :: mtimer
  demo_tasks :: "32 word task_sys"

text \<open>
  The counter, and the value of \<open>TARGET_MTIME_FREQ_HZ\<close> when the build defines it (the CMake build
  for RISC-V does).
\<close>

record board_clock =
  clk_mtime :: mtime
  clk_target :: "int option"

definition clk_freq :: "board_clock \<Rightarrow> int" where
  "clk_freq clk = MTIME_FREQ_HZ (clk_target clk)"

section \<open>Statements\<close>

definition mstatus_mie_clr :: "'z board_scheme \<Rightarrow> 'z board_scheme option" where
  "mstatus_mie_clr w = do { h \<leftarrow> field_clr mstatus_ops mstatus_data_mie (irq_hart w); Some (w\<lparr>irq_hart := h\<rparr>) }"

definition mstatus_mie_set :: "'z board_scheme \<Rightarrow> 'z board_scheme option" where
  "mstatus_mie_set w = do { h \<leftarrow> field_set mstatus_ops mstatus_data_mie (irq_hart w); Some (w\<lparr>irq_hart := h\<rparr>) }"

definition mie_mti_clr :: "'z board_scheme \<Rightarrow> 'z board_scheme option" where
  "mie_mti_clr w = do { h \<leftarrow> field_clr mie_ops mie_data_mti (irq_hart w); Some (w\<lparr>irq_hart := h\<rparr>) }"

definition mie_mti_set :: "'z board_scheme \<Rightarrow> 'z board_scheme option" where
  "mie_mti_set w = do { h \<leftarrow> field_set mie_ops mie_data_mti (irq_hart w); Some (w\<lparr>irq_hart := h\<rparr>) }"

text \<open>\<open>mtimer.get_time<timer_ticks>().count()\<close>, converted to \<open>uint64_t\<close>\<close>

definition ticks_now :: "board_clock \<Rightarrow> 'z board_scheme \<Rightarrow> (64 word \<times> 'z board_scheme) option" where
  "ticks_now clk w = do {
     (t, m) \<leftarrow> get_time 32 (clk_freq clk) (timer_ticks (clk_freq clk)) (clk_mtime clk) (demo_timer w);
     Some (word_of_int t, w\<lparr>demo_timer := m\<rparr>)
   }"

text \<open>\<open>mtimer.set_time_cmp(d)\<close> for a duration with period \<open>p\<close>, and \<open>mtimer_clock::now()\<close>\<close>

definition timer_cmp :: "board_clock \<Rightarrow> period \<Rightarrow> int \<Rightarrow> 'z board_scheme \<Rightarrow> 'z board_scheme option" where
  "timer_cmp clk p d w = do {
     m \<leftarrow> set_time_cmp 32 (clk_freq clk) p (clk_mtime clk) d (demo_timer w);
     Some (w\<lparr>demo_timer := m\<rparr>)
   }"

definition clock_now :: "board_clock \<Rightarrow> 'z board_scheme \<Rightarrow> (int \<times> 'z board_scheme) option" where
  "clock_now clk w = do {
     (t, m) \<leftarrow> mtimer_clock_now 32 (clk_freq clk) (clk_mtime clk) (demo_timer w);
     Some (t, w\<lparr>demo_timer := m\<rparr>)
   }"

text \<open>
  \<open>riscv::cpu::wfi\<close> (\<open>include/riscv/riscv-isa.hpp\<close>) waits; the hart's \<open>wfi_log\<close> keeps the
  registers it waited with.
\<close>

definition cpu_wfi :: "'z board_scheme \<Rightarrow> 'z board_scheme" where
  "cpu_wfi w = w\<lparr>irq_hart := wfi (irq_hart w)\<rparr>"

definition sleep_until_interrupt :: "'z board_scheme \<Rightarrow> 'z board_scheme option" where
  "sleep_until_interrupt w = do {
     w \<leftarrow> mstatus_mie_clr w;
     w \<leftarrow> mie_mti_set w;
     let w = cpu_wfi w;
     mstatus_mie_set w
   }"

text \<open>A trap sets \<open>mcause\<close>.\<close>

definition trap_cause :: "32 word \<Rightarrow> 'z board_scheme \<Rightarrow> 'z board_scheme" where
  "trap_cause c w = w\<lparr>irq_hart := csr_store ''mcause'' c (irq_hart w)\<rparr>"

text \<open>
  A call of a coroutine whose frame has \<open>sz\<close> bytes. Without a frame the caller gets a task and the
  body does not run; otherwise \<open>body\<close>, its code up to the first suspension, runs at once.
\<close>

definition call_coro :: "32 word \<Rightarrow> ('z board_scheme \<Rightarrow> 'z board_scheme option) \<Rightarrow> 'z board_scheme
    \<Rightarrow> 'z board_scheme option" where
  "call_coro sz body w = (case coro_call False sz (demo_tasks w) of
     (task, promise, fp, s) \<Rightarrow> (let w = w\<lparr>demo_tasks := s\<rparr> in if promise = None then Some w else body w))"

section \<open>They return\<close>

definition demo_csrs :: "string set" where
  "demo_csrs = {''mstatus'', ''mie'', ''mcause'', ''mscratch'', ''mtvec''}"

definition hart_ok :: "'z board_scheme \<Rightarrow> bool" where
  "hart_ok w \<longleftrightarrow> demo_csrs \<subseteq> dom (csr_file (irq_hart w))"

lemma hart_ok_csr: "hart_ok w \<Longrightarrow> c \<in> demo_csrs \<Longrightarrow> \<exists>v. csr_file (irq_hart w) c = Some v"
  by (auto simp: hart_ok_def)

lemma demo_csrs_simps [simp]: "''mstatus'' \<in> demo_csrs" "''mie'' \<in> demo_csrs" "''mcause'' \<in> demo_csrs"
  "''mscratch'' \<in> demo_csrs" "''mtvec'' \<in> demo_csrs"
  by (simp_all add: demo_csrs_def)

lemma field_set_returns:
  assumes "csr_file h c = Some old"
  shows "\<exists>h'. field_set (rw_ops t p c) F h = Some h' \<and> dom (csr_file h) \<subseteq> dom (csr_file h')"
proof (cases "fits_imm (BIT_MASK F)")
  case True
  with assms show ?thesis
    by (auto simp: field_set_def rw_ops_def zicsr_defs fits_imm_uimm csr_put_eq)
qed (use assms in \<open>auto simp: field_set_def rw_set_bits\<close>)

lemma field_clr_returns:
  assumes "csr_file h c = Some old"
  shows "\<exists>h'. field_clr (rw_ops t p c) F h = Some h' \<and> dom (csr_file h) \<subseteq> dom (csr_file h')"
proof (cases "fits_imm (BIT_MASK F)")
  case True
  with assms show ?thesis
    by (auto simp: field_clr_def rw_ops_def zicsr_defs fits_imm_uimm csr_put_eq)
qed (use assms in \<open>auto simp: field_clr_def rw_clr_bits\<close>)

text \<open>A statement that changes the control and status registers only.\<close>

definition csr_step :: "('z board_scheme \<Rightarrow> 'z board_scheme option) \<Rightarrow> bool" where
  "csr_step f \<longleftrightarrow> (\<forall>w. hart_ok w \<longrightarrow> (\<exists>h. f w = Some (w\<lparr>irq_hart := h\<rparr>) \<and> hart_ok (w\<lparr>irq_hart := h\<rparr>)))"

lemma csr_stepD: "csr_step f \<Longrightarrow> hart_ok w \<Longrightarrow> \<exists>h. f w = Some (w\<lparr>irq_hart := h\<rparr>) \<and> hart_ok (w\<lparr>irq_hart := h\<rparr>)"
  by (simp add: csr_step_def)

lemma csr_stepI:
  fixes f :: "'z board_scheme \<Rightarrow> 'z board_scheme option"
  assumes f: "f = (\<lambda>w. do { h \<leftarrow> g (irq_hart w); Some (w\<lparr>irq_hart := h\<rparr>) })" and "c \<in> demo_csrs"
    and g: "\<And>h v. csr_file h c = Some v \<Longrightarrow> \<exists>h'. g h = Some h' \<and> dom (csr_file h) \<subseteq> dom (csr_file h')"
  shows "csr_step f"
  unfolding csr_step_def
proof (intro allI impI)
  fix w :: "'z board_scheme"
  assume w: "hart_ok w"
  from hart_ok_csr [OF w assms(2)] g obtain h where
    "g (irq_hart w) = Some h" "dom (csr_file (irq_hart w)) \<subseteq> dom (csr_file h)" by blast
  with w show "\<exists>h. f w = Some (w\<lparr>irq_hart := h\<rparr>) \<and> hart_ok (w\<lparr>irq_hart := h\<rparr>)"
    unfolding f by (intro exI [of _ h]) (auto simp: hart_ok_def)
qed

lemma csr_step_bits [simp]:
  "csr_step mstatus_mie_clr" "csr_step mstatus_mie_set" "csr_step mie_mti_clr" "csr_step mie_mti_set"
  unfolding mstatus_mie_clr_def mstatus_mie_set_def mie_mti_clr_def mie_mti_set_def mstatus_ops_def mie_ops_def
  by (rule csr_stepI, rule refl, rule demo_csrs_simps, erule field_set_returns field_clr_returns)+

lemma csr_step_sleep [simp]: "csr_step sleep_until_interrupt"
  unfolding csr_step_def
proof (intro allI impI)
  fix w :: "'z board_scheme"
  assume "hart_ok w"
  from csr_stepD [OF csr_step_bits(1) this] obtain h1 where
    h1: "mstatus_mie_clr w = Some (w\<lparr>irq_hart := h1\<rparr>)" "hart_ok (w\<lparr>irq_hart := h1\<rparr>)" by blast
  from csr_stepD [OF csr_step_bits(4) h1(2)] obtain h2 where
    h2: "mie_mti_set (w\<lparr>irq_hart := h1\<rparr>) = Some (w\<lparr>irq_hart := h2\<rparr>)" "hart_ok (w\<lparr>irq_hart := h2\<rparr>)" by auto
  then have "hart_ok (w\<lparr>irq_hart := wfi h2\<rparr>)" by (simp add: hart_ok_def wfi_def)
  from csr_stepD [OF csr_step_bits(2) this] obtain h3 where
    "mstatus_mie_set (w\<lparr>irq_hart := wfi h2\<rparr>) = Some (w\<lparr>irq_hart := h3\<rparr>)" "hart_ok (w\<lparr>irq_hart := h3\<rparr>)" by auto
  with h1 h2 have "sleep_until_interrupt w = Some (w\<lparr>irq_hart := h3\<rparr>)" "hart_ok (w\<lparr>irq_hart := h3\<rparr>)"
    by (simp_all add: sleep_until_interrupt_def cpu_wfi_def)
  then show "\<exists>h. sleep_until_interrupt w = Some (w\<lparr>irq_hart := h\<rparr>) \<and> hart_ok (w\<lparr>irq_hart := h\<rparr>)"
    by blast
qed

lemma handler_ctor_step:
  assumes w: "hart_ok w"
  shows "\<exists>h. irq_handler_ctor entry T handler w = Some (w\<lparr>execute_handler := Some T, irq_hart := h\<rparr>) \<and>
    hart_ok (w\<lparr>execute_handler := Some T, irq_hart := h\<rparr>)"
proof -
  obtain ms where ms: "csr_file (irq_hart w) ''mscratch'' = Some ms" using hart_ok_csr [OF w] by fastforce
  let ?h1 = "csr_store ''mscratch'' (csr_legal (irq_hart w) ''mscratch'' ms handler) (irq_hart w)"
  have "''mtvec'' \<in> dom (csr_file ?h1)" using w by (auto simp: hart_ok_def demo_csrs_def)
  then obtain tv where tv: "csr_file ?h1 ''mtvec'' = Some tv" by blast
  let ?h2 = "csr_store ''mtvec'' (csr_legal ?h1 ''mtvec'' tv entry) ?h1"
  have "irq_handler_ctor entry T handler w = Some (w\<lparr>execute_handler := Some T, irq_hart := ?h2\<rparr>)"
    using ms tv by (simp add: irq_handler_ctor_def mscratch_write mtvec_write)
  moreover have "hart_ok (w\<lparr>execute_handler := Some T, irq_hart := ?h2\<rparr>)"
    using w by (auto simp: hart_ok_def)
  ultimately show ?thesis by blast
qed

text \<open>
  The frequencies for which the delays of the examples stay within an \<open>int\<close> of ticks; the default
  of \<open>timer.hpp\<close> and the value of the RISC-V build are among them.
\<close>

definition freq_ok :: "int \<Rightarrow> bool" where
  "freq_ok f \<longleftrightarrow> 0 < f \<and> f \<le> 50000000"

lemma freq_ok_build: "freq_ok (MTIME_FREQ_HZ None)" "freq_ok (MTIME_FREQ_HZ (Some 10000000))"
  by (simp_all add: freq_ok_def MTIME_FREQ_HZ_def)

definition steady_clock :: "board_clock \<Rightarrow> bool" where
  "steady_clock clk \<longleftrightarrow> freq_ok (clk_freq clk) \<and> (\<forall>b. mtime_steady (clk_mtime clk) b)"

lemma steady_clockD:
  "steady_clock clk \<Longrightarrow> mtime_steady (clk_mtime clk) b" "steady_clock clk \<Longrightarrow> 0 < clk_freq clk"
  "steady_clock clk \<Longrightarrow> clk_freq clk \<le> 50000000"
  by (simp_all add: steady_clock_def freq_ok_def)

lemma same_unit: "0 < f \<Longrightarrow> ratio_divide (timer_ticks f) (timer_ticks f) = (1, 1)"
  by (simp add: ratio_divide_def timer_ticks_def Let_def)

lemma ticks_now_step:
  assumes "steady_clock clk"
  shows "\<exists>t n. ticks_now clk w = Some (t, w\<lparr>demo_timer := (demo_timer w)\<lparr>bus_count := n\<rparr>\<rparr>) \<and>
    bus_count (demo_timer w) < n"
proof -
  let ?c = "clk_mtime clk" and ?u = "timer_ticks (clk_freq clk)"
  obtain k n where "get_raw_time 32 ?c (demo_timer w) = Some (?c k, (demo_timer w)\<lparr>bus_count := n\<rparr>)"
    "bus_count (demo_timer w) < n"
    using get_raw_time_returns [OF steady_clockD(1) [OF assms], of 32] by force
  moreover have "\<exists>d. duration_cast to_int64 ?u ?u (to_int32 (uint (?c k))) = Some d"
    using to_int32_bounds [of "uint (?c k)"] by (simp add: duration_cast_def same_unit [OF steady_clockD(2) [OF assms]] i64_def)
  ultimately show ?thesis by (auto simp: ticks_now_def get_time_def get_ticks_time_def)
qed

lemma timer_cmp_step:
  assumes "steady_clock clk" and "duration_cast to_int32 p (timer_ticks (clk_freq clk)) d = Some c"
  shows "\<exists>k m. timer_cmp clk p d w = Some (w\<lparr>demo_timer := m\<rparr>) \<and> mtimecmp m = clk_mtime clk k + word_of_int c \<and>
    bus_count (demo_timer w) \<le> k \<and> k < bus_count m"
proof -
  obtain k m where "set_raw_time_cmp 32 (clk_mtime clk) (word_of_int c) (demo_timer w) = Some m"
    "mtimecmp m = clk_mtime clk k + word_of_int c" "bus_count (demo_timer w) \<le> k" "k < bus_count m"
    using set_raw_time_cmp_returns [OF steady_clockD(1) [OF assms(1)], of 32 "word_of_int c"] by blast
  with assms(2) show ?thesis
    by (auto simp: timer_cmp_def set_time_cmp_def set_ticks_time_cmp_def)
qed

lemma cast_to_ticks:
  assumes "0 < clk_freq clk" and "clk_freq clk \<le> 50000000" and "0 < u" and "0 \<le> d" and "d < 2 ^ 35"
  shows "duration_cast to_int32 (1, u) (timer_ticks (clk_freq clk)) d = Some (to_int32 (d * clk_freq clk div u))"
proof -
  have "\<bar>d\<bar> * clk_freq clk \<le> 2 ^ 35 * 50000000" using assms by (intro mult_mono) simp_all
  then have "\<bar>d\<bar> * clk_freq clk < 2 ^ 63" by simp
  from cast_units [OF assms(3,1) this] assms show ?thesis by (simp add: timer_ticks_def)
qed

lemma cast_zero:
  assumes "steady_clock clk"
  shows "duration_cast to_int32 period_nano (timer_ticks (clk_freq clk)) 0 = Some 0"
  using cast_to_ticks [OF steady_clockD(2,3) [OF assms], of "10 ^ 9" 0]
  by (simp add: period_nano_unit to_int32_def)

lemma clock_now_step:
  assumes "steady_clock clk"
  shows "\<exists>k n. clock_now clk w = Some (tick_nanos (clk_freq clk) (to_int32 (uint (clk_mtime clk k))),
      w\<lparr>demo_timer := (demo_timer w)\<lparr>bus_count := n\<rparr>\<rparr>) \<and> bus_count (demo_timer w) \<le> k \<and> k < n \<and>
    n \<le> bus_count (demo_timer w) + 6"
proof -
  from mtimer_clock_now_returns [OF steady_clockD(1,2) [OF assms], where riscv_xlen = 32 and m = "demo_timer w"] obtain k n where
    "mtimer_clock_now 32 (clk_freq clk) (clk_mtime clk) (demo_timer w) =
      Some (tick_nanos (clk_freq clk) (to_int32 (uint (clk_mtime clk k))), (demo_timer w)\<lparr>bus_count := n\<rparr>)"
    "bus_count (demo_timer w) \<le> k" "k < n" "n \<le> bus_count (demo_timer w) + 6" by blast
  then show ?thesis by (intro exI [of _ k] exI [of _ n]) (simp add: clock_now_def)
qed

text \<open>A counter that stands still, with the frequency of the RISC-V build.\<close>

definition still_clock :: board_clock where
  "still_clock = \<lparr>clk_mtime = \<lambda>_. 7, clk_target = Some 10000000\<rparr>"

lemma steady_still: "steady_clock still_clock"
  by (simp add: steady_clock_def clk_freq_def still_clock_def freq_ok_build mtime_steady_def)

text \<open>There is room for the frames of the coroutines \<open>ts\<close>; \<open>frame t\<close> is the size of \<open>t\<close>'s.\<close>

definition frames_fit :: "(nat \<Rightarrow> 32 word) \<Rightarrow> nat list \<Rightarrow> 'z board_scheme \<Rightarrow> bool" where
  "frames_fit frame ts w \<longleftrightarrow>
     unat (task_heap_index (sys_heap (demo_tasks w))) + sum_list (map (\<lambda>t. unat (frame t)) ts) < TASK_HEAP_SIZE False"

lemma call_coro_fits:
  fixes w :: "'z board_scheme"
  assumes "frames_fit frame (t # ts) w"
  shows "\<exists>s. (\<forall>body. call_coro (frame t) body w = body (w\<lparr>demo_tasks := s\<rparr>)) \<and> frames_fit frame ts (w\<lparr>demo_tasks := s\<rparr>)"
proof -
  let ?hp = "sys_heap (demo_tasks w)"
  have fit: "unat (task_heap_index ?hp) + unat (frame t) + sum_list (map (\<lambda>t. unat (frame t)) ts) < 512"
    using assms by (simp add: frames_fit_def TASK_HEAP_SIZE_def add.assoc)
  then have "heap_ok False ?hp" "size_ok False (frame t)" by (simp_all add: heap_ok_def size_ok_def TASK_HEAP_SIZE_def)
  note new = operator_new_cases [OF this]
  let ?s = "(demo_tasks w)\<lparr>sys_heap := ?hp\<lparr>task_heap_index := task_heap_index ?hp + frame t\<rparr>\<rparr>"
  have "call_coro (frame t) body w = body (w\<lparr>demo_tasks := ?s\<rparr>)" for body
    using new fit by (simp add: call_coro_def coro_call_def get_return_object_def TASK_HEAP_SIZE_def)
  moreover have "frames_fit frame ts (w\<lparr>demo_tasks := ?s\<rparr>)"
    using new fit by (simp add: frames_fit_def TASK_HEAP_SIZE_def)
  ultimately show ?thesis by blast
qed

text \<open>Without room nothing of the coroutine runs, and the caller goes on.\<close>

lemma call_coro_full:
  assumes "heap_ok False (sys_heap (demo_tasks w))" and "size_ok False sz"
    and "TASK_HEAP_SIZE False \<le> unat (task_heap_index (sys_heap (demo_tasks w))) + unat sz"
  shows "call_coro sz body w = Some w"
  using operator_new_cases [OF assms(1,2)] assms(3)
  by (simp add: call_coro_def coro_call_def)

text \<open>The end of a coroutine changes nothing on the board: the frame is not reclaimed.\<close>

lemma board_coro_finish: "coro_finish False threw p fp s = s"
  by (simp add: coro_finish_def return_void_def unhandled_exception_def mark_done_def operator_delete_def Let_def)

lemma trap_cause_simps [simp]:
  "hart_ok w \<Longrightarrow> hart_ok (trap_cause c w)" "csr_file (irq_hart (trap_cause c w)) ''mcause'' = Some c"
  by (auto simp: trap_cause_def hart_ok_def)

lemma mcause_read: "csr_file h ''mcause'' = Some c \<Longrightarrow> reg_read mcause_ops h = Some (c, h)"
  by (simp add: reg_read_def mcause_ops_def rw_read)

section \<open>The interrupt enable bits\<close>

definition file_bit :: "(string \<rightharpoonup> 32 word) \<Rightarrow> string \<Rightarrow> nat \<Rightarrow> bool" where
  "file_bit file c k = (case file c of None \<Rightarrow> False | Some v \<Rightarrow> bit v k)"

definition bit_of :: "string \<Rightarrow> nat \<Rightarrow> 'z board_scheme \<Rightarrow> bool" where
  "bit_of c k w = file_bit (csr_file (irq_hart w)) c k"

definition mie_on :: "'z board_scheme \<Rightarrow> bool" where
  "mie_on w = bit_of ''mstatus'' 3 w"

definition mti_on :: "'z board_scheme \<Rightarrow> bool" where
  "mti_on w = bit_of ''mie'' 7 w"

text \<open>The two bits at each \<open>wfi\<close> so far.\<close>

definition board_waits :: "'z board_scheme \<Rightarrow> (bool \<times> bool) list" where
  "board_waits w = map (\<lambda>file. (file_bit file ''mstatus'' 3, file_bit file ''mie'' 7)) (wfi_log (irq_hart w))"

text \<open>
  The hart has the registers of the examples, keeps the two bits as they are written, and \<open>mstatus\<close>
  and \<open>mie\<close> share no bits.
\<close>

definition bits_ok :: "'z board_scheme \<Rightarrow> bool" where
  "bits_ok w \<longleftrightarrow> hart_ok w \<and>
     (\<forall>old v. bit (csr_legal (irq_hart w) ''mstatus'' old v) 3 = bit v 3) \<and>
     (\<forall>old v. bit (csr_legal (irq_hart w) ''mie'' old v) 7 = bit v 7) \<and>
     csr_leaves (irq_hart w) ''mstatus'' ''mie'' \<and> csr_leaves (irq_hart w) ''mie'' ''mstatus''"

lemma field_set_eq:
  assumes "csr_file h c = Some old" and "BIT_MASK F \<noteq> 0"
  shows "field_set (rw_ops t p c) F h =
    Some (csr_store c (csr_legal h c old (old OR to_csr_type t (BIT_MASK F))) h)"
  using assms
  by (cases "fits_imm (BIT_MASK F)") (simp_all add: field_set_def rw_set_bits, simp add: rw_ops_def zicsr_defs fits_imm_uimm csr_put_eq)

lemma field_clr_eq:
  assumes "csr_file h c = Some old" and "BIT_MASK F \<noteq> 0"
  shows "field_clr (rw_ops t p c) F h =
    Some (csr_store c (csr_legal h c old (old AND NOT (to_csr_type t (BIT_MASK F)))) h)"
  using assms
  by (cases "fits_imm (BIT_MASK F)") (simp_all add: field_clr_def rw_clr_bits, simp add: rw_ops_def zicsr_defs fits_imm_uimm csr_put_eq)

lemma enable_masks:
  "BIT_MASK (mstatus_data_mie :: 32 word csr_field) = 8" "BIT_MASK (mie_data_mti :: 32 word csr_field) = 0x80"
  by (simp_all add: mstatus_data_mie_def mie_data_mti_def)

lemma enable_bits:
  "bit (v OR 8 :: 32 word) 3" "\<not> bit (v AND NOT 8 :: 32 word) 3" "bit (v OR 0x80 :: 32 word) 7" "\<not> bit (v AND NOT 0x80 :: 32 word) 7"
proof -
  have "(8 :: 32 word) = push_bit 3 1" "(0x80 :: 32 word) = push_bit 7 1" by simp_all
  then show "bit (v OR 8 :: 32 word) 3" "\<not> bit (v AND NOT 8 :: 32 word) 3" "bit (v OR 0x80 :: 32 word) 7"
    "\<not> bit (v AND NOT 0x80 :: 32 word) 7"
    by (simp_all only: bit_or_iff bit_and_iff bit_not_iff bit_push_bit_iff) simp_all
qed

lemma bits_ok_store:
  "bits_ok w \<Longrightarrow> c \<in> demo_csrs \<Longrightarrow> bits_ok (w\<lparr>irq_hart := csr_store c v (irq_hart w)\<rparr>)"
  by (auto simp: bits_ok_def hart_ok_def)

lemma bit_of_store:
  "bit_of c k (w\<lparr>irq_hart := csr_store c v (irq_hart w)\<rparr>) = bit v k"
  "csr_leaves (irq_hart w) d c \<Longrightarrow> c \<noteq> d \<Longrightarrow> bit_of c k (w\<lparr>irq_hart := csr_store d v (irq_hart w)\<rparr>) = bit_of c k w"
  "board_waits (w\<lparr>irq_hart := csr_store d v (irq_hart w)\<rparr>) = board_waits w"
  by (simp_all add: bit_of_def file_bit_def board_waits_def csr_store_other)

lemma cpu_wfi_bits:
  "bits_ok w \<Longrightarrow> bits_ok (cpu_wfi w)" "mie_on (cpu_wfi w) = mie_on w" "mti_on (cpu_wfi w) = mti_on w"
  "board_waits (cpu_wfi w) = board_waits w @ [(mie_on w, mti_on w)]"
  by (simp_all add: cpu_wfi_def wfi_def bits_ok_def hart_ok_def csr_leaves_def mie_on_def mti_on_def bit_of_def board_waits_def)

text \<open>The statements in terms of the registers they store.\<close>

lemma bit_statements:
  assumes "bits_ok w"
  shows "\<exists>v. mstatus_mie_set w = Some (w\<lparr>irq_hart := csr_store ''mstatus'' v (irq_hart w)\<rparr>) \<and> bit v 3"
    and "\<exists>v. mstatus_mie_clr w = Some (w\<lparr>irq_hart := csr_store ''mstatus'' v (irq_hart w)\<rparr>) \<and> \<not> bit v 3"
    and "\<exists>v. mie_mti_set w = Some (w\<lparr>irq_hart := csr_store ''mie'' v (irq_hart w)\<rparr>) \<and> bit v 7"
    and "\<exists>v. mie_mti_clr w = Some (w\<lparr>irq_hart := csr_store ''mie'' v (irq_hart w)\<rparr>) \<and> \<not> bit v 7"
proof -
  have h: "hart_ok w" and l: "\<And>old v. bit (csr_legal (irq_hart w) ''mstatus'' old v) 3 = bit v 3"
    "\<And>old v. bit (csr_legal (irq_hart w) ''mie'' old v) 7 = bit v 7" using assms by (simp_all add: bits_ok_def)
  obtain a b where r: "csr_file (irq_hart w) ''mstatus'' = Some a" "csr_file (irq_hart w) ''mie'' = Some b"
    using hart_ok_csr [OF h] by (metis demo_csrs_simps(1,2))
  show "\<exists>v. mstatus_mie_set w = Some (w\<lparr>irq_hart := csr_store ''mstatus'' v (irq_hart w)\<rparr>) \<and> bit v 3"
    using l(1) [of a "a OR 8"] enable_bits(1) [of a]
    by (intro exI) (auto simp: mstatus_mie_set_def mstatus_ops_def field_set_eq [OF r(1)] enable_masks)
  show "\<exists>v. mstatus_mie_clr w = Some (w\<lparr>irq_hart := csr_store ''mstatus'' v (irq_hart w)\<rparr>) \<and> \<not> bit v 3"
    using l(1) [of a "a AND NOT 8"] enable_bits(2) [of a]
    by (intro exI) (auto simp: mstatus_mie_clr_def mstatus_ops_def field_clr_eq [OF r(1)] enable_masks)
  show "\<exists>v. mie_mti_set w = Some (w\<lparr>irq_hart := csr_store ''mie'' v (irq_hart w)\<rparr>) \<and> bit v 7"
    using l(2) [of b "b OR 0x80"] enable_bits(3) [of b]
    by (intro exI) (auto simp: mie_mti_set_def mie_ops_def field_set_eq [OF r(2)] enable_masks)
  show "\<exists>v. mie_mti_clr w = Some (w\<lparr>irq_hart := csr_store ''mie'' v (irq_hart w)\<rparr>) \<and> \<not> bit v 7"
    using l(2) [of b "b AND NOT 0x80"] enable_bits(4) [of b]
    by (intro exI) (auto simp: mie_mti_clr_def mie_ops_def field_clr_eq [OF r(2)] enable_masks)
qed

interpretation rv: interrupt_bits "bits_ok :: 'z board_scheme \<Rightarrow> bool" mie_on mti_on board_waits
  mstatus_mie_set mstatus_mie_clr mie_mti_set mie_mti_clr cpu_wfi
proof unfold_locales
  fix w :: "'z board_scheme"
  assume w: "bits_ok w"
  note ok = bits_ok_store [OF w demo_csrs_simps(1)] bits_ok_store [OF w demo_csrs_simps(2)]
  have "csr_leaves (irq_hart w) ''mstatus'' ''mie''" "csr_leaves (irq_hart w) ''mie'' ''mstatus''"
    using w by (simp_all add: bits_ok_def)
  note on = mie_on_def mti_on_def bit_of_store(1,3) bit_of_store(2) [OF this(1)] bit_of_store(2) [OF this(2)]
  from bit_statements(1) [OF w]
  show "\<exists>s'. mstatus_mie_set w = Some s' \<and> bits_ok s' \<and> mie_on s' \<and> mti_on s' = mti_on w \<and> board_waits s' = board_waits w"
    using ok by (auto simp: on)
  from bit_statements(2) [OF w]
  show "\<exists>s'. mstatus_mie_clr w = Some s' \<and> bits_ok s' \<and> \<not> mie_on s' \<and> mti_on s' = mti_on w \<and> board_waits s' = board_waits w"
    using ok by (auto simp: on)
  from bit_statements(3) [OF w]
  show "\<exists>s'. mie_mti_set w = Some s' \<and> bits_ok s' \<and> mti_on s' \<and> mie_on s' = mie_on w \<and> board_waits s' = board_waits w"
    using ok by (auto simp: on)
  from bit_statements(4) [OF w]
  show "\<exists>s'. mie_mti_clr w = Some s' \<and> bits_ok s' \<and> \<not> mti_on s' \<and> mie_on s' = mie_on w \<and> board_waits s' = board_waits w"
    using ok by (auto simp: on)
  show "bits_ok (cpu_wfi w) \<and> mie_on (cpu_wfi w) = mie_on w \<and> mti_on (cpu_wfi w) = mti_on w \<and>
      board_waits (cpu_wfi w) = board_waits w @ [(mie_on w, mti_on w)]"
    using w by (simp add: cpu_wfi_bits)
qed

end
