(* ===== verification/Host.thy ===== *)
theory Host
  imports Board
begin

text \<open>
  The host emulation of the hardware, \<open>include/host/*.hpp\<close>: registers that are plain variables, a
  timer on \<open>std::chrono::high_resolution_clock\<close>, a handler that is only stored and a \<open>wfi\<close> that
  does nothing. A reading of the host's clock is an argument of the operation that makes it; its
  time points count nanoseconds. The emulation provides the same interfaces \<open>interrupt_bits\<close> and
  \<open>clock_source\<close> as the board.
\<close>

section \<open>Registers\<close>

record mtvec_emul =
  emul_vector :: "64 word"

record bit_emul =
  emul_value :: bool

record mie_emul =
  emul_mti :: bit_emul

record mstatus_emul =
  emul_mie :: bit_emul

text \<open>\<open>csr_s\<close>; \<open>mcause_emul\<close> has no data.\<close>

record csr_s =
  csr_mtvec :: mtvec_emul
  csr_mie :: mie_emul
  csr_mstatus :: mstatus_emul

text \<open>
  The emulated registers together with the history of the two enable bits at each call of \<open>wfi\<close>,
  which the program does not keep.
\<close>

record host_hart = csr_s +
  host_waits :: "(bool \<times> bool) list"

definition mtvec_emul_write :: "64 word \<Rightarrow> mtvec_emul \<Rightarrow> mtvec_emul" where
  "mtvec_emul_write vector r = r\<lparr>emul_vector := vector\<rparr>"

definition bit_emul_set :: "bit_emul \<Rightarrow> bit_emul" where
  "bit_emul_set b = b\<lparr>emul_value := True\<rparr>"

definition bit_emul_clr :: "bit_emul \<Rightarrow> bit_emul" where
  "bit_emul_clr b = b\<lparr>emul_value := False\<rparr>"

definition mcause_emul_read :: "32 word" where
  "mcause_emul_read = 0"

definition host_interrupt_BIT_MASK :: "32 word" where
  "host_interrupt_BIT_MASK = push_bit (32 - 1) 1"

text \<open>The statements of the examples on \<open>riscv::csrs\<close>.\<close>

definition host_mstatus_mie_set :: "'z csr_s_scheme \<Rightarrow> 'z csr_s_scheme option" where
  "host_mstatus_mie_set h = Some (h\<lparr>csr_mstatus := (csr_mstatus h)\<lparr>emul_mie := bit_emul_set (emul_mie (csr_mstatus h))\<rparr>\<rparr>)"

definition host_mstatus_mie_clr :: "'z csr_s_scheme \<Rightarrow> 'z csr_s_scheme option" where
  "host_mstatus_mie_clr h = Some (h\<lparr>csr_mstatus := (csr_mstatus h)\<lparr>emul_mie := bit_emul_clr (emul_mie (csr_mstatus h))\<rparr>\<rparr>)"

definition host_mie_mti_set :: "'z csr_s_scheme \<Rightarrow> 'z csr_s_scheme option" where
  "host_mie_mti_set h = Some (h\<lparr>csr_mie := (csr_mie h)\<lparr>emul_mti := bit_emul_set (emul_mti (csr_mie h))\<rparr>\<rparr>)"

definition host_mie_mti_clr :: "'z csr_s_scheme \<Rightarrow> 'z csr_s_scheme option" where
  "host_mie_mti_clr h = Some (h\<lparr>csr_mie := (csr_mie h)\<lparr>emul_mti := bit_emul_clr (emul_mti (csr_mie h))\<rparr>\<rparr>)"

section \<open>CPU and handler\<close>

definition host_mie_on :: "'z csr_s_scheme \<Rightarrow> bool" where
  "host_mie_on h = emul_value (emul_mie (csr_mstatus h))"

definition host_mti_on :: "'z csr_s_scheme \<Rightarrow> bool" where
  "host_mti_on h = emul_value (emul_mti (csr_mie h))"

text \<open>\<open>wfi\<close> leaves the emulated registers alone.\<close>

definition host_wfi :: "host_hart \<Rightarrow> host_hart" where
  "host_wfi h = h\<lparr>host_waits := host_waits h @ [(host_mie_on h, host_mti_on h)]\<rparr>"

definition host_isa_wfi :: unit where
  "host_isa_wfi = ()"

text \<open>The constructor of \<open>riscv::cpu\<close> ignores its arguments.\<close>

definition host_cpu_ctor :: "int \<Rightarrow> string list \<Rightarrow> csr_s \<Rightarrow> 't \<Rightarrow> unit" where
  "host_cpu_ctor argc argv csrs timer = ()"

record 'f host_handler =
  irq_callback :: 'f

definition host_handler_ctor :: "'f \<Rightarrow> 'f host_handler" where
  "host_handler_ctor isr_handler = \<lparr>irq_callback = isr_handler\<rparr>"

definition host_sleep :: "host_hart \<Rightarrow> host_hart option" where
  "host_sleep h = do {
     h \<leftarrow> host_mstatus_mie_clr h;
     h \<leftarrow> host_mie_mti_set h;
     let h = host_wfi h;
     host_mstatus_mie_set h
   }"

section \<open>Timer\<close>

text \<open>\<open>mtimecmp_\<close> counts microseconds and is not initialised, \<open>start_\<close> is a time point.\<close>

record host_timer =
  host_mtimecmp :: int
  host_start :: int

definition host_timer_ctor :: "int \<Rightarrow> int \<Rightarrow> host_timer" where
  "host_timer_ctor junk t_now = \<lparr>host_mtimecmp = junk, host_start = t_now\<rparr>"

definition host_set_ticks_time_cmp :: "int \<Rightarrow> host_timer \<Rightarrow> host_timer" where
  "host_set_ticks_time_cmp time_offset t = t\<lparr>host_mtimecmp := time_offset\<rparr>"

definition host_get_ticks_time :: "int \<Rightarrow> host_timer \<Rightarrow> int option" where
  "host_get_ticks_time t_now t = do {
     d \<leftarrow> i64 (t_now - host_start t);
     duration_cast to_int64 period_nano period_micro d
   }"

definition host_set_time_cmp :: "period \<Rightarrow> int \<Rightarrow> host_timer \<Rightarrow> host_timer option" where
  "host_set_time_cmp p time_offset t = do {
     d \<leftarrow> duration_cast to_int64 p period_micro time_offset;
     Some (host_set_ticks_time_cmp d t)
   }"

definition host_get_time :: "period \<Rightarrow> int \<Rightarrow> host_timer \<Rightarrow> int option" where
  "host_get_time p t_now t = do {
     d \<leftarrow> host_get_ticks_time t_now t;
     duration_cast to_int64 period_micro p d
   }"

section \<open>The interfaces\<close>

lemmas host_bit_defs = host_mie_on_def host_mti_on_def bit_emul_set_def bit_emul_clr_def
  host_mstatus_mie_set_def host_mstatus_mie_clr_def host_mie_mti_set_def host_mie_mti_clr_def

interpretation emul: interrupt_bits "\<lambda>_ :: host_hart. True" host_mie_on host_mti_on host_waits
  host_mstatus_mie_set host_mstatus_mie_clr host_mie_mti_set host_mie_mti_clr host_wfi
  by unfold_locales (simp_all add: host_bit_defs host_wfi_def)

text \<open>
  The emulated timer as a clock: \<open>hclk n\<close> is the \<open>n\<close>-th reading of the host's clock, which does
  not run backwards, starts after the timer was made and stays in range.
\<close>

fun host_reading :: "(nat \<Rightarrow> int) \<times> nat \<times> host_timer \<Rightarrow> (int \<times> (nat \<Rightarrow> int) \<times> nat \<times> host_timer) option" where
  "host_reading (hclk, n, t) = do { d \<leftarrow> host_get_ticks_time (hclk n) t; Some (d, hclk, Suc n, t) }"

fun host_least :: "(nat \<Rightarrow> int) \<times> nat \<times> host_timer \<Rightarrow> int" where
  "host_least (hclk, n, t) = (hclk n - host_start t) div 1000"

fun host_clock_ok :: "(nat \<Rightarrow> int) \<times> nat \<times> host_timer \<Rightarrow> bool" where
  "host_clock_ok (hclk, n, t) \<longleftrightarrow> mono hclk \<and> (\<forall>i. host_start t \<le> hclk i \<and> hclk i - host_start t < 2 ^ 63)"

lemma host_ticks:
  assumes "0 \<le> t_now - host_start t" and "t_now - host_start t < 2 ^ 63"
  shows "host_get_ticks_time t_now t = Some ((t_now - host_start t) div 1000)"
proof -
  let ?d = "t_now - host_start t"
  have r: "ratio_divide period_nano period_micro = (1, 1000)" by code_simp
  have "0 \<le> ?d div 1000" "?d div 1000 < 2 ^ 63" using assms by (simp_all add: pos_imp_zdiv_nonneg_iff)
  then have "to_int64 (?d div 1000) = ?d div 1000" by (intro to_int64_small) simp_all
  moreover have "i64 ?d = Some ?d" using assms by (simp add: i64_def)
  ultimately show ?thesis using assms by (simp add: host_get_ticks_time_def duration_cast_def r)
qed

interpretation hclock: clock_source host_clock_ok host_least host_reading
proof unfold_locales
  fix s :: "(nat \<Rightarrow> int) \<times> nat \<times> host_timer"
  assume s: "host_clock_ok s"
  obtain hclk n t where e: "s = (hclk, n, t)" by (cases s)
  from s have ok: "host_start t \<le> hclk n" "hclk n - host_start t < 2 ^ 63" "hclk n \<le> hclk (Suc n)"
    by (auto simp: e mono_iff_le_Suc)
  then have "host_least s \<le> host_least (hclk, Suc n, t)" by (simp add: e zdiv_mono1)
  with host_ticks [of "hclk n" t] ok s show "\<exists>d s'. host_reading s = Some (d, s') \<and> host_clock_ok s' \<and>
      host_least s \<le> d \<and> d \<le> host_least s'"
    by (intro exI [of _ "(hclk n - host_start t) div 1000"] exI [of _ "(hclk, Suc n, t)"]) (simp add: e)
qed

text \<open>The handlers of the examples find no interrupt in the emulated \<open>mcause\<close>.\<close>

lemma host_handler_inert: "mcause_emul_read AND host_interrupt_BIT_MASK = 0"
  by (simp add: mcause_emul_read_def)

section \<open>Properties\<close>

text \<open>
  C18: the statements at the end of a round of the main loops behave alike on the board and in the
  host emulation. They execute wfi once, at a moment when interrupts are disabled as a whole and
  the timer interrupt is selected, so that no interrupt can be taken between the two and lost;
  afterwards both bits are set. On the board this needs a hart that keeps the two bits as they are
  written and whose mstatus and mie share no bits.
\<close>

theorem sleep_enables_interrupts:
  assumes "bits_ok w"
  shows "(\<exists>w'. sleep_until_interrupt w = Some w' \<and> mie_on w' \<and> mti_on w' \<and>
      board_waits w' = board_waits w @ [(False, True)]) \<and>
    (\<exists>h'. host_sleep h = Some h' \<and> host_mie_on h' \<and> host_mti_on h' \<and>
      host_waits h' = host_waits h @ [(False, True)])"
  using rv.sleep [OF assms] emul.sleep [OF TrueI, of h]
  unfolding sleep_until_interrupt_def host_sleep_def by blast

definition idle_board :: board where
  "idle_board = \<lparr>irq_hart = plain_hart [(''mstatus'', 0x1800), (''mie'', 0), (''mcause'', 0), (''mscratch'', 0), (''mtvec'', 0)],
     execute_handler = None, demo_timer = \<lparr>bus_count = 0, mtimecmp = 0, cmp_writes = []\<rparr>,
     demo_tasks = \<lparr>sys_heap = task_heap_init, sys_flags = []\<rparr>\<rparr>"

definition idle_host :: host_hart where
  "idle_host = \<lparr>csr_mtvec = \<lparr>emul_vector = 0\<rparr>, csr_mie = \<lparr>emul_mti = \<lparr>emul_value = False\<rparr>\<rparr>,
     csr_mstatus = \<lparr>emul_mie = \<lparr>emul_value = False\<rparr>\<rparr>, host_waits = []\<rparr>"

theorem sleep_enables_interrupts_witness:
  "\<exists>w2. sleep_until_interrupt idle_board = Some w2 \<and> mie_on w2 \<and> mti_on w2 \<and> board_waits w2 = [(False, True)] \<and>
   (\<exists>h2. host_sleep idle_host = Some h2 \<and> host_mie_on h2 \<and> host_mti_on h2 \<and> host_waits h2 = [(False, True)])"
proof -
  have "bits_ok idle_board" by (auto simp: bits_ok_def hart_ok_def idle_board_def demo_csrs_def)
  moreover have "board_waits idle_board = []" by (simp add: board_waits_def idle_board_def)
  moreover have "host_waits idle_host = []" by (simp add: idle_host_def)
  ultimately show ?thesis using sleep_enables_interrupts [of idle_board idle_host] by auto
qed

end
