(* ===== verification/Trace_Log.thy ===== *)
theory Trace_Log
  imports Coro_Prelude
begin

text \<open>
  \<open>include/debug/trace.hpp\<close> with \<open>ENABLE_TRACE\<close> defined: a ring of 128 records and the
  macros that write into the current record. The array \<open>records\<close> is a map from indices; that
  every access stays inside the 128 elements is the invariant \<open>trace_ok\<close>.
\<close>

section \<open>Records and the manager\<close>

definition TRACE_ENTRY_COUNT_POW2 :: nat where
  "TRACE_ENTRY_COUNT_POW2 = 128"

record trace_log_entry =
  index :: "32 word"
  timestamp :: "32 word"
  delta_timestamp :: "32 word"
  coro_pending :: bool
  next_wake_delay :: "32 word"
  scheduler_update_i :: "16 word"
  scheduler_update_r :: "16 word"

text \<open>The static members \<open>records\<close> and \<open>_index\<close> of \<open>trace_log_manager\<close>.\<close>

record trace_log_manager =
  records :: "nat \<Rightarrow> trace_log_entry"
  cur_index :: "32 word"

definition COUNT_MASK :: "32 word" where
  "COUNT_MASK = of_nat TRACE_ENTRY_COUNT_POW2 - 1"

definition zero_entry :: trace_log_entry where
  "zero_entry = \<lparr>index = 0, timestamp = 0, delta_timestamp = 0, coro_pending = False,
     next_wake_delay = 0, scheduler_update_i = 0, scheduler_update_r = 0\<rparr>"

definition trace_init :: trace_log_manager where
  "trace_init = \<lparr>records = (\<lambda>_. zero_entry), cur_index = COUNT_MASK\<rparr>"

definition get_entry :: "trace_log_manager \<Rightarrow> trace_log_entry" where
  "get_entry m = records m (unat (cur_index m))"

text \<open>The macros assign through the reference that \<open>get_entry\<close> returns.\<close>

definition update_entry :: "(trace_log_entry \<Rightarrow> trace_log_entry) \<Rightarrow> trace_log_manager
    \<Rightarrow> trace_log_manager" where
  "update_entry f m = m\<lparr>records := (records m)(unat (cur_index m) := f (get_entry m))\<rparr>"

definition next_entry :: "32 word \<Rightarrow> trace_log_manager \<Rightarrow> trace_log_manager" where
  "next_entry t m =
     (let prev_timestamp = timestamp (records m (unat (cur_index m)));
          m = m\<lparr>cur_index := (cur_index m + 1) AND COUNT_MASK\<rparr>;
          m = update_entry (\<lambda>_. zero_entry) m;
          m = update_entry (\<lambda>e. e\<lparr>index := cur_index m\<rparr>) m;
          m = update_entry (\<lambda>e. e\<lparr>timestamp := t\<rparr>) m
      in update_entry (\<lambda>e. e\<lparr>delta_timestamp := t - prev_timestamp\<rparr>) m)"

definition TRACE_TIMESTAMP :: "32 word \<Rightarrow> trace_log_manager \<Rightarrow> trace_log_manager" where
  "TRACE_TIMESTAMP t = next_entry t"

text \<open>\<open>TRACE_VALUE(label, v)\<close> and \<open>TRACE_VALUE_FLAG(label, v)\<close> for the labels in use.\<close>

definition TRACE_VALUE_i :: "16 word \<Rightarrow> trace_log_manager \<Rightarrow> trace_log_manager" where
  "TRACE_VALUE_i v = update_entry (\<lambda>e. e\<lparr>scheduler_update_i := v\<rparr>)"

definition TRACE_VALUE_r :: "16 word \<Rightarrow> trace_log_manager \<Rightarrow> trace_log_manager" where
  "TRACE_VALUE_r v = update_entry (\<lambda>e. e\<lparr>scheduler_update_r := v\<rparr>)"

definition TRACE_VALUE_FLAG_r :: "16 word \<Rightarrow> trace_log_manager \<Rightarrow> trace_log_manager" where
  "TRACE_VALUE_FLAG_r v = update_entry (\<lambda>e. e\<lparr>scheduler_update_r := scheduler_update_r e OR v\<rparr>)"

definition TRACE_VALUE_pending :: "bool \<Rightarrow> trace_log_manager \<Rightarrow> trace_log_manager" where
  "TRACE_VALUE_pending v = update_entry (\<lambda>e. e\<lparr>coro_pending := v\<rparr>)"

definition TRACE_VALUE_delay :: "32 word \<Rightarrow> trace_log_manager \<Rightarrow> trace_log_manager" where
  "TRACE_VALUE_delay v = update_entry (\<lambda>e. e\<lparr>next_wake_delay := v\<rparr>)"

section \<open>The ring\<close>

definition trace_ok :: "trace_log_manager \<Rightarrow> bool" where
  "trace_ok m \<longleftrightarrow> unat (cur_index m) < TRACE_ENTRY_COUNT_POW2"

lemma and_count_mask: "unat (w AND COUNT_MASK) = unat w mod 128"
proof -
  have "COUNT_MASK = mask 7"
    by (simp add: COUNT_MASK_def TRACE_ENTRY_COUNT_POW2_def mask_eq_exp_minus_1)
  then have "w AND COUNT_MASK = take_bit 7 w" by (simp only: take_bit_eq_mask)
  then have "unat (w AND COUNT_MASK) = take_bit 7 (unat w)" by (simp only: unsigned_take_bit_eq)
  then show ?thesis by (simp add: take_bit_eq_mod)
qed

lemma mod_ring_neq: "k < n \<Longrightarrow> n < k + 128 \<Longrightarrow> k mod 128 \<noteq> n mod (128 :: nat)"
proof
  assume *: "k < n" "n < k + 128" and "k mod 128 = n mod 128"
  then have "128 dvd n - k" by (metis less_imp_le mod_eq_dvd_iff_nat)
  with * show False by (auto dest: dvd_imp_le)
qed

lemma unat_next_index:
  "trace_ok m \<Longrightarrow> unat ((cur_index m + 1) AND COUNT_MASK) = (unat (cur_index m) + 1) mod 128"
  by (simp add: and_count_mask trace_ok_def TRACE_ENTRY_COUNT_POW2_def unat_word_ariths)

lemma cur_index_update_entry [simp]: "cur_index (update_entry f m) = cur_index m"
  by (simp add: update_entry_def)

lemma records_update_entry [simp]:
  "records (update_entry f m) i =
     (if i = unat (cur_index m) then f (records m i) else records m i)"
  by (simp add: update_entry_def get_entry_def)

lemma trace_ok_init: "trace_ok trace_init"
  by (simp add: trace_ok_def trace_init_def COUNT_MASK_def TRACE_ENTRY_COUNT_POW2_def)

lemma trace_ok_update_entry [simp]: "trace_ok (update_entry f m) = trace_ok m"
  by (simp add: trace_ok_def)

lemma cur_index_next_entry: "cur_index (next_entry t m) = (cur_index m + 1) AND COUNT_MASK"
  by (simp add: next_entry_def Let_def)

lemma trace_ok_next_entry: "trace_ok (next_entry t m)"
  by (simp add: trace_ok_def cur_index_next_entry and_count_mask TRACE_ENTRY_COUNT_POW2_def)

lemma records_next_entry:
  "records (next_entry t m) i =
     (if i = unat ((cur_index m + 1) AND COUNT_MASK)
      then zero_entry\<lparr>index := (cur_index m + 1) AND COUNT_MASK, timestamp := t,
             delta_timestamp := t - timestamp (get_entry m)\<rparr>
      else records m i)"
  by (simp add: next_entry_def Let_def get_entry_def)

text \<open>Logging a list of time stamps, oldest first.\<close>

definition log_all :: "32 word list \<Rightarrow> trace_log_manager \<Rightarrow> trace_log_manager" where
  "log_all ts m = fold next_entry ts m"

lemma log_all_simps [simp]:
  "log_all [] m = m" "log_all (ts @ [t]) m = next_entry t (log_all ts m)"
  by (simp_all add: log_all_def)

lemma trace_ok_log_all: "trace_ok m \<Longrightarrow> trace_ok (log_all ts m)"
  by (induction ts rule: rev_induct) (simp_all add: trace_ok_next_entry)

lemma cur_index_log_all:
  "unat (cur_index (log_all ts trace_init)) = (127 + length ts) mod 128"
proof (induction ts rule: rev_induct)
  case Nil
  then show ?case by (simp add: trace_init_def COUNT_MASK_def TRACE_ENTRY_COUNT_POW2_def)
next
  case (snoc t ts)
  then show ?case
    by (simp add: cur_index_next_entry unat_next_index trace_ok_log_all trace_ok_init mod_Suc_eq)
qed

lemma log_all_slot:
  assumes "k < length ts" and "length ts \<le> k + 128"
  shows "timestamp (records (log_all ts trace_init) (k mod 128)) = ts ! k"
  using assms
proof (induction ts rule: rev_induct)
  case Nil
  then show ?case by simp
next
  case (snoc t ts)
  have i: "unat ((cur_index (log_all ts trace_init) + 1) AND COUNT_MASK) = length ts mod 128"
    using cur_index_log_all [of ts]
    by (simp add: unat_next_index trace_ok_log_all trace_ok_init mod_Suc_eq)
  show ?case
  proof (cases "k = length ts")
    case True
    with i show ?thesis by (simp add: records_next_entry)
  next
    case False
    with snoc.prems have k: "k < length ts" "length ts < k + 128" by simp_all
    then have "k mod 128 \<noteq> length ts mod 128" by (rule mod_ring_neq)
    with i k snoc.IH show ?thesis by (simp add: records_next_entry nth_append)
  qed
qed

section \<open>Properties\<close>

text \<open>
  C25: the trace ring keeps the last 128 time stamps: after any number of next_entry calls, the
  k-th stamp is found in record k modulo 128 as long as at most 128 stamps have been logged
  from it on.
\<close>

theorem trace_ring:
  assumes "k < length ts" and "length ts \<le> k + TRACE_ENTRY_COUNT_POW2"
  shows "timestamp (records (log_all ts trace_init) (k mod TRACE_ENTRY_COUNT_POW2)) = ts ! k"
  using log_all_slot [of k ts] assms by (simp add: TRACE_ENTRY_COUNT_POW2_def)

theorem trace_ring_witness:
  "timestamp (records (log_all [10, 20, 30] trace_init) 1) = 20"
  using trace_ring [of 1 "[10, 20, 30]"] by (simp add: TRACE_ENTRY_COUNT_POW2_def)

end
