(* ===== verification/Scheduler.thy ===== *)
theory Scheduler
  imports Static_List_Correct Trace_Log Wake_Condition
begin

text \<open>
  The schedulers of \<open>include/coro/scheduler.hpp\<close>. The template parameter
  \<open>WAKE_CONDITION_T\<close> is the argument \<open>ready\<close>, its \<open>ready_to_wake\<close>. Resuming a coroutine runs
  code of the program, which may use the scheduler again: \<open>resume_h\<close> is that effect, a
  function on the scheduler's list, the trace log and the rest \<open>'e\<close> of the program's state.
\<close>

section \<open>Entries\<close>

record ('h, 'c) schedule_entry =
  entry_handle :: 'h
  entry_condition :: 'c

definition schedule_entry_ctor :: "'h \<Rightarrow> 'c \<Rightarrow> ('h, 'c) schedule_entry" where
  "schedule_entry_ctor h wc = \<lparr>entry_handle = h, entry_condition = wc\<rparr>"

text \<open>
  The move constructor default-initialises the members (\<open>dflt\<close>) and swaps them with the
  source's: the result is the new entry and what is left in the source.
\<close>

definition schedule_entry_move :: "('h, 'c) schedule_entry \<Rightarrow> ('h, 'c) schedule_entry
    \<Rightarrow> ('h, 'c) schedule_entry \<times> ('h, 'c) schedule_entry" where
  "schedule_entry_move dflt src =
     (let this = dflt;
          (h1, h2) = (entry_handle src, entry_handle this);
          (c1, c2) = (entry_condition src, entry_condition this)
      in (this\<lparr>entry_handle := h1, entry_condition := c1\<rparr>,
          src\<lparr>entry_handle := h2, entry_condition := c2\<rparr>))"

definition entry_ready :: "('c \<Rightarrow> 'c \<Rightarrow> bool) \<Rightarrow> ('h, 'c) schedule_entry \<Rightarrow> 'c \<Rightarrow> bool" where
  "entry_ready ready e rc = ready (entry_condition e) rc"

lemma schedule_entry_move_fst [simp]: "fst (schedule_entry_move dflt src) = src"
  by (simp add: schedule_entry_move_def)

section \<open>\<open>scheduler_ordered\<close>\<close>

text \<open>The member \<open>waiting_\<close> is the whole state of a scheduler.\<close>

type_synonym ('h, 'c) task_list = "('h, 'c) schedule_entry static_list"

type_synonym ('h, 'c, 'e) sched_world = "('h, 'c) task_list \<times> trace_log_manager \<times> 'e"

definition scheduler_empty :: "'a static_list \<Rightarrow> bool" where
  "scheduler_empty waiting = list_empty waiting"

text \<open>The search loop of \<open>insert\<close>, then \<open>emplace\<close> of the moved entry.\<close>

definition scheduler_insert :: "('c \<Rightarrow> 'c \<Rightarrow> bool) \<Rightarrow> ('h, 'c) schedule_entry \<Rightarrow> 'h \<Rightarrow> 'c
    \<Rightarrow> ('h, 'c) task_list \<Rightarrow> ('h, 'c) task_list option" where
  "scheduler_insert ready dflt h wake_condition waiting = do {
     i \<leftarrow> scan_until (\<lambda>i. i = list_end waiting)
       (\<lambda>i. map_option (\<lambda>e. ready wake_condition (entry_condition e)) (iterator_value waiting i))
       (iterator_inc False waiting) (list_begin waiting);
     emplace i (fst (schedule_entry_move dflt (schedule_entry_ctor h wake_condition))) waiting
   }"

text \<open>
  The loop of \<open>resume\<close>: \<open>i\<close>, \<open>j\<close>, \<open>pending\<close> and \<open>pc\<close> (\<open>priority_condition\<close>) are its
  variables, the pair is the value returned.
\<close>

partial_function (option) resume_loop ::
    "('h \<Rightarrow> ('h, 'c, 'e) sched_world \<Rightarrow> ('h, 'c, 'e) sched_world option) \<Rightarrow> ('c \<Rightarrow> 'c \<Rightarrow> bool)
     \<Rightarrow> 'c \<Rightarrow> ptr \<Rightarrow> 16 word \<Rightarrow> bool \<Rightarrow> 'c option \<Rightarrow> ('h, 'c, 'e) sched_world
     \<Rightarrow> ((bool \<times> 'c option) \<times> ('h, 'c, 'e) sched_world) option" where
  "resume_loop resume_h ready rc i j pending pc w =
     (if i = list_end (fst w) then
        Some ((pending, pc), fst w, TRACE_VALUE_FLAG_r 8 (fst (snd w)), snd (snd w))
      else Option.bind (iterator_value (fst w) i) (\<lambda>en.
        if entry_ready ready en rc then
          Option.bind (erase i (fst w)) (\<lambda>waiting.
          Option.bind (resume_h (entry_handle en)
              (waiting, TRACE_VALUE_FLAG_r 1 (fst (snd w)), snd (snd w))) (\<lambda>w'.
          Some ((True, pc), w')))
        else
          (let c = entry_condition en;
               (pc', tr) = (if pc = None \<or> ready (the pc) c
                            then (Some c, TRACE_VALUE_FLAG_r 2 (fst (snd w)))
                            else (pc, TRACE_VALUE_FLAG_r 4 (fst (snd w))))
           in Option.bind (iterator_inc False (fst w) i) (\<lambda>i'.
              resume_loop resume_h ready rc i' (j + 1) True pc'
                (fst w, TRACE_VALUE_i (j + 1) tr, snd (snd w))))))"

declare resume_loop.simps [code]

definition scheduler_resume ::
    "('h \<Rightarrow> ('h, 'c, 'e) sched_world \<Rightarrow> ('h, 'c, 'e) sched_world option) \<Rightarrow> ('c \<Rightarrow> 'c \<Rightarrow> bool)
     \<Rightarrow> 'c \<Rightarrow> ('h, 'c, 'e) sched_world \<Rightarrow> ((bool \<times> 'c option) \<times> ('h, 'c, 'e) sched_world) option" where
  "scheduler_resume resume_h ready rc w = (case w of (waiting, tr, e) \<Rightarrow>
     resume_loop resume_h ready rc (list_begin waiting) 0 False None
       (waiting, TRACE_VALUE_r 0 (TRACE_VALUE_i 0 tr), e))"

section \<open>\<open>scheduler_unordered\<close>\<close>

definition unordered_insert :: "'h \<Rightarrow> 'h static_list \<Rightarrow> 'h static_list option" where
  "unordered_insert h waiting = emplace_back h waiting"

text \<open>
  The body of the loop of \<open>resume\<close>, and \<open>resume\<close>, which runs until the list is empty, which it
  may never be.
\<close>

definition unordered_round ::
    "('h \<Rightarrow> 'h static_list \<times> 'e \<Rightarrow> ('h static_list \<times> 'e) option)
     \<Rightarrow> 'h static_list \<times> 'e \<Rightarrow> ('h static_list \<times> 'e) option" where
  "unordered_round resume_h w =
     Option.bind (iterator_value (fst w) (list_begin (fst w))) (\<lambda>h.
     Option.bind (pop_front (fst w)) (\<lambda>waiting.
     resume_h h (waiting, snd w)))"

partial_function (option) unordered_resume ::
    "('h \<Rightarrow> 'h static_list \<times> 'e \<Rightarrow> ('h static_list \<times> 'e) option)
     \<Rightarrow> 'h static_list \<times> 'e \<Rightarrow> ('h static_list \<times> 'e) option" where
  "unordered_resume resume_h w =
     (if list_empty (fst w) then Some w
      else Option.bind (unordered_round resume_h w) (unordered_resume resume_h))"

declare unordered_resume.simps [code]

end
