(* ===== verification/Scheduler_Correct.thy ===== *)
theory Scheduler_Correct
  imports Scheduler
begin

text \<open>
  What the schedulers do to the sequence of waiting entries: where \<open>insert\<close> puts an entry,
  which coroutine \<open>resume\<close> wakes and what it returns, for any wake condition that passes
  \<open>wake_test\<close> and any well-formed list; and the loop of \<open>scheduler_unordered::resume\<close>.
\<close>

section \<open>Insertion\<close>

definition new_entry :: "'h \<Rightarrow> 'c \<Rightarrow> ('h, 'c) schedule_entry" where
  "new_entry h wc = schedule_entry_ctor h wc"

lemma entry_condition_new [simp]: "entry_condition (new_entry h wc) = wc"
  by (simp add: new_entry_def schedule_entry_ctor_def)

lemma entry_handle_new [simp]: "entry_handle (new_entry h wc) = h"
  by (simp add: new_entry_def schedule_entry_ctor_def)

text \<open>The specification of \<open>insert\<close>: before the first entry the new one is ready for.\<close>

definition insert_spec :: "('c \<Rightarrow> 'c \<Rightarrow> bool) \<Rightarrow> 'h \<Rightarrow> 'c \<Rightarrow> ('h, 'c) schedule_entry list
    \<Rightarrow> ('h, 'c) schedule_entry list" where
  "insert_spec ready h wc es =
     takeWhile (\<lambda>e. \<not> ready wc (entry_condition e)) es @ new_entry h wc #
     dropWhile (\<lambda>e. \<not> ready wc (entry_condition e)) es"

lemma scheduler_insert_contents:
  assumes "wf_list waiting"
  shows "\<exists>waiting'. scheduler_insert ready dflt h wc waiting = Some waiting' \<and> wf_list waiting' \<and>
    capacity waiting' = capacity waiting \<and>
    contents waiting' = (if length (contents waiting) < capacity waiting
      then insert_spec ready h wc (contents waiting) else contents waiting)"
proof -
  let ?P = "\<lambda>e. ready wc (entry_condition e)"
  have "scheduler_insert ready dflt h wc waiting =
      emplace (iter_at waiting (first_index ?P (contents waiting))) (new_entry h wc) waiting"
    using sl.scan_finds [OF assms, of ?P] by (simp add: scheduler_insert_def new_entry_def)
  then show ?thesis
    using sl.insert_before_first [OF assms, of ?P "new_entry h wc"] by (simp only: insert_spec_def)
qed

text \<open>The waiting list is in order: each entry is scheduled no later than the ones after it.\<close>

definition in_order :: "('c \<Rightarrow> 'c \<Rightarrow> bool) \<Rightarrow> ('h, 'c) schedule_entry list \<Rightarrow> bool" where
  "in_order ready es = sorted_wrt (no_later ready) (map entry_condition es)"

context wake_test
begin

lemma insert_spec_in_order:
  assumes "in_order ready es"
  shows "in_order ready (insert_spec ready h wc es)"
  using insert_sorted [of "map entry_condition es" wc] assms
  by (simp add: in_order_def insert_spec_def takeWhile_map dropWhile_map o_def)

lemma first_is_ready:
  assumes "in_order ready (e # es)" and "d \<in> set (e # es)" and "entry_ready ready d rc"
  shows "entry_ready ready e rc"
  using assms sorted_ready_prefix [of "entry_condition e" "map entry_condition es" "entry_condition d" rc]
  by (auto simp: in_order_def entry_ready_def)

lemma in_order_first_index:
  assumes "in_order ready es"
  shows "first_index (\<lambda>e. entry_ready ready e rc) es =
    (if \<exists>e \<in> set es. entry_ready ready e rc then 0 else length es)"
proof (cases es)
  case Nil
  then show ?thesis by (simp add: first_index_def)
next
  case (Cons e ds)
  show ?thesis
  proof (cases "entry_ready ready e rc")
    case False
    with Cons assms first_is_ready [of e ds] have "\<forall>d\<in>set es. \<not> entry_ready ready d rc" by auto
    moreover from this have "takeWhile (\<lambda>d. \<not> entry_ready ready d rc) es = es" by simp
    ultimately show ?thesis unfolding first_index_def by metis
  qed (simp add: Cons first_index_def)
qed

end

section \<open>Resuming\<close>

text \<open>The condition that \<open>resume\<close> has recorded after passing over \<open>es\<close>.\<close>

fun track :: "('c \<Rightarrow> 'c \<Rightarrow> bool) \<Rightarrow> 'c option \<Rightarrow> ('h, 'c) schedule_entry list \<Rightarrow> 'c option" where
  "track ready pc [] = pc"
| "track ready pc (e # es) =
     track ready (if pc = None \<or> ready (the pc) (entry_condition e)
                  then Some (entry_condition e) else pc) es"

text \<open>The trace macros write to the current record only.\<close>

definition same_slot :: "trace_log_manager \<Rightarrow> trace_log_manager \<Rightarrow> bool" where
  "same_slot tr tr' \<longleftrightarrow> cur_index tr' = cur_index tr \<and>
     (\<forall>i. i \<noteq> unat (cur_index tr) \<longrightarrow> records tr' i = records tr i)"

lemma same_slot_refl [simp]: "same_slot tr tr"
  by (simp add: same_slot_def)

lemma same_slot_trans: "same_slot a b \<Longrightarrow> same_slot b c \<Longrightarrow> same_slot a c"
  by (simp add: same_slot_def)

lemma same_slot_update [simp]: "same_slot tr (update_entry f tr') \<longleftrightarrow> same_slot tr tr'"
  unfolding same_slot_def by (rule conj_cong) simp_all

lemma same_slot_update_left [simp]: "same_slot (update_entry f tr) tr' \<longleftrightarrow> same_slot tr tr'"
  unfolding same_slot_def by (rule conj_cong) simp_all

lemmas trace_macros = TRACE_VALUE_i_def TRACE_VALUE_r_def TRACE_VALUE_FLAG_r_def

text \<open>
  What \<open>resume\<close> still does when it has reached entry \<open>k\<close> and the first ready entry is entry
  \<open>f\<close>: it erases that entry and then resumes its coroutine, or passes over the rest.
\<close>

definition resume_outcome where
  "resume_outcome resume_h ready f k pending pc l tr e =
     (if f = length (contents l)
      then Some ((pending \<or> k < length (contents l), track ready pc (drop k (contents l))), l, tr, e)
      else do { l' \<leftarrow> erase (iter_at l f) l;
                w' \<leftarrow> resume_h (entry_handle (contents l ! f)) (l', tr, e);
                Some ((True, track ready pc (drop k (take f (contents l)))), w') })"

lemma resume_loop_from:
  fixes ready rc l
  defines "f \<equiv> first_index (\<lambda>e. entry_ready ready e rc) (contents l)"
  assumes "wf_list l" and "k \<le> f"
  shows "\<exists>tr'. same_slot tr tr' \<and>
    resume_loop resume_h ready rc (iter_at l k) j pending pc (l, tr, e) =
      resume_outcome resume_h ready f k pending pc l tr' e"
  using assms(3)
proof (induction "f - k" arbitrary: k j pending pc tr)
  case 0
  then have k: "k = f" by simp
  have f: "f \<le> length (contents l)" by (simp add: f_def first_index_le)
  let ?tr = "if f = length (contents l) then TRACE_VALUE_FLAG_r 8 tr else TRACE_VALUE_FLAG_r 1 tr"
  have "f \<noteq> length (contents l) \<Longrightarrow> entry_ready ready (contents l ! f) rc"
    using f first_index_hit [of "\<lambda>e. entry_ready ready e rc" "contents l"] by (simp add: f_def)
  with k f assms(2) have "resume_loop resume_h ready rc (iter_at l k) j pending pc (l, tr, e) =
      resume_outcome resume_h ready f k pending pc l ?tr e"
    by (subst resume_loop.simps) (simp add: sl.pos_end sl.pos_val resume_outcome_def)
  then show ?case by (intro exI [of _ ?tr]) (simp add: trace_macros)
next
  case (Suc d)
  then have kf: "k < f" by simp
  from first_index_less [of k "\<lambda>e. entry_ready ready e rc" "contents l"] kf
  have k: "k < length (contents l)" "\<not> entry_ready ready (contents l ! k) rc" by (simp_all add: f_def)
  let ?c = "entry_condition (contents l ! k)"
  let ?pc = "if pc = None \<or> ready (the pc) ?c then Some ?c else pc"
  let ?tr = "if pc = None \<or> ready (the pc) ?c then TRACE_VALUE_FLAG_r 2 tr else TRACE_VALUE_FLAG_r 4 tr"
  have step: "resume_loop resume_h ready rc (iter_at l k) j pending pc (l, tr, e) =
      resume_loop resume_h ready rc (iter_at l (Suc k)) (j + 1) True ?pc (l, TRACE_VALUE_i (j + 1) ?tr, e)"
    using k assms(2)
    by (subst resume_loop.simps) (auto simp: sl.pos_end sl.pos_val sl.pos_incr Let_def)
  from Suc.hyps(2) kf have "d = f - Suc k" "Suc k \<le> f" by simp_all
  from Suc.hyps(1) [OF this, of "TRACE_VALUE_i (j + 1) ?tr" "j + 1" True ?pc] obtain tr' where
    tr': "same_slot (TRACE_VALUE_i (j + 1) ?tr) tr'" and
    IH: "resume_loop resume_h ready rc (iter_at l (Suc k)) (j + 1) True ?pc (l, TRACE_VALUE_i (j + 1) ?tr, e) =
      resume_outcome resume_h ready f (Suc k) True ?pc l tr' e" by blast
  have drops: "drop k (contents l) = contents l ! k # drop (Suc k) (contents l)"
    "drop k (take f (contents l)) = contents l ! k # drop (Suc k) (take f (contents l))"
    using k kf by (simp_all add: Cons_nth_drop_Suc [symmetric])
  have "resume_outcome resume_h ready f (Suc k) True ?pc l tr' e =
      resume_outcome resume_h ready f k pending pc l tr' e"
    using k by (simp add: resume_outcome_def drops)
  moreover have "same_slot tr tr'" using tr' by (simp add: trace_macros split: if_splits)
  ultimately show ?case using step IH by metis
qed

lemma scheduler_resume_outcome:
  assumes "wf_list l"
  shows "\<exists>tr'. same_slot tr tr' \<and>
    scheduler_resume resume_h ready rc (l, tr, e) =
      resume_outcome resume_h ready (first_index (\<lambda>e. entry_ready ready e rc) (contents l))
        0 False None l tr' e"
proof -
  let ?tr = "TRACE_VALUE_r 0 (TRACE_VALUE_i 0 tr)"
  obtain tr' where "same_slot ?tr tr'"
    "resume_loop resume_h ready rc (iter_at l 0) 0 False None (l, ?tr, e) =
      resume_outcome resume_h ready (first_index (\<lambda>e. entry_ready ready e rc) (contents l))
        0 False None l tr' e"
    using resume_loop_from [OF assms le0, of ?tr resume_h ready rc 0 False None e] by blast
  then show ?thesis
    by (intro exI [of _ tr']) (simp add: scheduler_resume_def sl.pos_begin [OF assms] trace_macros)
qed

context wake_test
begin

lemma track_no_later:
  assumes "track ready (Some p) es = Some c"
  shows "no_later ready p c \<and> (\<forall>d \<in> set es. no_later ready (entry_condition d) c)"
  using assms
proof (induction es arbitrary: p)
  case Nil
  then show ?case by (auto simp: no_later_def)
next
  case (Cons d es)
  show ?case
  proof (cases "ready p (entry_condition d)")
    case True
    with Cons.IH [of "entry_condition d"] Cons.prems no_later_trans show ?thesis
      by (auto simp: no_later_def)
  next
    case False
    then have "no_later ready (entry_condition d) p" by (simp add: no_later_def)
    with False Cons.IH [of p] Cons.prems no_later_trans show ?thesis by auto
  qed
qed

lemma resume_in_order:
  assumes "wf_list l" and "in_order ready (contents l)"
  shows "\<exists>tr'. same_slot tr tr' \<and>
    scheduler_resume resume_h ready rc (l, tr, e) =
      (if \<exists>d \<in> set (contents l). entry_ready ready d rc
       then do { l' \<leftarrow> erase (list_begin l) l;
                 w' \<leftarrow> resume_h (entry_handle (hd (contents l))) (l', tr', e);
                 Some ((True, None), w') }
       else Some ((contents l \<noteq> [], track ready None (contents l)), l, tr', e))"
proof -
  obtain tr' where tr: "same_slot tr tr'" and r: "scheduler_resume resume_h ready rc (l, tr, e) =
      resume_outcome resume_h ready (first_index (\<lambda>e. entry_ready ready e rc) (contents l))
        0 False None l tr' e"
    using scheduler_resume_outcome [OF assms(1), of tr resume_h ready rc e] by blast
  have "contents l \<noteq> []" if "\<exists>d \<in> set (contents l). entry_ready ready d rc" using that by auto
  with r have "scheduler_resume resume_h ready rc (l, tr, e) =
      (if \<exists>d \<in> set (contents l). entry_ready ready d rc
       then do { l' \<leftarrow> erase (list_begin l) l;
                 w' \<leftarrow> resume_h (entry_handle (hd (contents l))) (l', tr', e);
                 Some ((True, None), w') }
       else Some ((contents l \<noteq> [], track ready None (contents l)), l, tr', e))"
    unfolding in_order_first_index [OF assms(2)] sl.pos_begin [OF assms(1)]
    by (simp add: resume_outcome_def hd_conv_nth)
  with tr show ?thesis by blast
qed

lemma resume_first:
  assumes "wf_list l" and "in_order ready (contents l)" and "contents l = en # es" and "entry_ready ready en rc"
  shows "\<exists>l1 tr1. wf_list l1 \<and> capacity l1 = capacity l \<and> contents l1 = es \<and> same_slot tr tr1 \<and>
    scheduler_resume resume_h ready rc (l, tr, e) =
      do { w' \<leftarrow> resume_h (entry_handle en) (l1, tr1, e); Some ((True, None), w') }"
proof -
  have "\<exists>d \<in> set (contents l). entry_ready ready d rc" using assms(3,4) by simp
  with resume_in_order [OF assms(1,2), of tr resume_h rc e] obtain tr1 where
    tr1: "same_slot tr tr1" "scheduler_resume resume_h ready rc (l, tr, e) =
      do { l' \<leftarrow> erase (list_begin l) l;
           w' \<leftarrow> resume_h (entry_handle (hd (contents l))) (l', tr1, e);
           Some ((True, None), w') }" by (auto simp only: if_True)
  obtain l1 where "erase (list_begin l) l = Some l1" "wf_list l1" "capacity l1 = capacity l" "contents l1 = es"
    using sl.erase_first [OF assms(1,3)] by blast
  with tr1 assms(3) show ?thesis by (intro exI [of _ l1] exI [of _ tr1]) simp
qed

lemma resume_rest:
  assumes "wf_list l" and "in_order ready (contents l)" and "\<forall>d \<in> set (contents l). \<not> entry_ready ready d rc"
  shows "\<exists>tr'. same_slot tr tr' \<and> scheduler_resume resume_h ready rc (l, tr, e) =
    Some ((contents l \<noteq> [], track ready None (contents l)), l, tr', e)"
proof -
  have "\<not> (\<exists>d \<in> set (contents l). entry_ready ready d rc)" using assms(3) by blast
  with resume_in_order [OF assms(1,2), of tr resume_h rc e] show ?thesis by (simp only: if_False)
qed

end

lemma track_from: "\<exists>c. track ready (Some p) es = Some c \<and> c \<in> insert p (entry_condition ` set es)"
proof (induction es arbitrary: p)
  case (Cons e es)
  from Cons.IH [of p] Cons.IH [of "entry_condition e"] show ?case by auto
qed simp

text \<open>
  So \<open>resume\<close> returns the condition that comes last among the waiting ones, not the next one.
\<close>

context wake_test
begin

lemma track_latest:
  assumes "es \<noteq> []"
  shows "\<exists>c. track ready None es = Some c \<and> c \<in> entry_condition ` set es \<and>
    (\<forall>d \<in> set es. no_later ready (entry_condition d) c)"
proof (cases es)
  case (Cons e ds)
  with track_from [of ready "entry_condition e" ds] obtain c where
    "track ready (Some (entry_condition e)) ds = Some c" "c \<in> entry_condition ` set es" by auto
  with track_no_later [of "entry_condition e" ds c] Cons show ?thesis by auto
qed (use assms in simp)

end

section \<open>Sequences of scheduler operations\<close>

text \<open>
  Coroutines that, each time they are resumed, put a list of coroutines (with their
  conditions) on the scheduler that resumed them, as \<open>co_await\<close> does, and run to their next
  suspension. What \<open>h\<close> inserts may depend on the coroutines resumed before it, which the
  third component of the state lists.
\<close>

primrec insert_all :: "('c \<Rightarrow> 'c \<Rightarrow> bool) \<Rightarrow> ('h, 'c) schedule_entry \<Rightarrow> ('h \<times> 'c) list
    \<Rightarrow> ('h, 'c) task_list \<Rightarrow> ('h, 'c) task_list option" where
  "insert_all ready dflt [] w = Some w"
| "insert_all ready dflt (x # xs) w =
     do { w' \<leftarrow> scheduler_insert ready dflt (fst x) (snd x) w; insert_all ready dflt xs w' }"

definition resume_body where
  "resume_body ready dflt body h w =
     (case w of (l, tr, hist) \<Rightarrow>
        do { l' \<leftarrow> insert_all ready dflt (body hist h) l; Some (l', tr, hist @ [h]) })"

datatype ('h, 'c) sched_cmd = Insert 'h 'c | Resume 'c

primrec sched_exec where
  "sched_exec ready dflt body (Insert h c) w =
     (case w of (l, tr, hist) \<Rightarrow> do { l' \<leftarrow> scheduler_insert ready dflt h c l; Some (l', tr, hist) })"
| "sched_exec ready dflt body (Resume rc) w =
     map_option snd (scheduler_resume (resume_body ready dflt body) ready rc w)"

text \<open>The abstract scheduler: a bounded queue in wake order, and the history.\<close>

definition add_spec :: "('c \<Rightarrow> 'c \<Rightarrow> bool) \<Rightarrow> nat \<Rightarrow> 'h \<times> 'c \<Rightarrow> ('h, 'c) schedule_entry list
    \<Rightarrow> ('h, 'c) schedule_entry list" where
  "add_spec ready n x es = (if length es < n then insert_spec ready (fst x) (snd x) es else es)"

fun spec_exec where
  "spec_exec ready body (Insert h c) (es, n, hist) = (add_spec ready n (h, c) es, n, hist)"
| "spec_exec ready body (Resume rc) ([], n, hist) = ([], n, hist)"
| "spec_exec ready body (Resume rc) (e # es, n, hist) =
     (if entry_ready ready e rc
      then (fold (add_spec ready n) (body hist (entry_handle e)) es, n, hist @ [entry_handle e])
      else (e # es, n, hist))"

definition sched_abs :: "('h, 'c, 'h list) sched_world
    \<Rightarrow> ('h, 'c) schedule_entry list \<times> nat \<times> 'h list" where
  "sched_abs w = (contents (fst w), capacity (fst w), snd (snd w))"

definition sched_inv :: "('c \<Rightarrow> 'c \<Rightarrow> bool) \<Rightarrow> ('h, 'c, 'h list) sched_world \<Rightarrow> bool" where
  "sched_inv ready w \<longleftrightarrow> wf_list (fst w) \<and> in_order ready (contents (fst w))"

lemma insert_all_contents:
  assumes "wf_list l"
  shows "\<exists>l'. insert_all ready dflt xs l = Some l' \<and> wf_list l' \<and> capacity l' = capacity l \<and>
    contents l' = fold (add_spec ready (capacity l)) xs (contents l)"
  using assms
proof (induction xs arbitrary: l)
  case (Cons x xs)
  from scheduler_insert_contents [OF Cons.prems, of ready dflt "fst x" "snd x"] obtain l1 where
    "scheduler_insert ready dflt (fst x) (snd x) l = Some l1" "wf_list l1" "capacity l1 = capacity l"
    "contents l1 = add_spec ready (capacity l) x (contents l)"
    by (auto simp only: add_spec_def)
  with Cons.IH [of l1] show ?case by simp
qed simp

context wake_test
begin

lemma add_spec_in_order: "in_order ready es \<Longrightarrow> in_order ready (add_spec ready n x es)"
  by (simp add: add_spec_def insert_spec_in_order)

lemma add_all_in_order: "in_order ready es \<Longrightarrow> in_order ready (fold (add_spec ready n) xs es)"
  by (induction xs arbitrary: es) (simp_all add: add_spec_in_order)

lemma exec_insert:
  assumes "sched_inv ready w"
  shows "\<exists>w'. sched_exec ready dflt body (Insert h c) w = Some w' \<and> sched_inv ready w' \<and>
    sched_abs w' = spec_exec ready body (Insert h c) (sched_abs w)"
proof -
  obtain l tr hist where w: "w = (l, tr, hist)" by (cases w)
  from assms w have "wf_list l" "in_order ready (contents l)" by (simp_all add: sched_inv_def)
  with insert_all_contents [of l ready dflt "[(h, c)]"] add_spec_in_order [of "contents l" "capacity l" "(h, c)"]
  show ?thesis by (auto simp: w sched_inv_def sched_abs_def bind_eq_Some_iff)
qed

lemma exec_resume:
  assumes "sched_inv ready w"
  shows "\<exists>w'. sched_exec ready dflt body (Resume rc) w = Some w' \<and> sched_inv ready w' \<and>
    sched_abs w' = spec_exec ready body (Resume rc) (sched_abs w)"
proof -
  obtain l tr hist where w: "w = (l, tr, hist)" by (cases w)
  from assms w have l: "wf_list l" "in_order ready (contents l)" by (simp_all add: sched_inv_def)
  let ?rh = "resume_body ready dflt body"
  obtain tr' where r: "scheduler_resume ?rh ready rc (l, tr, hist) =
      (if \<exists>d \<in> set (contents l). entry_ready ready d rc
       then do { l' \<leftarrow> erase (list_begin l) l;
                 w' \<leftarrow> ?rh (entry_handle (hd (contents l))) (l', tr', hist);
                 Some ((True, None), w') }
       else Some ((contents l \<noteq> [], track ready None (contents l)), l, tr', hist))"
    using resume_in_order [OF l, of tr ?rh rc hist] by blast
  show ?thesis
  proof (cases "\<exists>d \<in> set (contents l). entry_ready ready d rc")
    case False
    then have "spec_exec ready body (Resume rc) (sched_abs w) = sched_abs w"
      by (cases "contents l") (auto simp: w sched_abs_def)
    with False r l show ?thesis by (simp add: w sched_inv_def sched_abs_def)
  next
    case True
    then obtain e es where es: "contents l = e # es" by (cases "contents l") auto
    with True l(2) first_is_ready [of e es _ rc] have e: "entry_ready ready e rc" by auto
    from sl.erase_first [OF l(1) es] obtain l1 where
      l1: "erase (list_begin l) l = Some l1" "wf_list l1" "capacity l1 = capacity l" "contents l1 = es" by auto
    from insert_all_contents [OF l1(2), of ready dflt "body hist (entry_handle e)"] obtain l2 where
      l2: "insert_all ready dflt (body hist (entry_handle e)) l1 = Some l2" "wf_list l2"
        "capacity l2 = capacity l" "contents l2 = fold (add_spec ready (capacity l)) (body hist (entry_handle e)) es"
      using l1 by auto
    from l(2) es have "in_order ready es" by (simp add: in_order_def)
    then have "in_order ready (contents l2)" by (simp add: l2 add_all_in_order)
    with True r es e l1 l2 show ?thesis
      by (simp add: w sched_inv_def sched_abs_def resume_body_def)
  qed
qed

lemma sched_exec_refines:
  "sched_inv ready w \<Longrightarrow> \<exists>w'. sched_exec ready dflt body cmd w = Some w' \<and> sched_inv ready w' \<and>
     sched_abs w' = spec_exec ready body cmd (sched_abs w)"
  by (cases cmd) (simp_all only: exec_insert exec_resume)

end

interpretation delay_run: op_refinement "sched_inv ready_by_delay" sched_abs
    "sched_exec ready_by_delay dflt body" "spec_exec ready_by_delay body" "\<lambda>_ _. True" for dflt body
  by unfold_locales (rule by_delay.sched_exec_refines)

interpretation priority_run: op_refinement "sched_inv ready_by_priority" sched_abs
    "sched_exec ready_by_priority dflt body" "spec_exec ready_by_priority body" "\<lambda>_ _. True" for dflt body
  by unfold_locales (rule by_priority.sched_exec_refines)

end
