(* ===== verification/Scheduler_Order.thy ===== *)
theory Scheduler_Order
  imports Scheduler_Correct "HOL-Library.Multiset"
begin

text \<open>
  The order in which the schedulers wake coroutines. \<open>scheduler_delay\<close> wakes them as a stable
  sort by expiry does, \<open>scheduler_priority\<close> by descending priority with the most recent first
  among equals, \<open>scheduler_unordered\<close> first in, first out; and when the loop of
  \<open>scheduler_unordered::resume\<close> returns.
\<close>

section \<open>Ordered schedulers\<close>

abbreviation entry_of :: "'h \<times> 'c \<Rightarrow> ('h, 'c) schedule_entry" where
  "entry_of x \<equiv> new_entry (fst x) (snd x)"

definition insert_each :: "('c \<Rightarrow> 'c \<Rightarrow> bool) \<Rightarrow> ('h \<times> 'c) list \<Rightarrow> ('h, 'c) schedule_entry list" where
  "insert_each ready xs = fold (\<lambda>x. insert_spec ready (fst x) (snd x)) xs []"

lemma insert_each_simps [simp]:
  "insert_each ready [] = []"
  "insert_each ready (xs @ [x]) = insert_spec ready (fst x) (snd x) (insert_each ready xs)"
  by (simp_all add: insert_each_def)

lemma insert_spec_split:
  obtains A B where "es = A @ B" "insert_spec ready h c es = A @ new_entry h c # B"
    "\<forall>e \<in> set A. \<not> ready c (entry_condition e)" "B \<noteq> [] \<longrightarrow> ready c (entry_condition (hd B))"
proof
  let ?P = "\<lambda>e. \<not> ready c (entry_condition e)"
  show "es = takeWhile ?P es @ dropWhile ?P es" by simp
  show "\<forall>e \<in> set (takeWhile ?P es). \<not> ready c (entry_condition e)" by (auto dest: set_takeWhileD)
  show "dropWhile ?P es \<noteq> [] \<longrightarrow> ready c (entry_condition (hd (dropWhile ?P es)))"
    using hd_dropWhile [of ?P es] by auto
qed (simp add: insert_spec_def)

lemma mset_insert_spec: "mset (insert_spec ready h c es) = add_mset (new_entry h c) (mset es)"
  by (rule insert_spec_split [of es ready h c]) simp

lemma mset_insert_each: "mset (insert_each ready xs) = mset (map entry_of xs)"
  by (induction xs rule: rev_induct) (simp_all add: mset_insert_spec)

lemma length_insert_each [simp]: "length (insert_each ready xs) = length xs"
  using mset_insert_each [of ready xs, THEN mset_eq_length] by simp

context wake_test
begin

lemma insert_each_in_order: "in_order ready (insert_each ready xs)"
  by (induction xs rule: rev_induct) (simp_all add: in_order_def [of _ "[]"] insert_spec_in_order)

lemma in_order_tail:
  assumes "in_order ready (A @ B)" and "ready c (entry_condition (hd B))" and "e \<in> set B"
  shows "\<exists>d. ready c d \<and> (entry_condition e = d \<or> no_later ready d (entry_condition e))"
  using assms by (cases B) (auto simp: in_order_def sorted_wrt_append)

end

text \<open>Waking everything that is ready, in list order.\<close>

lemma drain_spec:
  "\<forall>e \<in> set es. entry_ready ready e rc \<Longrightarrow>
     fold (spec_exec ready (\<lambda>_ _. [])) (replicate (length es) (Resume rc)) (es, n, hist) =
       ([], n, hist @ map entry_handle es)"
  by (induction es arbitrary: hist) simp_all

abbreviation insert_cmds :: "('h \<times> 'c) list \<Rightarrow> ('h, 'c) sched_cmd list" where
  "insert_cmds xs \<equiv> map (\<lambda>x. Insert (fst x) (snd x)) xs"

lemma insert_cmds_spec:
  "length xs \<le> n \<Longrightarrow>
     fold (spec_exec ready body) (insert_cmds xs) ([], n, hist) = (insert_each ready xs, n, hist)"
  by (induction xs rule: rev_induct) (simp_all add: add_spec_def)

text \<open>Among equal expiries the order of insertion is kept, among equal priorities it is reversed.\<close>

lemma filter_insert_each_delay:
  "filter (\<lambda>e. t = expires (entry_condition e)) (insert_each ready_by_delay xs) =
     filter (\<lambda>e. t = expires (entry_condition e)) (map entry_of xs)"
proof (induction xs rule: rev_induct)
  case (snoc x xs)
  obtain A B where AB: "insert_each ready_by_delay xs = A @ B"
    "insert_each ready_by_delay (xs @ [x]) = A @ entry_of x # B"
    "B \<noteq> [] \<longrightarrow> ready_by_delay (snd x) (entry_condition (hd B))"
    by (rule insert_spec_split [of "insert_each ready_by_delay xs" ready_by_delay "fst x" "snd x"]) simp
  have "expires (snd x) < expires (entry_condition e)" if "e \<in> set B" for e
    using by_delay.in_order_tail [of A B "snd x" e] by_delay.insert_each_in_order [of xs] AB that
    by (force simp: ready_by_delay_def)
  then have "t = expires (snd x) \<Longrightarrow> filter (\<lambda>e. t = expires (entry_condition e)) B = []"
    by (force simp: filter_empty_conv)
  with snoc AB show ?case by auto
qed simp

lemma filter_insert_each_priority:
  "filter (\<lambda>e. p = priority (entry_condition e)) (insert_each ready_by_priority xs) =
     filter (\<lambda>e. p = priority (entry_condition e)) (rev (map entry_of xs))"
proof (induction xs rule: rev_induct)
  case (snoc x xs)
  obtain A B where AB: "insert_each ready_by_priority xs = A @ B"
    "insert_each ready_by_priority (xs @ [x]) = A @ entry_of x # B"
    "\<forall>e \<in> set A. \<not> ready_by_priority (snd x) (entry_condition e)"
    by (rule insert_spec_split [of "insert_each ready_by_priority xs" ready_by_priority "fst x" "snd x"]) simp
  then have "p = priority (snd x) \<Longrightarrow> filter (\<lambda>e. p = priority (entry_condition e)) A = []"
    by (force simp: filter_empty_conv ready_by_priority_def)
  with snoc AB show ?case by auto
qed simp

lemma insert_each_by_delay:
  "insert_each ready_by_delay xs = sort_key (\<lambda>e. expires (entry_condition e)) (map entry_of xs)"
proof (rule properties_for_sort_key [symmetric])
  show "mset (insert_each ready_by_delay xs) = mset (map entry_of xs)" by (rule mset_insert_each)
  show "sorted (map (\<lambda>e. expires (entry_condition e)) (insert_each ready_by_delay xs))"
    using by_delay.insert_each_in_order [of xs]
    by (simp add: in_order_def sorted_map sorted_wrt_map)
  fix k
  show "filter (\<lambda>e. expires (entry_condition k) = expires (entry_condition e)) (insert_each ready_by_delay xs) =
      filter (\<lambda>e. expires (entry_condition k) = expires (entry_condition e)) (map entry_of xs)"
    by (rule filter_insert_each_delay)
qed

lemma insert_each_by_priority:
  "insert_each ready_by_priority xs =
     sort_key (\<lambda>e. - priority (entry_condition e)) (rev (map entry_of xs))"
proof (rule properties_for_sort_key [symmetric])
  show "mset (insert_each ready_by_priority xs) = mset (rev (map entry_of xs))"
    by (simp add: mset_insert_each)
  show "sorted (map (\<lambda>e. - priority (entry_condition e)) (insert_each ready_by_priority xs))"
    using by_priority.insert_each_in_order [of xs]
    by (simp add: in_order_def sorted_map sorted_wrt_map)
  fix k
  show "filter (\<lambda>e. - priority (entry_condition k) = - priority (entry_condition e)) (insert_each ready_by_priority xs) =
      filter (\<lambda>e. - priority (entry_condition k) = - priority (entry_condition e)) (rev (map entry_of xs))"
    using filter_insert_each_priority [of "priority (entry_condition k)" xs] by simp
qed

text \<open>Handles in the order of the sorted conditions.\<close>

definition by_key :: "('c \<Rightarrow> int) \<Rightarrow> ('h \<times> 'c) list \<Rightarrow> 'h list" where
  "by_key k xs = map fst (sort_key (\<lambda>x. k (snd x)) xs)"

lemma map_sort_key:
  assumes "\<And>x. k (f x) = k' x"
  shows "map f (sort_key k' xs) = sort_key k (map f xs)"
proof (rule properties_for_sort_key [symmetric])
  show "sorted (map k (map f (sort_key k' xs)))" by (simp add: o_def assms)
  fix y
  show "filter (\<lambda>x. k y = k x) (map f (sort_key k' xs)) = filter (\<lambda>x. k y = k x) (map f xs)"
    using sort_key_stable [of k' "k y" xs]
    by (simp add: filter_map o_def assms eq_commute [of "k y"])
qed simp

lemma handles_by_delay:
  "map entry_handle (insert_each ready_by_delay xs) = by_key expires xs"
proof -
  have "insert_each ready_by_delay xs = map entry_of (sort_key (\<lambda>x. expires (snd x)) xs)"
    unfolding insert_each_by_delay by (rule map_sort_key [symmetric]) simp
  then show ?thesis by (simp add: by_key_def)
qed

lemma handles_by_priority:
  "map entry_handle (insert_each ready_by_priority xs) = by_key (\<lambda>c. - priority c) (rev xs)"
proof -
  have "insert_each ready_by_priority xs = map entry_of (sort_key (\<lambda>x. - priority (snd x)) (rev xs))"
    unfolding insert_each_by_priority rev_map by (rule map_sort_key [symmetric]) simp
  then show ?thesis by (simp add: by_key_def)
qed

lemma drain_run_spec:
  assumes "length xs \<le> n" and "\<forall>x \<in> set xs. ready (snd x) rc"
  shows "fold (spec_exec ready (\<lambda>_ _. [])) (insert_cmds xs @ replicate (length xs) (Resume rc)) ([], n, []) =
    ([], n, map entry_handle (insert_each ready xs))"
proof -
  have "set (insert_each ready xs) = entry_of ` set xs"
    using mset_insert_each [of ready xs, THEN arg_cong [where f = set_mset]] by simp
  with assms(2) have "\<forall>e \<in> set (insert_each ready xs). entry_ready ready e rc"
    by (auto simp: entry_ready_def)
  from drain_spec [OF this, of n "[]"] assms(1) show ?thesis by (simp add: insert_cmds_spec)
qed

section \<open>The unordered scheduler\<close>

text \<open>Coroutines that put handles on the scheduler when they run.\<close>

primrec push_all :: "'h list \<Rightarrow> 'h static_list \<Rightarrow> 'h static_list option" where
  "push_all [] l = Some l"
| "push_all (h # hs) l = do { l' \<leftarrow> unordered_insert h l; push_all hs l' }"

definition unordered_body :: "('h list \<Rightarrow> 'h \<Rightarrow> 'h list) \<Rightarrow> 'h \<Rightarrow> 'h static_list \<times> 'h list
    \<Rightarrow> ('h static_list \<times> 'h list) option" where
  "unordered_body body h w =
     (case w of (l, hist) \<Rightarrow> do { l' \<leftarrow> push_all (body hist h) l; Some (l', hist @ [h]) })"

lemma push_all_contents:
  assumes "wf_list l"
  shows "\<exists>l'. push_all hs l = Some l' \<and> wf_list l' \<and> capacity l' = capacity l \<and>
    contents l' = contents l @ take (capacity l - length (contents l)) hs"
  using assms
proof (induction hs arbitrary: l)
  case (Cons h hs)
  from emplace_back_refines [OF Cons.prems, of h] obtain l1 where
    l1: "unordered_insert h l = Some l1" "wf_list l1" "capacity l1 = capacity l"
    "contents l1 = bounded_insert (capacity l) (length (contents l)) h (contents l)"
    by (auto simp: unordered_insert_def)
  from Cons.IH [OF l1(2)] l1 contents_bounded [OF Cons.prems] show ?case
    by (auto simp: bounded_insert_def take_Cons' split: if_splits)
qed simp

lemma pop_head:
  assumes "wf_list l" and "contents l = h # hs"
  shows "iterator_value l (list_begin l) = Some h"
    and "\<exists>l'. pop_front l = Some l' \<and> wf_list l' \<and> capacity l' = capacity l \<and> contents l' = hs"
proof -
  show "iterator_value l (list_begin l) = Some h"
    using sl.pos_val [OF assms(1), of 0] assms by (simp add: sl.pos_begin)
  show "\<exists>l'. pop_front l = Some l' \<and> wf_list l' \<and> capacity l' = capacity l \<and> contents l' = hs"
    using pop_front_refines [OF assms(1)] assms(2) by auto
qed

lemma unordered_resume_returns:
  fixes rank :: "'h \<Rightarrow> nat"
  assumes lower: "\<And>hist h h'. h' \<in> set (body hist h) \<Longrightarrow> rank h' < rank h"
    and "wf_list l"
  shows "\<exists>l' rest. unordered_resume (unordered_body body) (l, hist) = Some (l', hist @ contents l @ rest) \<and>
    wf_list l' \<and> capacity l' = capacity l \<and> contents l' = []"
  using assms(2)
proof (induction "mset (map rank (contents l))" arbitrary: l hist
    rule: wf_induct_rule [OF wf_mult [OF wf_less_than]])
  case (1 l hist)
  show ?case
  proof (cases "contents l")
    case Nil
    with 1(2) show ?thesis
      by (subst unordered_resume.simps) (simp add: list_empty_contents)
  next
    case (Cons h q)
    from pop_head [OF 1(2) Cons] obtain l1 where
      h: "iterator_value l (list_begin l) = Some h" and
      l1: "pop_front l = Some l1" "wf_list l1" "capacity l1 = capacity l" "contents l1 = q" by auto
    let ?new = "take (capacity l - length q) (body hist h)"
    from push_all_contents [OF l1(2), of "body hist h"] l1 obtain l2 where
      l2: "push_all (body hist h) l1 = Some l2" "wf_list l2" "capacity l2 = capacity l"
        "contents l2 = q @ ?new" by auto
    have "rank h' < rank h" if "h' \<in> set ?new" for h'
      using that in_set_takeD lower by fastforce
    then have "(mset (map rank q) + mset (map rank ?new), mset (map rank q) + {#rank h#}) \<in> mult less_than"
      by (intro one_step_implies_mult) auto
    then have "(mset (map rank (contents l2)), mset (map rank (contents l))) \<in> mult less_than"
      by (simp add: l2 Cons)
    from 1(1) [OF this l2(2), of "hist @ [h]"] l2 obtain l' rest where
      "unordered_resume (unordered_body body) (l2, hist @ [h]) = Some (l', hist @ contents l @ ?new @ rest)"
      "wf_list l'" "capacity l' = capacity l" "contents l' = []" by (auto simp: Cons)
    moreover have "unordered_resume (unordered_body body) (l, hist) =
        unordered_resume (unordered_body body) (l2, hist @ [h])"
      using h l1 l2 1(2) Cons
      by (subst unordered_resume.simps) (simp add: list_empty_contents unordered_body_def unordered_round_def)
    ultimately show ?thesis by (intro exI [of _ l'] exI [of _ "?new @ rest"]) simp
  qed
qed

text \<open>
  A loop whose list is not empty after any number of rounds keeps its caller for ever: no
  return is possible.
\<close>

lemma unordered_resume_unroll:
  assumes "while_rounds (\<lambda>w. \<not> list_empty (fst w)) (unordered_round resume_h) n w = Some w'"
  shows "unordered_resume resume_h w = unordered_resume resume_h w'"
  using assms
proof (induction n arbitrary: w)
  case (Suc n)
  then obtain w1 where "\<not> list_empty (fst w)" "unordered_round resume_h w = Some w1"
    "while_rounds (\<lambda>w. \<not> list_empty (fst w)) (unordered_round resume_h) n w1 = Some w'"
    by (auto simp: bind_eq_Some_iff split: if_splits)
  with Suc.IH [of w1] show ?case by (subst unordered_resume.simps) simp
qed simp

lemma unordered_resume_rounds:
  assumes "unordered_resume resume_h w = Some y"
  shows "\<exists>n w'. while_rounds (\<lambda>w. \<not> list_empty (fst w)) (unordered_round resume_h) n w = Some w' \<and> list_empty (fst w')"
proof (rule unordered_resume.raw_induct [OF _ assms, of "\<lambda>rh w _. \<exists>n w'.
    while_rounds (\<lambda>w. \<not> list_empty (fst w)) (unordered_round rh) n w = Some w' \<and> list_empty (fst w')"])
  fix f rh w y
  let ?run = "while_rounds (\<lambda>w. \<not> list_empty (fst w)) (unordered_round rh)"
  assume IH: "\<And>rh w y. f rh w = Some y \<Longrightarrow>
      \<exists>n w'. while_rounds (\<lambda>w. \<not> list_empty (fst w)) (unordered_round rh) n w = Some w' \<and> list_empty (fst w')"
    and returns: "(if list_empty (fst w) then Some w else Option.bind (unordered_round rh w) (f rh)) = Some y"
  show "\<exists>n w'. ?run n w = Some w' \<and> list_empty (fst w')"
  proof (cases "list_empty (fst w)")
    case True
    then have "?run 0 w = Some w" by simp
    with True show ?thesis by blast
  next
    case False
    with returns obtain w1 where w1: "unordered_round rh w = Some w1" "f rh w1 = Some y"
      by (auto simp: bind_eq_Some_iff)
    from IH [OF w1(2)] obtain n w' where "?run n w1 = Some w'" "list_empty (fst w')" by blast
    with False w1(1) have "?run (Suc n) w = Some w'" by simp
    with \<open>list_empty (fst w')\<close> show ?thesis by blast
  qed
qed

lemma while_rounds_prefix:
  assumes "while_rounds c b n s = Some s'" and "m \<le> n"
  shows "\<exists>s1. while_rounds c b m s = Some s1 \<and> (m < n \<longrightarrow> c s1)"
proof -
  from assms(2) obtain d where n: "n = m + d" by (auto simp: le_iff_add)
  with assms(1) obtain s1 where s1: "while_rounds c b m s = Some s1" "while_rounds c b d s1 = Some s'"
    by (auto simp: while_rounds_add bind_eq_Some_iff)
  with n show ?thesis by (cases d) (auto split: if_splits)
qed

lemma unordered_resume_stuck:
  assumes "\<And>n. \<exists>w'. while_rounds (\<lambda>w. \<not> list_empty (fst w)) (unordered_round resume_h) n w = Some w'"
  shows "unordered_resume resume_h w = None"
proof (rule ccontr)
  assume "unordered_resume resume_h w \<noteq> None"
  then obtain y where "unordered_resume resume_h w = Some y" by blast
  from unordered_resume_rounds [OF this] obtain n w' where
    w': "while_rounds (\<lambda>w. \<not> list_empty (fst w)) (unordered_round resume_h) n w = Some w'" "list_empty (fst w')" by blast
  from assms [of "Suc n"] while_rounds_prefix [of _ "unordered_round resume_h" "Suc n" w _ n] w' show False by fastforce
qed

text \<open>One round of a coroutine that puts itself back moves it to the end of the list.\<close>

lemma requeue_round:
  assumes "wf_list l" and "contents l = h # q"
  shows "\<exists>l'. unordered_round (unordered_body (\<lambda>hist h. [h])) (l, hist) = Some (l', hist @ [h]) \<and>
    wf_list l' \<and> capacity l' = capacity l \<and> contents l' = q @ [h]"
proof -
  from pop_head [OF assms] obtain l1 where
    l1: "iterator_value l (list_begin l) = Some h" "pop_front l = Some l1" "wf_list l1" "capacity l1 = capacity l"
      "contents l1 = q" by auto
  have "length q < capacity l" using contents_bounded [OF assms(1)] assms(2) by simp
  with push_all_contents [OF l1(3), of "[h]"] l1 obtain l2 where
    "push_all [h] l1 = Some l2" "wf_list l2" "capacity l2 = capacity l" "contents l2 = q @ [h]" by auto
  with l1 show ?thesis by (intro exI [of _ l2]) (simp add: unordered_round_def unordered_body_def)
qed

lemma requeue_rounds:
  assumes "wf_list l" and "contents l \<noteq> []"
  shows "\<exists>l'. while_rounds (\<lambda>w. \<not> list_empty (fst w)) (unordered_round (unordered_body (\<lambda>hist h. [h]))) n (l, hist) =
      Some (l', hist @ map (\<lambda>i. contents l ! (i mod length (contents l))) [0..<n]) \<and>
    wf_list l' \<and> capacity l' = capacity l \<and> contents l' = rotate n (contents l)"
proof (induction n)
  case 0
  with assms show ?case by simp
next
  case (Suc n)
  then obtain l1 where l1: "while_rounds (\<lambda>w. \<not> list_empty (fst w)) (unordered_round (unordered_body (\<lambda>hist h. [h]))) n (l, hist) =
      Some (l1, hist @ map (\<lambda>i. contents l ! (i mod length (contents l))) [0..<n])"
    "wf_list l1" "capacity l1 = capacity l" "contents l1 = rotate n (contents l)" by blast
  let ?h = "contents l ! (n mod length (contents l))"
  have c: "contents l1 = ?h # tl (rotate n (contents l))"
    using l1(4) assms(2) hd_rotate_conv_nth [of "contents l" n] by (metis hd_Cons_tl rotate_is_Nil_conv)
  let ?hist = "hist @ map (\<lambda>i. contents l ! (i mod length (contents l))) [0..<n]"
  from requeue_round [OF l1(2) c, of ?hist, unfolded l1(3)] obtain l2 where
    l2: "unordered_round (unordered_body (\<lambda>hist h. [h])) (l1, hist @ map (\<lambda>i. contents l ! (i mod length (contents l))) [0..<n]) =
        Some (l2, (hist @ map (\<lambda>i. contents l ! (i mod length (contents l))) [0..<n]) @ [?h])"
      "wf_list l2" "capacity l2 = capacity l" "contents l2 = tl (rotate n (contents l)) @ [?h]" by (elim exE conjE)
  have "contents l2 = rotate (Suc n) (contents l)"
    unfolding l2(4) rotate_Suc l1(4) [symmetric] by (subst (2) c) (simp add: l1(4))
  moreover have "\<not> list_empty (fst (l1, hist @ map (\<lambda>i. contents l ! (i mod length (contents l))) [0..<n]))"
    using l1(2) c by (simp add: list_empty_contents)
  ultimately show ?case
    using while_rounds_snoc [OF l1(1)] l2(1-3) by simp
qed

section \<open>Properties\<close>

lemma all_allowed_always [simp]: "all_allowed (\<lambda>_ _. True) astep cs a"
  by (induction cs arbitrary: a) simp_all

lemma fresh_sched:
  assumes "raw \<noteq> []"
  shows "\<exists>l. static_list_ctor raw = Some l \<and> sched_inv ready (l, tr, hist) \<and>
    sched_abs (l, tr, hist) = ([], length raw, hist)"
  using static_list_ctor_refines [OF assms] by (auto simp: sched_inv_def sched_abs_def in_order_def)

text \<open>
  C2: a scheduler_delay, from its construction on, serves any sequence of insert and resume
  calls, with coroutines that schedule others (or themselves) whenever they run, without
  undefined behaviour; its list stays in wake order, and what it holds and which coroutines it
  has resumed, in which order, is what the bounded priority queue of the specification gives.
\<close>

theorem delay_scheduler_refines:
  assumes "raw \<noteq> []"
  shows "\<exists>l w'. static_list_ctor raw = Some l \<and>
    run_ops (sched_exec ready_by_delay dflt body) cmds (l, tr, []) = Some w' \<and>
    sched_inv ready_by_delay w' \<and>
    sched_abs w' = fold (spec_exec ready_by_delay body) cmds ([], length raw, [])"
proof -
  obtain l where l: "static_list_ctor raw = Some l" "sched_inv ready_by_delay (l, tr, [])"
    "sched_abs (l, tr, []) = ([], length raw, [])" using fresh_sched [OF assms] by blast
  from delay_run.run_refines [OF l(2), of body cmds dflt] l(1,3) show ?thesis by auto
qed

theorem delay_scheduler_refines_witness:
  "\<exists>l w'. static_list_ctor (replicate 3 \<lparr>node_next = None, node_prev = None, node_value = None\<rparr>) = Some l \<and>
    run_ops (sched_exec ready_by_delay \<lparr>entry_handle = 0 :: nat, entry_condition = \<lparr>expires = 0\<rparr>\<rparr> (\<lambda>hist h. []))
      [Insert 7 \<lparr>expires = 40\<rparr>, Insert 8 \<lparr>expires = 20\<rparr>, Resume \<lparr>expires = 30\<rparr>, Resume \<lparr>expires = 30\<rparr>]
      (l, trace_init, []) = Some w' \<and>
    sched_inv ready_by_delay w' \<and> sched_abs w' = ([new_entry 7 \<lparr>expires = 40\<rparr>], 3, [8])"
  using delay_scheduler_refines [of "replicate 3 \<lparr>node_next = None, node_prev = None, node_value = None\<rparr>"
      "\<lparr>entry_handle = 0 :: nat, entry_condition = \<lparr>expires = 0\<rparr>\<rparr>" "\<lambda>hist h. []"
      "[Insert 7 \<lparr>expires = 40\<rparr>, Insert 8 \<lparr>expires = 20\<rparr>, Resume \<lparr>expires = 30\<rparr>, Resume \<lparr>expires = 30\<rparr>]" trace_init]
  by (simp add: add_spec_def insert_spec_def ready_by_delay_def entry_ready_def)

text \<open>
  C3: the same for a scheduler_priority, whose queue is ordered by descending priority.
\<close>

theorem priority_scheduler_refines:
  assumes "raw \<noteq> []"
  shows "\<exists>l w'. static_list_ctor raw = Some l \<and>
    run_ops (sched_exec ready_by_priority dflt body) cmds (l, tr, []) = Some w' \<and>
    sched_inv ready_by_priority w' \<and>
    sched_abs w' = fold (spec_exec ready_by_priority body) cmds ([], length raw, [])"
proof -
  obtain l where l: "static_list_ctor raw = Some l" "sched_inv ready_by_priority (l, tr, [])"
    "sched_abs (l, tr, []) = ([], length raw, [])" using fresh_sched [OF assms] by blast
  from priority_run.run_refines [OF l(2), of body cmds dflt] l(1,3) show ?thesis by auto
qed

theorem priority_scheduler_refines_witness:
  "\<exists>l w'. static_list_ctor (replicate 3 \<lparr>node_next = None, node_prev = None, node_value = None\<rparr>) = Some l \<and>
    run_ops (sched_exec ready_by_priority \<lparr>entry_handle = 0 :: nat, entry_condition = \<lparr>priority = 0\<rparr>\<rparr>
        (\<lambda>hist h. if length hist = 0 then [(h, \<lparr>priority = 5\<rparr>)] else []))
      [Insert 7 \<lparr>priority = 4\<rparr>, Insert 8 \<lparr>priority = 9\<rparr>, Resume \<lparr>priority = 1\<rparr>, Resume \<lparr>priority = 1\<rparr>]
      (l, trace_init, []) = Some w' \<and>
    sched_inv ready_by_priority w' \<and> sched_abs w' = ([new_entry 7 \<lparr>priority = 4\<rparr>], 3, [8, 8])"
  using priority_scheduler_refines [of "replicate 3 \<lparr>node_next = None, node_prev = None, node_value = None\<rparr>"
      "\<lparr>entry_handle = 0 :: nat, entry_condition = \<lparr>priority = 0\<rparr>\<rparr>"
      "\<lambda>hist h. if length hist = 0 then [(h, \<lparr>priority = 5\<rparr>)] else []"
      "[Insert 7 \<lparr>priority = 4\<rparr>, Insert 8 \<lparr>priority = 9\<rparr>, Resume \<lparr>priority = 1\<rparr>, Resume \<lparr>priority = 1\<rparr>]" trace_init]
  by (simp add: add_spec_def insert_spec_def ready_by_priority_def entry_ready_def)

text \<open>
  C4: coroutines inserted into an empty scheduler_delay that has room for them are resumed, by
  as many calls of resume after all have expired, each exactly once and in the order of their
  expiry times; those that expire at the same time in the order of insertion.
\<close>

theorem delay_wake_order:
  assumes "raw \<noteq> []" and "length xs \<le> length raw" and "\<forall>x \<in> set xs. expires (snd x) < expires rc"
  shows "\<exists>l w'. static_list_ctor raw = Some l \<and>
    run_ops (sched_exec ready_by_delay dflt (\<lambda>_ _. []))
      (insert_cmds xs @ replicate (length xs) (Resume rc)) (l, tr, []) = Some w' \<and>
    contents (fst w') = [] \<and> snd (snd w') = map fst (sort_key (\<lambda>x. expires (snd x)) xs)"
proof -
  obtain l where l: "static_list_ctor raw = Some l" "sched_inv ready_by_delay (l, tr, [])"
    "sched_abs (l, tr, []) = ([], length raw, [])" using fresh_sched [OF assms(1)] by blast
  have "\<forall>x \<in> set xs. ready_by_delay (snd x) rc" using assms(3) by (simp add: ready_by_delay_def)
  from drain_run_spec [where ready = ready_by_delay, OF assms(2) this]
  have "fold (spec_exec ready_by_delay (\<lambda>_ _. [])) (insert_cmds xs @ replicate (length xs) (Resume rc))
      ([], length raw, []) = ([], length raw, by_key expires xs)"
    by (simp only: handles_by_delay)
  with delay_run.run_refines [OF l(2), of "\<lambda>_ _. []" "insert_cmds xs @ replicate (length xs) (Resume rc)" dflt] l
  show ?thesis by (auto simp: sched_abs_def by_key_def)
qed

theorem delay_wake_order_witness:
  "\<exists>l w'. static_list_ctor (replicate 4 \<lparr>node_next = None, node_prev = None, node_value = None\<rparr>) = Some l \<and>
    run_ops (sched_exec ready_by_delay \<lparr>entry_handle = 0 :: nat, entry_condition = \<lparr>expires = 0\<rparr>\<rparr> (\<lambda>_ _. []))
      (insert_cmds [(1, \<lparr>expires = 30\<rparr>), (2, \<lparr>expires = 10\<rparr>), (3, \<lparr>expires = 30\<rparr>)] @
       replicate 3 (Resume \<lparr>expires = 31\<rparr>)) (l, trace_init, []) = Some w' \<and>
    contents (fst w') = [] \<and> snd (snd w') = [2, 1, 3]"
  using delay_wake_order [of "replicate 4 \<lparr>node_next = None, node_prev = None, node_value = None\<rparr>"
      "[(1, \<lparr>expires = 30\<rparr>), (2, \<lparr>expires = 10\<rparr>), (3 :: nat, \<lparr>expires = 30\<rparr>)]" "\<lparr>expires = 31\<rparr>"
      "\<lparr>entry_handle = 0 :: nat, entry_condition = \<lparr>expires = 0\<rparr>\<rparr>" trace_init]
  by (simp add: numeral_eq_Suc)

text \<open>
  C5: coroutines inserted into an empty scheduler_priority that has room for them are resumed
  each exactly once and by descending priority; among equal priorities the one inserted last
  is resumed first.
\<close>

theorem priority_wake_order:
  assumes "raw \<noteq> []" and "length xs \<le> length raw" and "\<forall>x \<in> set xs. priority rc \<le> priority (snd x)"
  shows "\<exists>l w'. static_list_ctor raw = Some l \<and>
    run_ops (sched_exec ready_by_priority dflt (\<lambda>_ _. []))
      (insert_cmds xs @ replicate (length xs) (Resume rc)) (l, tr, []) = Some w' \<and>
    contents (fst w') = [] \<and> snd (snd w') = map fst (sort_key (\<lambda>x. - priority (snd x)) (rev xs))"
proof -
  obtain l where l: "static_list_ctor raw = Some l" "sched_inv ready_by_priority (l, tr, [])"
    "sched_abs (l, tr, []) = ([], length raw, [])" using fresh_sched [OF assms(1)] by blast
  have "\<forall>x \<in> set xs. ready_by_priority (snd x) rc" using assms(3) by (simp add: ready_by_priority_def)
  from drain_run_spec [where ready = ready_by_priority, OF assms(2) this]
  have "fold (spec_exec ready_by_priority (\<lambda>_ _. [])) (insert_cmds xs @ replicate (length xs) (Resume rc))
      ([], length raw, []) = ([], length raw, by_key (\<lambda>c. - priority c) (rev xs))"
    by (simp only: handles_by_priority)
  with priority_run.run_refines [OF l(2), of "\<lambda>_ _. []" "insert_cmds xs @ replicate (length xs) (Resume rc)" dflt] l
  show ?thesis by (auto simp: sched_abs_def by_key_def)
qed

theorem priority_wake_order_witness:
  "\<exists>l w'. static_list_ctor (replicate 4 \<lparr>node_next = None, node_prev = None, node_value = None\<rparr>) = Some l \<and>
    run_ops (sched_exec ready_by_priority \<lparr>entry_handle = 0 :: nat, entry_condition = \<lparr>priority = 0\<rparr>\<rparr> (\<lambda>_ _. []))
      (insert_cmds [(1, \<lparr>priority = 3\<rparr>), (2, \<lparr>priority = 9\<rparr>), (3, \<lparr>priority = 3\<rparr>)] @
       replicate 3 (Resume \<lparr>priority = 0\<rparr>)) (l, trace_init, []) = Some w' \<and>
    contents (fst w') = [] \<and> snd (snd w') = [2, 3, 1]"
  using priority_wake_order [of "replicate 4 \<lparr>node_next = None, node_prev = None, node_value = None\<rparr>"
      "[(1, \<lparr>priority = 3\<rparr>), (2, \<lparr>priority = 9\<rparr>), (3 :: nat, \<lparr>priority = 3\<rparr>)]" "\<lparr>priority = 0\<rparr>"
      "\<lparr>entry_handle = 0 :: nat, entry_condition = \<lparr>priority = 0\<rparr>\<rparr>" trace_init]
  by (simp add: numeral_eq_Suc)

text \<open>
  C6: when the first waiting coroutine of a scheduler_delay has expired, resume takes exactly
  that one off the list and then resumes it, whatever it does; resume returns true and an empty
  next condition, also when other coroutines are still waiting.
\<close>

theorem resume_wakes_first:
  assumes "wf_list l" and "in_order ready_by_delay (contents l)" and "contents l = en # es"
    and "expires (entry_condition en) < expires rc"
  shows "\<exists>l1 tr1. wf_list l1 \<and> contents l1 = es \<and> same_slot tr tr1 \<and>
    scheduler_resume resume_h ready_by_delay rc (l, tr, e) =
      do { w' \<leftarrow> resume_h (entry_handle en) (l1, tr1, e); Some ((True, None), w') }"
  using by_delay.resume_first [OF assms(1-3), of rc tr resume_h e] assms(4)
  by (auto simp: entry_ready_def ready_by_delay_def)

theorem resume_wakes_first_witness:
  "\<exists>l l1 tr1. wf_list l \<and> contents l = [new_entry (1 :: nat) \<lparr>expires = 5\<rparr>, new_entry 2 \<lparr>expires = 9\<rparr>] \<and>
    wf_list l1 \<and> contents l1 = [new_entry 2 \<lparr>expires = 9\<rparr>] \<and>
    scheduler_resume (\<lambda>h (l, tr, e). Some (l, tr, e @ [h])) ready_by_delay \<lparr>expires = 6\<rparr> (l, trace_init, []) =
      Some ((True, None), l1, tr1, [1])"
proof -
  obtain l where l: "wf_list l" "contents l = [new_entry (1 :: nat) \<lparr>expires = 5\<rparr>, new_entry 2 \<lparr>expires = 9\<rparr>]"
    using exists_list [of "[new_entry (1 :: nat) \<lparr>expires = 5\<rparr>, new_entry 2 \<lparr>expires = 9\<rparr>]" 3] by auto
  then have "in_order ready_by_delay (contents l)" by (simp add: in_order_def)
  from resume_wakes_first [OF l(1) this l(2), of "\<lparr>expires = 6\<rparr>" trace_init
      "\<lambda>h (l, tr, e). Some (l, tr, e @ [h])" "[]"]
  obtain l1 tr1 where "wf_list l1" "contents l1 = [new_entry 2 \<lparr>expires = 9\<rparr>]"
    "scheduler_resume (\<lambda>h (l, tr, e). Some (l, tr, e @ [h])) ready_by_delay \<lparr>expires = 6\<rparr> (l, trace_init, []) =
      Some ((True, None), l1, tr1, [1 :: nat])" by auto
  with l show ?thesis by blast
qed

text \<open>
  C7: when no coroutine of a scheduler_delay has expired, resume changes nothing but the trace
  record and returns true with the condition that expires last, the one of the last entry of
  the list, not the soonest as the comment at its update says.
\<close>

theorem resume_reports_latest:
  assumes "wf_list l" and "in_order ready_by_delay (contents l)" and "contents l \<noteq> []"
    and "\<forall>d \<in> set (contents l). expires rc \<le> expires (entry_condition d)"
  shows "\<exists>c tr'. same_slot tr tr' \<and>
    scheduler_resume resume_h ready_by_delay rc (l, tr, e) = Some ((True, Some c), l, tr', e) \<and>
    c \<in> entry_condition ` set (contents l) \<and> expires c = expires (entry_condition (last (contents l))) \<and>
    (\<forall>d \<in> set (contents l). expires (entry_condition d) \<le> expires c)"
proof -
  have "\<forall>d \<in> set (contents l). \<not> entry_ready ready_by_delay d rc"
    using assms(4) by (force simp: entry_ready_def ready_by_delay_def)
  from by_delay.resume_rest [OF assms(1,2) this, of tr resume_h e] assms(3) obtain tr' where
    "same_slot tr tr'" "scheduler_resume resume_h ready_by_delay rc (l, tr, e) =
      Some ((True, track ready_by_delay None (contents l)), l, tr', e)" by auto
  moreover obtain c where c: "track ready_by_delay None (contents l) = Some c"
    "c \<in> entry_condition ` set (contents l)"
    "\<forall>d \<in> set (contents l). expires (entry_condition d) \<le> expires c"
    using by_delay.track_latest [OF assms(3)] by auto
  moreover have "expires c \<le> expires (entry_condition (last (contents l)))"
  proof -
    have "sorted_wrt (no_later ready_by_delay) (map entry_condition (butlast (contents l) @ [last (contents l)]))"
      using assms(2,3) by (simp add: in_order_def)
    then have "\<forall>d \<in> set (butlast (contents l)). expires (entry_condition d) \<le> expires (entry_condition (last (contents l)))"
      by (simp add: sorted_wrt_append)
    moreover have "set (contents l) = insert (last (contents l)) (set (butlast (contents l)))"
      using assms(3) by (metis append_butlast_last_id list.set(2) rotate1.simps(2) set_rotate1)
    ultimately show ?thesis using c(2) by auto
  qed
  moreover have "expires (entry_condition (last (contents l))) \<le> expires c"
    using c(3) assms(3) by simp
  ultimately show ?thesis by (intro exI [of _ c] exI [of _ tr']) simp
qed

theorem resume_reports_latest_witness:
  "\<exists>l c tr'. wf_list l \<and> contents l = [new_entry (1 :: nat) \<lparr>expires = 5\<rparr>, new_entry 2 \<lparr>expires = 9\<rparr>] \<and>
    scheduler_resume (\<lambda>h w. None) ready_by_delay \<lparr>expires = 5\<rparr> (l, trace_init, ()) =
      Some ((True, Some c), l, tr', ()) \<and> expires c = 9"
proof -
  obtain l where l: "wf_list l" "contents l = [new_entry (1 :: nat) \<lparr>expires = 5\<rparr>, new_entry 2 \<lparr>expires = 9\<rparr>]"
    using exists_list [of "[new_entry (1 :: nat) \<lparr>expires = 5\<rparr>, new_entry 2 \<lparr>expires = 9\<rparr>]" 3] by auto
  then have "in_order ready_by_delay (contents l)" by (simp add: in_order_def)
  from resume_reports_latest [OF l(1) this, of "\<lparr>expires = 5\<rparr>" trace_init "\<lambda>h w. None" "()"] l
  obtain c tr' where "scheduler_resume (\<lambda>h w. None) ready_by_delay \<lparr>expires = 5\<rparr> (l, trace_init, ()) =
      Some ((True, Some c), l, tr', ())" "expires c = 9" by auto
  with l show ?thesis by blast
qed

text \<open>
  C8: scheduler_unordered::resume returns, with an empty list, whenever the coroutines cannot
  schedule each other for ever (each one only schedules coroutines of a lower rank); the
  coroutines that were waiting are resumed first, in the order in which they were inserted.
\<close>

theorem unordered_resume_fifo:
  fixes rank :: "'h \<Rightarrow> nat"
  assumes "\<And>hist h h'. h' \<in> set (body hist h) \<Longrightarrow> rank h' < rank h" and "wf_list l"
  shows "\<exists>l' rest. unordered_resume (unordered_body body) (l, hist) = Some (l', hist @ contents l @ rest) \<and>
    wf_list l' \<and> capacity l' = capacity l \<and> contents l' = []"
  using assms by (rule unordered_resume_returns)

theorem unordered_resume_fifo_witness:
  "\<exists>l l' rest. wf_list l \<and> contents l = [3, 1, 2 :: nat] \<and>
    unordered_resume (unordered_body (\<lambda>hist h. if h = 3 then [0] else [])) (l, []) = Some (l', [3, 1, 2] @ rest) \<and>
    contents l' = []"
proof -
  obtain l where l: "wf_list l" "contents l = [3, 1, 2 :: nat]"
    using exists_list [of "[3, 1, 2 :: nat]" 3] by auto
  have "h' \<in> set (if h = 3 then [0] else []) \<Longrightarrow> id h' < (id h :: nat)" for h h' :: nat
    by (auto split: if_splits)
  from unordered_resume_fifo [of "\<lambda>hist h. if h = 3 then [0] else []" id, OF this l(1), of "[]"] l
  show ?thesis by auto
qed

text \<open>
  C9: when the waiting coroutines of a scheduler_unordered put themselves back on it each time
  they run, its resume never returns. It does not fail either: after any number n of rounds the
  loop has taken the coroutines off the list in turn, resumed the one at position i mod N in
  round i, and has all N of them on a well-formed list again, so that it goes on.
\<close>

theorem unordered_requeue_stuck:
  assumes "wf_list l" and "contents l \<noteq> []"
  shows "(\<forall>n. \<exists>l'. while_rounds (\<lambda>w. \<not> list_empty (fst w)) (unordered_round (unordered_body (\<lambda>hist h. [h]))) n (l, hist) =
      Some (l', hist @ map (\<lambda>i. contents l ! (i mod length (contents l))) [0..<n]) \<and>
      wf_list l' \<and> contents l' = rotate n (contents l) \<and> \<not> list_empty l') \<and>
    unordered_resume (unordered_body (\<lambda>hist h. [h])) (l, hist) = None"
proof -
  have "\<exists>l'. while_rounds (\<lambda>w. \<not> list_empty (fst w)) (unordered_round (unordered_body (\<lambda>hist h. [h]))) n (l, hist) =
      Some (l', hist @ map (\<lambda>i. contents l ! (i mod length (contents l))) [0..<n]) \<and>
      wf_list l' \<and> contents l' = rotate n (contents l) \<and> \<not> list_empty l'" for n
    using requeue_rounds [OF assms, of n hist] assms(2) by (metis list_empty_contents rotate_is_Nil_conv)
  moreover from this have "unordered_resume (unordered_body (\<lambda>hist h. [h])) (l, hist) = None"
    by (intro unordered_resume_stuck) blast
  ultimately show ?thesis by blast
qed

theorem unordered_requeue_stuck_witness:
  "\<exists>l l'. wf_list l \<and> contents l = [4, 5 :: nat] \<and>
    while_rounds (\<lambda>w. \<not> list_empty (fst w)) (unordered_round (unordered_body (\<lambda>hist h. [h]))) 3 (l, []) = Some (l', [4, 5, 4]) \<and>
    contents l' = [5, 4] \<and> unordered_resume (unordered_body (\<lambda>hist h. [h])) (l, []) = None"
proof -
  obtain l :: "nat static_list" where l: "wf_list l" "capacity l = 2" "contents l = [4, 5]"
    using exists_list [of "[4, 5 :: nat]" 2] by auto
  have ne: "contents l \<noteq> []" by (simp add: l(3))
  have e: "map (\<lambda>i. [4, 5 :: nat] ! (i mod length [4, 5 :: nat])) [0..<3] = [4, 5, 4]" "rotate 3 [4, 5 :: nat] = [5, 4]"
    by code_simp+
  note s = unordered_requeue_stuck [OF l(1) ne, of "[]", unfolded l(3)]
  from s [THEN conjunct1, THEN spec, of 3] s [THEN conjunct2] l show ?thesis unfolding e append_Nil by blast
qed

text \<open>
  C10: inserting into a scheduler whose list is full returns normally and leaves the list as it
  was: the coroutine is not scheduled and the caller is not told.
\<close>

theorem insert_full_drops:
  assumes "wf_list l" and "length (contents l) = capacity l"
  shows "\<exists>l'. scheduler_insert ready dflt h wc l = Some l' \<and> wf_list l' \<and> contents l' = contents l"
  using scheduler_insert_contents [OF assms(1), of ready dflt h wc] assms(2) by auto

theorem insert_full_drops_witness:
  "\<exists>l l'. wf_list l \<and> capacity l = 1 \<and> contents l = [new_entry (1 :: nat) \<lparr>expires = 5\<rparr>] \<and>
    scheduler_insert ready_by_delay (new_entry 0 \<lparr>expires = 0\<rparr>) 2 \<lparr>expires = 3\<rparr> l = Some l' \<and>
    contents l' = [new_entry 1 \<lparr>expires = 5\<rparr>]"
proof -
  obtain l where l: "wf_list l" "capacity l = 1" "contents l = [new_entry (1 :: nat) \<lparr>expires = 5\<rparr>]"
    using exists_list [of "[new_entry (1 :: nat) \<lparr>expires = 5\<rparr>]" 1] by auto
  with insert_full_drops [of l ready_by_delay "new_entry 0 \<lparr>expires = 0\<rparr>" 2 "\<lparr>expires = 3\<rparr>"]
  show ?thesis by auto
qed

end
