(* ===== verification/Awaitable.thy ===== *)
theory Awaitable
  imports Scheduler_Correct
begin

text \<open>
  The awaitables \<open>include/coro/awaitable_timer.hpp\<close>, \<open>awaitable_priority.hpp\<close> and
  \<open>awaitable_unordered.hpp\<close>. The reference \<open>scheduler_\<close> is the scheduler's list, an argument;
  \<open>h\<close> is the handle of the coroutine that awaits. A \<open>co_await\<close> asks \<open>await_ready\<close> and, when
  that is false, suspends the coroutine and calls \<open>await_suspend\<close>: its result is whether the
  coroutine was suspended, and the scheduler's list.
\<close>

section \<open>Timers\<close>

record awaitable_timer =
  timer_delay :: int

definition timer_await_ready :: "awaitable_timer \<Rightarrow> bool" where
  "timer_await_ready a = (timer_delay a = 0)"

definition make_condition_delay :: "period \<Rightarrow> int \<Rightarrow> int \<Rightarrow> schedule_by_delay option" where
  "make_condition_delay clock_period t_now arg = schedule_by_delay_after clock_period t_now arg"

definition timer_await_suspend :: "period \<Rightarrow> int \<Rightarrow> ('h, schedule_by_delay) schedule_entry
    \<Rightarrow> awaitable_timer \<Rightarrow> 'h \<Rightarrow> ('h, schedule_by_delay) task_list
    \<Rightarrow> ('h, schedule_by_delay) task_list option" where
  "timer_await_suspend clock_period t_now dflt a h scheduler = do {
     c \<leftarrow> make_condition_delay clock_period t_now (timer_delay a);
     scheduler_insert ready_by_delay dflt h c scheduler
   }"

record scheduled_delay =
  sd_delay :: int

definition co_await_scheduled_delay :: "scheduled_delay \<Rightarrow> awaitable_timer" where
  "co_await_scheduled_delay sd = \<lparr>timer_delay = sd_delay sd\<rparr>"

definition await_delay :: "period \<Rightarrow> int \<Rightarrow> ('h, schedule_by_delay) schedule_entry
    \<Rightarrow> scheduled_delay \<Rightarrow> 'h \<Rightarrow> ('h, schedule_by_delay) task_list
    \<Rightarrow> (bool \<times> ('h, schedule_by_delay) task_list) option" where
  "await_delay clock_period t_now dflt sd h scheduler =
     (let a = co_await_scheduled_delay sd
      in if timer_await_ready a then Some (False, scheduler)
         else do { s \<leftarrow> timer_await_suspend clock_period t_now dflt a h scheduler; Some (True, s) })"

section \<open>Priorities\<close>

record awaitable_priority =
  aw_priority :: int

definition priority_await_ready :: "awaitable_priority \<Rightarrow> bool" where
  "priority_await_ready a = False"

definition priority_await_suspend :: "('h, schedule_by_priority) schedule_entry
    \<Rightarrow> awaitable_priority \<Rightarrow> 'h \<Rightarrow> ('h, schedule_by_priority) task_list
    \<Rightarrow> ('h, schedule_by_priority) task_list option" where
  "priority_await_suspend dflt a h scheduler =
     scheduler_insert ready_by_priority dflt h (schedule_by_priority_of (aw_priority a)) scheduler"

record scheduled_priority =
  sp_priority :: int

definition co_await_scheduled_priority :: "scheduled_priority \<Rightarrow> awaitable_priority" where
  "co_await_scheduled_priority sp = \<lparr>aw_priority = sp_priority sp\<rparr>"

definition await_priority :: "('h, schedule_by_priority) schedule_entry \<Rightarrow> scheduled_priority
    \<Rightarrow> 'h \<Rightarrow> ('h, schedule_by_priority) task_list
    \<Rightarrow> (bool \<times> ('h, schedule_by_priority) task_list) option" where
  "await_priority dflt sp h scheduler =
     (let a = co_await_scheduled_priority sp
      in if priority_await_ready a then Some (False, scheduler)
         else do { s \<leftarrow> priority_await_suspend dflt a h scheduler; Some (True, s) })"

section \<open>Unordered\<close>

definition unordered_await_ready :: bool where
  "unordered_await_ready = False"

definition unordered_await_suspend :: "'h \<Rightarrow> 'h static_list \<Rightarrow> 'h static_list option" where
  "unordered_await_suspend h scheduler = unordered_insert h scheduler"

definition await_unordered :: "'h \<Rightarrow> 'h static_list \<Rightarrow> (bool \<times> 'h static_list) option" where
  "await_unordered h scheduler =
     (if unordered_await_ready then Some (False, scheduler)
      else do { s \<leftarrow> unordered_await_suspend h scheduler; Some (True, s) })"

section \<open>What is scheduled\<close>

lemma cast_micro_nano:
  assumes "\<bar>d\<bar> < 2 ^ 52"
  shows "duration_cast to_int64 period_micro period_nano d = Some (d * 1000)"
proof -
  have r: "ratio_divide period_micro period_nano = (1000, 1)" by code_simp
  have b: "- (2 ^ 63) \<le> d * 1000" "d * 1000 < 2 ^ 63" using assms by (simp_all add: abs_less_iff)
  then have "i64 (d * 1000) = Some (d * 1000)" by (simp add: i64_def)
  moreover have "cdiv (d * 1000) 1 = d * 1000" by (simp add: cdiv_def mult.assoc abs_mult_sgn mult_sgn_abs)
  ultimately show ?thesis
    using to_int64_small [OF b] by (simp add: duration_cast_def r)
qed

lemma make_condition_nano:
  assumes "\<bar>d\<bar> < 2 ^ 52" and "\<bar>t\<bar> < 2 ^ 62"
  shows "make_condition_delay period_nano t d = Some \<lparr>expires = t + d * 1000\<rparr>"
  using assms
  by (simp add: make_condition_delay_def schedule_by_delay_after_def cast_micro_nano i64_def abs_less_iff)

lemma await_delay_contents:
  assumes "wf_list s" and "d \<noteq> 0" and "\<bar>d\<bar> < 2 ^ 52" and "\<bar>t\<bar> < 2 ^ 62"
  shows "\<exists>s'. await_delay period_nano t dflt \<lparr>sd_delay = d\<rparr> h s = Some (True, s') \<and> wf_list s' \<and>
    capacity s' = capacity s \<and>
    contents s' = add_spec ready_by_delay (capacity s) (h, \<lparr>expires = t + d * 1000\<rparr>) (contents s)"
proof -
  obtain s' where "scheduler_insert ready_by_delay dflt h \<lparr>expires = t + d * 1000\<rparr> s = Some s'" "wf_list s'"
    "capacity s' = capacity s"
    "contents s' = add_spec ready_by_delay (capacity s) (h, \<lparr>expires = t + d * 1000\<rparr>) (contents s)"
    using scheduler_insert_contents [OF assms(1), of ready_by_delay dflt h "\<lparr>expires = t + d * 1000\<rparr>"]
    by (auto simp only: add_spec_def fst_conv snd_conv)
  then show ?thesis
    using assms(2) make_condition_nano [OF assms(3,4)]
    by (simp add: await_delay_def co_await_scheduled_delay_def timer_await_ready_def timer_await_suspend_def)
qed

end
