(* ===== verification/Example_Irq.thy ===== *)
theory Example_Irq
  imports Scheduler_Order Awaitable Board
begin

text \<open>
  \<open>src/example_irq.cpp\<close> on RV32: three coroutines that alternate between a scheduler run by
  the interrupt handler and a scheduler run by the main loop. A coroutine is designated by its
  number (3, 4, 5 for \<open>t3\<close>, \<open>t4\<close>, \<open>t5\<close>), which is its handle. The invariant says that each
  of them waits on exactly one scheduler, as long as the handler does not interrupt a scheduler
  operation of the main loop; \<open>Isr_Race\<close> shows what happens otherwise.
\<close>

section \<open>State\<close>

datatype await_at = At_Isr | At_Main

text \<open>The frame of \<open>resuming_on_isr_and_main\<close>: \<open>i\<close>, and the \<open>co_await\<close> it is suspended at.\<close>

record isr_frame =
  fr_i :: "32 word"
  fr_at :: await_at

datatype ctx = Isr | Mti | Mei | Main

record irq_demo = board +
  demo_lists :: "ctx \<Rightarrow> nat static_list"
  demo_frames :: "nat \<Rightarrow> isr_frame"
  timestamp_irq :: "64 word"
  isr_resume_count :: "nat \<Rightarrow> 32 word"
  main_resume_count :: "nat \<Rightarrow> 32 word"

text \<open>The scheduler that is passed to a coroutine as \<open>isr_scheduler\<close>.\<close>

definition isr_scheduler :: "nat \<Rightarrow> ctx" where
  "isr_scheduler t = (if t = 3 then Isr else if t = 4 then Mti else Mei)"

definition set_list :: "ctx \<Rightarrow> nat static_list \<Rightarrow> irq_demo \<Rightarrow> irq_demo" where
  "set_list k l w = w\<lparr>demo_lists := (demo_lists w)(k := l)\<rparr>"

definition set_frame :: "nat \<Rightarrow> isr_frame \<Rightarrow> irq_demo \<Rightarrow> irq_demo" where
  "set_frame t f w = w\<lparr>demo_frames := (demo_frames w)(t := f)\<rparr>"

section \<open>The coroutines\<close>

text \<open>\<open>co_await\<close> of scheduler \<open>k\<close> by coroutine \<open>t\<close>, which is then suspended at \<open>a\<close>.\<close>

definition task_await :: "nat \<Rightarrow> ctx \<Rightarrow> await_at \<Rightarrow> 32 word \<Rightarrow> irq_demo \<Rightarrow> irq_demo option" where
  "task_await t k a i w = do {
     (suspended, l) \<leftarrow> await_unordered t (demo_lists w k);
     Some (set_frame t \<lparr>fr_i = i, fr_at = a\<rparr> (set_list k l w))
   }"

text \<open>The beginning of a round of \<open>while (true)\<close>, up to the first \<open>co_await\<close>.\<close>

definition task_round :: "nat \<Rightarrow> 32 word \<Rightarrow> irq_demo \<Rightarrow> irq_demo option" where
  "task_round t i w = task_await t (isr_scheduler t) At_Isr (i + 1) w"

text \<open>The call of \<open>resuming_on_isr_and_main\<close>, whose frame has \<open>sz\<close> bytes.\<close>

definition task_start :: "32 word \<Rightarrow> nat \<Rightarrow> irq_demo \<Rightarrow> irq_demo option" where
  "task_start sz t w = call_coro sz (task_round t 0) w"

definition task_resume :: "nat \<Rightarrow> irq_demo \<Rightarrow> irq_demo option" where
  "task_resume t w = (let i = fr_i (demo_frames w t) in
     case fr_at (demo_frames w t) of
       At_Isr \<Rightarrow> task_await t Main At_Main i
         (w\<lparr>isr_resume_count := (isr_resume_count w)(t := i)\<rparr>)
     | At_Main \<Rightarrow> task_round t i
         (w\<lparr>main_resume_count := (main_resume_count w)(t := i)\<rparr>))"

text \<open>\<open>resume()\<close> of scheduler \<open>k\<close>.\<close>

definition resume_on :: "ctx \<Rightarrow> nat \<Rightarrow> nat static_list \<times> irq_demo
    \<Rightarrow> (nat static_list \<times> irq_demo) option" where
  "resume_on k t x = do {
     w \<leftarrow> task_resume t (set_list k (fst x) (snd x));
     Some (demo_lists w k, w)
   }"

definition ctx_resume :: "ctx \<Rightarrow> irq_demo \<Rightarrow> irq_demo option" where
  "ctx_resume k w = do {
     (l, w) \<leftarrow> unordered_resume (resume_on k) (demo_lists w k, w);
     Some (set_list k l w)
   }"

section \<open>Interrupt handler and main loop\<close>

text \<open>\<open>timestamp_irq = mtimer.get_time<timer_ticks>().count()\<close>\<close>

definition stamp_irq :: "board_clock \<Rightarrow> irq_demo \<Rightarrow> irq_demo option" where
  "stamp_irq clk w = do { (t, w) \<leftarrow> ticks_now clk w; Some (w\<lparr>timestamp_irq := t\<rparr>) }"

definition irq_isr_handler :: "board_clock \<Rightarrow> irq_demo \<Rightarrow> irq_demo option" where
  "irq_isr_handler clk w = do {
     w \<leftarrow> ctx_resume Isr w;
     (this_cause, h) \<leftarrow> reg_read mcause_ops (irq_hart w);
     let w = w\<lparr>irq_hart := h\<rparr>;
     if this_cause AND BIT_MASK mcause_data_interrupt \<noteq> 0 then
       (let this_cause = this_cause AND 0xFF
        in if this_cause = interrupts_mei then ctx_resume Mei w
           else if this_cause = interrupts_mti then do {
             w \<leftarrow> stamp_irq clk w;
             w \<leftarrow> mie_mti_clr w;
             ctx_resume Mti w
           } else Some w)
     else Some w
   }"

text \<open>One round of the main loop.\<close>

definition irq_main_round :: "board_clock \<Rightarrow> irq_demo \<Rightarrow> irq_demo option" where
  "irq_main_round clk w = do {
     w \<leftarrow> ctx_resume Main w;
     w \<leftarrow> timer_cmp clk period_micro 100 w;
     sleep_until_interrupt w
   }"

text \<open>
  The program up to the main loop. \<open>raw k\<close> is the storage of the scheduler for \<open>k\<close>, \<open>frame t\<close> the
  size of the frame of \<open>t\<close>, \<open>entry\<close> the address of the trap entry, \<open>T\<close> and \<open>handler\<close> the type and
  address of the lambda object.
\<close>

definition make_lists :: "(ctx \<Rightarrow> nat static_list_node list) \<Rightarrow> irq_demo \<Rightarrow> irq_demo option" where
  "make_lists raw w = do {
     a \<leftarrow> static_list_ctor (raw Isr);
     b \<leftarrow> static_list_ctor (raw Mti);
     c \<leftarrow> static_list_ctor (raw Mei);
     d \<leftarrow> static_list_ctor (raw Main);
     Some (set_list Main d (set_list Mei c (set_list Mti b (set_list Isr a w))))
   }"

definition irq_setup :: "board_clock \<Rightarrow> (ctx \<Rightarrow> nat static_list_node list) \<Rightarrow> (nat \<Rightarrow> 32 word) \<Rightarrow> 32 word
    \<Rightarrow> nat \<Rightarrow> 32 word \<Rightarrow> irq_demo \<Rightarrow> irq_demo option" where
  "irq_setup clk raw frame entry T handler w = do {
     w \<leftarrow> mstatus_mie_clr w;
     w \<leftarrow> stamp_irq clk w;
     w \<leftarrow> timer_cmp clk period_nano 0 w;
     w \<leftarrow> make_lists raw w;
     w \<leftarrow> task_start (frame 3) 3 w;
     w \<leftarrow> task_start (frame 4) 4 w;
     w \<leftarrow> task_start (frame 5) 5 w;
     w \<leftarrow> irq_handler_ctor entry T handler w;
     w \<leftarrow> mie_mti_set w;
     mstatus_mie_set w
   }"

end
