(* ===== verification/Example_Irq_Correct.thy ===== *)
theory Example_Irq_Correct
  imports Example_Irq
begin

text \<open>
  The invariant of \<open>example_irq\<close>: wherever the program is between two rounds of its main loop
  or two interrupts, each of the three coroutines waits on exactly one scheduler, the one its
  frame says, no list is ever too short, and the two resume counters of a coroutine differ by at
  most one.
\<close>

section \<open>The invariant\<close>

definition tasks :: "nat set" where
  "tasks = {3, 4, 5}"

definition counts_ok :: "irq_demo \<Rightarrow> nat \<Rightarrow> bool" where
  "counts_ok w t \<longleftrightarrow> main_resume_count w t = fr_i (demo_frames w t) - 1 \<and>
     isr_resume_count w t = (case fr_at (demo_frames w t) of
       At_Isr \<Rightarrow> fr_i (demo_frames w t) - 1 | At_Main \<Rightarrow> fr_i (demo_frames w t))"

definition in_place :: "irq_demo \<Rightarrow> nat \<Rightarrow> bool" where
  "in_place w t \<longleftrightarrow> counts_ok w t \<and> (case fr_at (demo_frames w t) of
     At_Isr \<Rightarrow> contents (demo_lists w (isr_scheduler t)) = [t] \<and> t \<notin> set (contents (demo_lists w Main))
   | At_Main \<Rightarrow> contents (demo_lists w (isr_scheduler t)) = [] \<and> t \<in> set (contents (demo_lists w Main)))"

definition lists_ok :: "irq_demo \<Rightarrow> bool" where
  "lists_ok w \<longleftrightarrow> (\<forall>k. wf_list (demo_lists w k) \<and> capacity (demo_lists w k) = (if k = Main then 3 else 1)) \<and>
     distinct (contents (demo_lists w Main)) \<and> set (contents (demo_lists w Main)) \<subseteq> tasks"

definition demo_ok :: "irq_demo \<Rightarrow> bool" where
  "demo_ok w \<longleftrightarrow> lists_ok w \<and> (\<forall>t \<in> tasks. in_place w t)"

text \<open>Coroutine \<open>t\<close> has been taken off its list and is running; the others are in place.\<close>

definition running :: "irq_demo \<Rightarrow> nat \<Rightarrow> bool" where
  "running w t \<longleftrightarrow> lists_ok w \<and> t \<in> tasks \<and> counts_ok w t \<and> contents (demo_lists w (isr_scheduler t)) = [] \<and>
     t \<notin> set (contents (demo_lists w Main)) \<and> (\<forall>u \<in> tasks - {t}. in_place w u)"

lemma isr_scheduler_not_Main [simp]: "isr_scheduler t \<noteq> Main" "Main \<noteq> isr_scheduler t"
  by (simp_all add: isr_scheduler_def)

lemma isr_scheduler_inj:
  "t \<in> tasks \<Longrightarrow> u \<in> tasks \<Longrightarrow> isr_scheduler t = isr_scheduler u \<longleftrightarrow> t = u"
  by (auto simp: tasks_def isr_scheduler_def)

lemma set_list_simps [simp]:
  "demo_lists (set_list k l w) = (demo_lists w)(k := l)"
  "demo_frames (set_list k l w) = demo_frames w"
  "isr_resume_count (set_list k l w) = isr_resume_count w"
  "main_resume_count (set_list k l w) = main_resume_count w"
  "irq_hart (set_list k l w) = irq_hart w" "demo_timer (set_list k l w) = demo_timer w"
  "set_list k (demo_lists w k) w = w" "demo_tasks (set_list k l w) = demo_tasks w"
  by (simp_all add: set_list_def)

lemma set_frame_simps [simp]:
  "demo_lists (set_frame t f w) = demo_lists w"
  "demo_frames (set_frame t f w) = (demo_frames w)(t := f)"
  "isr_resume_count (set_frame t f w) = isr_resume_count w"
  "main_resume_count (set_frame t f w) = main_resume_count w"
  "irq_hart (set_frame t f w) = irq_hart w" "demo_timer (set_frame t f w) = demo_timer w"
  "demo_tasks (set_frame t f w) = demo_tasks w"
  by (simp_all add: set_frame_def)

section \<open>One coroutine\<close>

lemma task_await_ok:
  assumes "wf_list (demo_lists w k)" and "length (contents (demo_lists w k)) < capacity (demo_lists w k)"
  shows "\<exists>l. task_await t k a i w = Some (set_frame t \<lparr>fr_i = i, fr_at = a\<rparr> (set_list k l w)) \<and>
    wf_list l \<and> capacity l = capacity (demo_lists w k) \<and> contents l = contents (demo_lists w k) @ [t]"
proof -
  obtain l where "emplace_back t (demo_lists w k) = Some l" "wf_list l" "capacity l = capacity (demo_lists w k)"
    "contents l = contents (demo_lists w k) @ [t]"
    using emplace_back_refines [OF assms(1), of t] assms(2) by (auto simp: bounded_insert_def)
  then show ?thesis
    by (intro exI [of _ l]) (simp add: task_await_def await_unordered_def unordered_await_ready_def
        unordered_await_suspend_def unordered_insert_def)
qed

lemma main_has_room:
  assumes "running w t"
  shows "length (contents (demo_lists w Main)) < 3"
proof -
  have "set (contents (demo_lists w Main)) \<subseteq> tasks - {t}" "t \<in> tasks" "distinct (contents (demo_lists w Main))"
    using assms by (auto simp: running_def lists_ok_def)
  moreover have "card (tasks - {t}) = 2" using \<open>t \<in> tasks\<close> by (auto simp: tasks_def)
  ultimately show ?thesis
    by (metis card_mono distinct_card finite.emptyI finite.insertI finite_Diff le_less_trans lessI
        numeral_2_eq_2 numeral_3_eq_3 tasks_def)
qed

text \<open>What a coroutine does when it is resumed; the devices are not touched.\<close>

definition same_devices :: "irq_demo \<Rightarrow> irq_demo \<Rightarrow> bool" where
  "same_devices w w' \<longleftrightarrow> irq_hart w' = irq_hart w \<and> demo_timer w' = demo_timer w"

lemma same_devices_trans [trans]: "same_devices a b \<Longrightarrow> same_devices b c \<Longrightarrow> same_devices a c"
  by (simp add: same_devices_def)

lemma resume_at_isr:
  assumes "running w t" and "fr_at (demo_frames w t) = At_Isr"
  shows "\<exists>l. task_resume t w = Some (set_frame t \<lparr>fr_i = fr_i (demo_frames w t), fr_at = At_Main\<rparr>
      (set_list Main l (w\<lparr>isr_resume_count := (isr_resume_count w)(t := fr_i (demo_frames w t))\<rparr>))) \<and>
    wf_list l \<and> capacity l = 3 \<and> contents l = contents (demo_lists w Main) @ [t]"
proof -
  let ?w = "w\<lparr>isr_resume_count := (isr_resume_count w)(t := fr_i (demo_frames w t))\<rparr>"
  have "wf_list (demo_lists ?w Main)" "capacity (demo_lists ?w Main) = 3"
    using assms(1) by (simp_all add: running_def lists_ok_def)
  with main_has_room [OF assms(1)] task_await_ok [of ?w Main t At_Main "fr_i (demo_frames w t)"] assms(2)
  show ?thesis by (simp add: task_resume_def Let_def)
qed

lemma resume_at_main:
  assumes "running w t" and "fr_at (demo_frames w t) = At_Main"
  shows "\<exists>l. task_resume t w = Some (set_frame t \<lparr>fr_i = fr_i (demo_frames w t) + 1, fr_at = At_Isr\<rparr>
      (set_list (isr_scheduler t) l (w\<lparr>main_resume_count := (main_resume_count w)(t := fr_i (demo_frames w t))\<rparr>))) \<and>
    wf_list l \<and> capacity l = 1 \<and> contents l = [t]"
proof -
  let ?w = "w\<lparr>main_resume_count := (main_resume_count w)(t := fr_i (demo_frames w t))\<rparr>"
  have "wf_list (demo_lists ?w (isr_scheduler t))" "capacity (demo_lists ?w (isr_scheduler t)) = 1"
    "contents (demo_lists ?w (isr_scheduler t)) = []"
    using assms(1) by (simp_all add: running_def lists_ok_def)
  with task_await_ok [of ?w "isr_scheduler t" t At_Isr "fr_i (demo_frames w t) + 1"] assms(2)
  show ?thesis by (simp add: task_resume_def task_round_def Let_def)
qed

lemma in_place_frame:
  assumes "in_place w u" and "demo_frames w' u = demo_frames w u"
    and "isr_resume_count w' u = isr_resume_count w u" and "main_resume_count w' u = main_resume_count w u"
    and "contents (demo_lists w' (isr_scheduler u)) = contents (demo_lists w (isr_scheduler u))"
    and "u \<in> set (contents (demo_lists w' Main)) \<longleftrightarrow> u \<in> set (contents (demo_lists w Main))"
  shows "in_place w' u"
  using assms by (simp add: in_place_def counts_ok_def split: await_at.splits)

lemma task_resume_ok:
  assumes r: "running w t"
  shows "\<exists>w'. task_resume t w = Some w' \<and> demo_ok w' \<and> same_devices w w' \<and>
    fr_at (demo_frames w' t) = (case fr_at (demo_frames w t) of At_Isr \<Rightarrow> At_Main | At_Main \<Rightarrow> At_Isr) \<and>
    (fr_at (demo_frames w t) = At_Isr \<longrightarrow> fr_i (demo_frames w' t) = fr_i (demo_frames w t)) \<and>
    (\<forall>u. u \<noteq> t \<longrightarrow> demo_frames w' u = demo_frames w u) \<and>
    (case fr_at (demo_frames w t) of
       At_Isr \<Rightarrow> demo_lists w' (isr_scheduler t) = demo_lists w (isr_scheduler t)
     | At_Main \<Rightarrow> demo_lists w' Main = demo_lists w Main)"
proof (cases "fr_at (demo_frames w t)")
  case At_Isr
  from resume_at_isr [OF r At_Isr] obtain l where l: "wf_list l" "capacity l = 3"
    "contents l = contents (demo_lists w Main) @ [t]" and
    res: "task_resume t w = Some (set_frame t \<lparr>fr_i = fr_i (demo_frames w t), fr_at = At_Main\<rparr>
      (set_list Main l (w\<lparr>isr_resume_count := (isr_resume_count w)(t := fr_i (demo_frames w t))\<rparr>)))" (is "_ = Some ?w'")
    by blast
  have "lists_ok ?w'" using r l by (auto simp: running_def lists_ok_def)
  moreover have "in_place ?w' u" if "u \<in> tasks" for u
  proof (cases "u = t")
    case True
    with r l At_Isr show ?thesis by (simp add: running_def in_place_def counts_ok_def)
  next
    case False
    with r that have "in_place w u" by (simp add: running_def)
    then show ?thesis by (rule in_place_frame) (use False l in simp_all)
  qed
  ultimately show ?thesis using res At_Isr by (simp add: demo_ok_def same_devices_def)
next
  case At_Main
  from resume_at_main [OF r At_Main] obtain l where l: "wf_list l" "capacity l = 1" "contents l = [t]" and
    res: "task_resume t w = Some (set_frame t \<lparr>fr_i = fr_i (demo_frames w t) + 1, fr_at = At_Isr\<rparr>
      (set_list (isr_scheduler t) l (w\<lparr>main_resume_count := (main_resume_count w)(t := fr_i (demo_frames w t))\<rparr>)))"
      (is "_ = Some ?w'")
    by blast
  have "lists_ok ?w'" using r l by (auto simp: running_def lists_ok_def)
  moreover have "in_place ?w' u" if "u \<in> tasks" for u
  proof (cases "u = t")
    case True
    with r l At_Main show ?thesis by (simp add: running_def in_place_def counts_ok_def)
  next
    case False
    with r that have "in_place w u" by (simp add: running_def)
    then show ?thesis
      by (rule in_place_frame) (use False that r l isr_scheduler_inj in \<open>auto simp: running_def\<close>)
  qed
  ultimately show ?thesis using res At_Main by (simp add: demo_ok_def same_devices_def)
qed

section \<open>One scheduler\<close>

lemma unordered_resume_nil:
  "wf_list l \<Longrightarrow> contents l = [] \<Longrightarrow> unordered_resume rh (l, e) = Some (l, e)"
  by (subst unordered_resume.simps) (simp add: list_empty_contents)

lemma unordered_resume_cons:
  assumes "wf_list l" and "contents l = h # q"
  shows "\<exists>l1. wf_list l1 \<and> capacity l1 = capacity l \<and> contents l1 = q \<and>
    unordered_resume rh (l, e) = Option.bind (rh h (l1, e)) (unordered_resume rh)"
proof -
  from pop_head [OF assms] obtain l1 where "iterator_value l (list_begin l) = Some h"
    "pop_front l = Some l1" "wf_list l1" "capacity l1 = capacity l" "contents l1 = q" by blast
  then show ?thesis
    using assms by (intro exI [of _ l1]) (subst unordered_resume.simps, simp add: list_empty_contents unordered_round_def)
qed

text \<open>Taking the first coroutine off a scheduler's list leaves it running.\<close>

lemma taken_off_isr:
  assumes "demo_ok w" and "t \<in> tasks" and "fr_at (demo_frames w t) = At_Isr"
    and "wf_list l" and "capacity l = 1" and "contents l = []"
  shows "running (set_list (isr_scheduler t) l w) t"
  unfolding running_def
proof (intro conjI ballI)
  show "lists_ok (set_list (isr_scheduler t) l w)"
    using assms by (auto simp: demo_ok_def lists_ok_def)
  show "counts_ok (set_list (isr_scheduler t) l w) t"
    "t \<notin> set (contents (demo_lists (set_list (isr_scheduler t) l w) Main))"
    using assms(1-3) by (auto simp: demo_ok_def in_place_def counts_ok_def)
  fix u
  assume u: "u \<in> tasks - {t}"
  with assms(1) have "in_place w u" by (simp add: demo_ok_def)
  then show "in_place (set_list (isr_scheduler t) l w) u"
    by (rule in_place_frame) (use u assms(2) isr_scheduler_inj in auto)
qed (use assms in simp_all)

lemma taken_off_main:
  assumes "demo_ok w" and "contents (demo_lists w Main) = t # q"
    and "wf_list l" and "capacity l = 3" and "contents l = q"
  shows "running (set_list Main l w) t \<and> fr_at (demo_frames w t) = At_Main"
proof -
  have t: "t \<in> tasks" "t \<notin> set q" "distinct q" "set q \<subseteq> tasks" "in_place w t"
    using assms(1,2) by (auto simp: demo_ok_def lists_ok_def)
  then have m: "fr_at (demo_frames w t) = At_Main" "contents (demo_lists w (isr_scheduler t)) = []" "counts_ok w t"
    using assms(2) by (auto simp: in_place_def split: await_at.splits)
  have "in_place (set_list Main l w) u" if "u \<in> tasks - {t}" for u
  proof (rule in_place_frame)
    show "in_place w u" using assms(1) that by (simp add: demo_ok_def)
  qed (use that assms(2,5) in auto)
  then show ?thesis
    using assms t m by (auto simp: running_def demo_ok_def lists_ok_def counts_ok_def)
qed

text \<open>\<open>resume()\<close> of the scheduler of an interrupt moves its coroutine to the main loop.\<close>

lemma ctx_resume_isr:
  assumes "demo_ok w" and "t \<in> tasks"
  shows "\<exists>w'. ctx_resume (isr_scheduler t) w = Some w' \<and> demo_ok w' \<and> same_devices w w' \<and>
    fr_at (demo_frames w' t) = At_Main \<and> (\<forall>u. fr_i (demo_frames w' u) = fr_i (demo_frames w u)) \<and>
    (\<forall>u. u \<noteq> t \<longrightarrow> demo_frames w' u = demo_frames w u)"
proof (cases "fr_at (demo_frames w t)")
  case At_Main
  with assms have "wf_list (demo_lists w (isr_scheduler t))" "contents (demo_lists w (isr_scheduler t)) = []"
    by (auto simp: demo_ok_def lists_ok_def in_place_def)
  from unordered_resume_nil [OF this, of "resume_on (isr_scheduler t)" w] assms(1) At_Main show ?thesis
    by (simp add: ctx_resume_def same_devices_def)
next
  case At_Isr
  let ?k = "isr_scheduler t"
  have c: "wf_list (demo_lists w ?k)" "contents (demo_lists w ?k) = [t]" "capacity (demo_lists w ?k) = 1"
    using assms At_Isr by (auto simp: demo_ok_def lists_ok_def in_place_def)
  from unordered_resume_cons [OF c(1,2), of "resume_on ?k" w] obtain l1 where
    l1: "wf_list l1" "capacity l1 = 1" "contents l1 = []" and
    u: "unordered_resume (resume_on ?k) (demo_lists w ?k, w) =
      Option.bind (resume_on ?k t (l1, w)) (unordered_resume (resume_on ?k))" using c(3) by auto
  from task_resume_ok [OF taken_off_isr [OF assms At_Isr l1]] At_Isr obtain w' where
    w': "task_resume t (set_list ?k l1 w) = Some w'" "demo_ok w'" "same_devices w w'"
      "fr_at (demo_frames w' t) = At_Main" "\<forall>u. u \<noteq> t \<longrightarrow> demo_frames w' u = demo_frames w u"
      "demo_lists w' ?k = l1" "fr_i (demo_frames w' t) = fr_i (demo_frames w t)"
    by (auto simp: same_devices_def)
  then have "\<forall>u. fr_i (demo_frames w' u) = fr_i (demo_frames w u)" by metis
  moreover have "unordered_resume (resume_on ?k) (demo_lists w ?k, w) = Some (l1, w')"
    using u l1 w' by (simp add: resume_on_def unordered_resume_nil)
  moreover have "set_list ?k l1 w' = w'" using set_list_simps(7) [of ?k w'] w'(6) by simp
  ultimately show ?thesis using w' by (simp add: ctx_resume_def)
qed

text \<open>\<open>main_thread.resume()\<close> moves every coroutine to the scheduler of its interrupt.\<close>

lemma drain_main:
  assumes "demo_ok w" and "contents (demo_lists w Main) = hs"
  shows "\<exists>w'. unordered_resume (resume_on Main) (demo_lists w Main, w) = Some (demo_lists w' Main, w') \<and>
    demo_ok w' \<and> same_devices w w' \<and> contents (demo_lists w' Main) = []"
  using assms
proof (induction hs arbitrary: w)
  case Nil
  then have "wf_list (demo_lists w Main)" by (simp add: demo_ok_def lists_ok_def)
  from unordered_resume_nil [OF this Nil(2), of "resume_on Main" w] Nil show ?case
    by (auto simp: same_devices_def)
next
  case (Cons t q)
  have c: "wf_list (demo_lists w Main)" "capacity (demo_lists w Main) = 3"
    using Cons.prems by (auto simp: demo_ok_def lists_ok_def)
  from unordered_resume_cons [OF c(1) Cons.prems(2), of "resume_on Main" w] obtain l1 where
    l1: "wf_list l1" "capacity l1 = 3" "contents l1 = q" and
    u: "unordered_resume (resume_on Main) (demo_lists w Main, w) =
      Option.bind (resume_on Main t (l1, w)) (unordered_resume (resume_on Main))" using c(2) by auto
  note run = taken_off_main [OF Cons.prems l1]
  from task_resume_ok [OF conjunct1 [OF run]] run obtain w1 where
    w1: "task_resume t (set_list Main l1 w) = Some w1" "demo_ok w1" "same_devices w w1"
      "demo_lists w1 Main = l1" by (auto simp: same_devices_def)
  from Cons.IH [OF w1(2)] w1(4) l1(3) obtain w' where
    "unordered_resume (resume_on Main) (demo_lists w1 Main, w1) = Some (demo_lists w' Main, w')"
    "demo_ok w'" "same_devices w1 w'" "contents (demo_lists w' Main) = []" by auto
  moreover have "resume_on Main t (l1, w) = Some (demo_lists w1 Main, w1)"
    using w1(1) by (simp add: resume_on_def)
  ultimately show ?case using u same_devices_trans [OF w1(3)] by (intro exI [of _ w']) simp
qed

lemma ctx_resume_main:
  assumes "demo_ok w"
  shows "\<exists>w'. ctx_resume Main w = Some w' \<and> demo_ok w' \<and> same_devices w w' \<and>
    (\<forall>t \<in> tasks. fr_at (demo_frames w' t) = At_Isr)"
proof -
  from drain_main [OF assms refl] obtain w' where
    w': "unordered_resume (resume_on Main) (demo_lists w Main, w) = Some (demo_lists w' Main, w')"
      "demo_ok w'" "same_devices w w'" "contents (demo_lists w' Main) = []" by blast
  then have "\<forall>t \<in> tasks. fr_at (demo_frames w' t) = At_Isr"
    by (auto simp: demo_ok_def in_place_def split: await_at.splits) (metis await_at.exhaust)
  with w' show ?thesis by (simp add: ctx_resume_def)
qed

section \<open>Devices\<close>

text \<open>The part of the state that the coroutines and the invariant depend on.\<close>

definition same_tasks :: "irq_demo \<Rightarrow> irq_demo \<Rightarrow> bool" where
  "same_tasks w w' \<longleftrightarrow> demo_lists w' = demo_lists w \<and> demo_frames w' = demo_frames w \<and>
     isr_resume_count w' = isr_resume_count w \<and> main_resume_count w' = main_resume_count w \<and>
     demo_tasks w' = demo_tasks w"

lemma same_tasks_ok:
  assumes "same_tasks w w'" and "demo_ok w"
  shows "demo_ok w'"
proof -
  have e: "demo_lists w' = demo_lists w" "demo_frames w' = demo_frames w"
    "isr_resume_count w' = isr_resume_count w" "main_resume_count w' = main_resume_count w"
    using assms(1) by (simp_all add: same_tasks_def)
  from assms(2) show ?thesis
    unfolding demo_ok_def lists_ok_def in_place_def counts_ok_def e .
qed

lemma same_tasks_frames: "same_tasks w w' \<Longrightarrow> demo_frames w' = demo_frames w"
  by (simp add: same_tasks_def)

lemma same_tasks_trans [trans]: "same_tasks a b \<Longrightarrow> same_tasks b c \<Longrightarrow> same_tasks a c"
  by (simp add: same_tasks_def)

lemma same_devices_hart: "same_devices w w' \<Longrightarrow> hart_ok w \<Longrightarrow> hart_ok w'"
  by (simp add: same_devices_def hart_ok_def)

text \<open>Each device operation of the program returns and leaves the coroutines alone.\<close>

definition dev_ok :: "(irq_demo \<Rightarrow> irq_demo option) \<Rightarrow> bool" where
  "dev_ok f \<longleftrightarrow> (\<forall>w. hart_ok w \<longrightarrow> (\<exists>w'. f w = Some w' \<and> hart_ok w' \<and> same_tasks w w'))"

lemma dev_okD: "dev_ok f \<Longrightarrow> hart_ok w \<Longrightarrow> \<exists>w'. f w = Some w' \<and> hart_ok w' \<and> same_tasks w w'"
  by (simp add: dev_ok_def)

lemma dev_csr: "csr_step f \<Longrightarrow> dev_ok f"
  unfolding dev_ok_def
proof (intro allI impI)
  fix w :: irq_demo
  assume "csr_step f" and "hart_ok w"
  from csr_stepD [OF this] obtain h where "f w = Some (w\<lparr>irq_hart := h\<rparr>)" "hart_ok (w\<lparr>irq_hart := h\<rparr>)" by blast
  then show "\<exists>w'. f w = Some w' \<and> hart_ok w' \<and> same_tasks w w'" by (simp add: same_tasks_def)
qed

lemma dev_unchanged:
  "hart_ok (w\<lparr>demo_timer := m, timestamp_irq := t\<rparr>) = hart_ok w" "same_tasks w (w\<lparr>demo_timer := m, timestamp_irq := t\<rparr>)"
  "hart_ok (w\<lparr>demo_timer := m\<rparr>) = hart_ok w" "same_tasks w (w\<lparr>demo_timer := m\<rparr>)"
  by (simp_all add: hart_ok_def same_tasks_def)

lemma dev_stamp:
  assumes "steady_clock clk"
  shows "dev_ok (stamp_irq clk)"
  unfolding dev_ok_def
proof (intro allI impI)
  fix w :: irq_demo
  assume w: "hart_ok w"
  from ticks_now_step [OF assms] obtain t n where
    "ticks_now clk w = Some (t, w\<lparr>demo_timer := (demo_timer w)\<lparr>bus_count := n\<rparr>\<rparr>)" by blast
  with w show "\<exists>w'. stamp_irq clk w = Some w' \<and> hart_ok w' \<and> same_tasks w w'"
    by (simp add: stamp_irq_def dev_unchanged)
qed

lemma dev_cmp:
  assumes "steady_clock clk" and "duration_cast to_int32 p (timer_ticks (clk_freq clk)) d = Some c"
  shows "dev_ok (timer_cmp clk p d)"
  unfolding dev_ok_def
proof (intro allI impI)
  fix w :: irq_demo
  assume w: "hart_ok w"
  from timer_cmp_step [OF assms, of w] obtain m where "timer_cmp clk p d w = Some (w\<lparr>demo_timer := m\<rparr>)" by blast
  with w show "\<exists>w'. timer_cmp clk p d w = Some w' \<and> hart_ok w' \<and> same_tasks w w'"
    by (simp add: dev_unchanged)
qed

section \<open>Interrupt and main loop keep the invariant\<close>

lemma isr_handler_ok:
  assumes steady: "steady_clock clk" and "demo_ok w" and "hart_ok w"
    and cause: "csr_file (irq_hart w) ''mcause'' = Some cause"
  shows "\<exists>w'. irq_isr_handler clk w = Some w' \<and> demo_ok w' \<and> hart_ok w' \<and>
    (\<forall>u. fr_i (demo_frames w' u) = fr_i (demo_frames w u)) \<and> fr_at (demo_frames w' 3) = At_Main \<and>
    (cause AND BIT_MASK mcause_data_interrupt \<noteq> 0 \<and> cause AND 0xFF = interrupts_mti \<longrightarrow>
       fr_at (demo_frames w' 4) = At_Main) \<and>
    (cause AND BIT_MASK mcause_data_interrupt \<noteq> 0 \<and> cause AND 0xFF = interrupts_mei \<longrightarrow>
       fr_at (demo_frames w' 5) = At_Main)"
proof -
  have t: "3 \<in> tasks" "4 \<in> tasks" "5 \<in> tasks"
    and k: "isr_scheduler 3 = Isr" "isr_scheduler 4 = Mti" "isr_scheduler 5 = Mei"
    by (simp_all add: tasks_def isr_scheduler_def)
  obtain w1 where w1: "ctx_resume Isr w = Some w1" "demo_ok w1" "same_devices w w1"
    "fr_at (demo_frames w1 3) = At_Main" "\<forall>u. fr_i (demo_frames w1 u) = fr_i (demo_frames w u)"
    using ctx_resume_isr [OF assms(2) t(1)] k by auto
  have h1: "hart_ok w1" "csr_file (irq_hart w1) ''mcause'' = Some cause"
    using w1(3) assms(3) cause by (auto simp: same_devices_def hart_ok_def)
  then have rd: "reg_read mcause_ops (irq_hart w1) = Some (cause, irq_hart w1)"
    by (simp add: mcause_read)
  obtain w5 where w5: "ctx_resume Mei w1 = Some w5" "demo_ok w5" "same_devices w1 w5"
    "fr_at (demo_frames w5 5) = At_Main" "fr_at (demo_frames w5 3) = At_Main"
    "\<forall>u. fr_i (demo_frames w5 u) = fr_i (demo_frames w u)"
    using ctx_resume_isr [OF w1(2) t(3)] k w1(4,5) by auto
  obtain w2 where w2: "stamp_irq clk w1 = Some w2" "hart_ok w2" "same_tasks w1 w2"
    using dev_okD [OF dev_stamp [OF steady] h1(1)] by blast
  obtain w3 where w3: "mie_mti_clr w2 = Some w3" "hart_ok w3" "same_tasks w2 w3"
    using dev_okD [OF dev_csr [OF csr_step_bits(3)] w2(2)] by blast
  have ok3: "demo_ok w3" "fr_at (demo_frames w3 3) = At_Main" "\<forall>u. fr_i (demo_frames w3 u) = fr_i (demo_frames w u)"
    using same_tasks_ok [OF same_tasks_trans [OF w2(3) w3(3)] w1(2)] w1(4,5) w2(3) w3(3)
    by (simp_all add: same_tasks_def)
  obtain w4 where w4: "ctx_resume Mti w3 = Some w4" "demo_ok w4" "same_devices w3 w4"
    "fr_at (demo_frames w4 4) = At_Main" "fr_at (demo_frames w4 3) = At_Main"
    "\<forall>u. fr_i (demo_frames w4 u) = fr_i (demo_frames w u)"
    using ctx_resume_isr [OF ok3(1) t(2)] k ok3(2,3) by auto
  have n: "interrupts_mei \<noteq> interrupts_mti" by (simp add: interrupts_mei_def interrupts_mti_def)
  have hart: "hart_ok w4" "hart_ok w5"
    using same_devices_hart w4(3) w5(3) w3(2) h1(1) by blast+
  consider "cause AND BIT_MASK mcause_data_interrupt = 0"
    | "cause AND BIT_MASK mcause_data_interrupt \<noteq> 0" "cause AND 0xFF = interrupts_mei"
    | "cause AND BIT_MASK mcause_data_interrupt \<noteq> 0" "cause AND 0xFF = interrupts_mti"
    | "cause AND BIT_MASK mcause_data_interrupt \<noteq> 0" "cause AND 0xFF \<noteq> interrupts_mei" "cause AND 0xFF \<noteq> interrupts_mti"
    by blast
  then show ?thesis
  proof cases
    case 1
    with w1 h1 rd show ?thesis by (intro exI [of _ w1]) (simp add: irq_isr_handler_def)
  next
    case 2
    with w1 h1 rd w5 hart n show ?thesis by (intro exI [of _ w5]) (simp add: irq_isr_handler_def Let_def)
  next
    case 3
    with w1 h1 rd w2 w3 w4 hart n show ?thesis
      by (intro exI [of _ w4]) (simp add: irq_isr_handler_def Let_def)
  next
    case 4
    with w1 h1 rd show ?thesis by (intro exI [of _ w1]) (simp add: irq_isr_handler_def Let_def)
  qed
qed

lemma main_round_ok:
  assumes steady: "steady_clock clk" and "demo_ok w" and "hart_ok w"
  shows "\<exists>w'. irq_main_round clk w = Some w' \<and> demo_ok w' \<and> hart_ok w' \<and>
    (\<forall>t \<in> tasks. fr_at (demo_frames w' t) = At_Isr)"
proof -
  obtain w1 where w1: "ctx_resume Main w = Some w1" "demo_ok w1" "hart_ok w1"
    "\<forall>t \<in> tasks. fr_at (demo_frames w1 t) = At_Isr"
    using ctx_resume_main [OF assms(2)] same_devices_hart assms(3) by blast
  have "duration_cast to_int32 period_micro (timer_ticks (clk_freq clk)) 100 =
      Some (to_int32 (100 * clk_freq clk div 1000000))"
    using cast_to_ticks [OF steady_clockD(2,3) [OF steady], of 1000000 100] by (simp add: period_micro_def)
  from dev_okD [OF dev_cmp [OF steady this] w1(3)] obtain w2 where
    w2: "timer_cmp clk period_micro 100 w1 = Some w2" "hart_ok w2" "same_tasks w1 w2" by blast
  from dev_okD [OF dev_csr [OF csr_step_sleep] w2(2)] obtain w5 where
    w5: "sleep_until_interrupt w2 = Some w5" "hart_ok w5" "same_tasks w2 w5" by blast
  have s: "same_tasks w1 w5" using w2(3) w5(3) same_tasks_trans by blast
  have "irq_main_round clk w = Some w5"
    using w1(1) w2(1) w5(1) by (simp add: irq_main_round_def)
  with s w1 w5(2) same_tasks_ok same_tasks_frames show ?thesis by auto
qed

section \<open>Start\<close>

lemma dev_handler: "dev_ok (irq_handler_ctor entry T handler)"
  unfolding dev_ok_def
proof (intro allI impI)
  fix w :: irq_demo
  assume "hart_ok w"
  from handler_ctor_step [OF this] obtain h where
    "irq_handler_ctor entry T handler w = Some (w\<lparr>execute_handler := Some T, irq_hart := h\<rparr>)"
    "hart_ok (w\<lparr>execute_handler := Some T, irq_hart := h\<rparr>)" by blast
  then show "\<exists>w'. irq_handler_ctor entry T handler w = Some w' \<and> hart_ok w' \<and> same_tasks w w'"
    by (simp add: same_tasks_def)
qed

definition ctx_size :: "ctx \<Rightarrow> nat" where
  "ctx_size k = (if k = Main then 3 else 1)"

definition lists_new :: "irq_demo \<Rightarrow> bool" where
  "lists_new w \<longleftrightarrow> (\<forall>k. wf_list (demo_lists w k) \<and> capacity (demo_lists w k) = ctx_size k \<and>
     contents (demo_lists w k) = [])"

lemma make_lists_ok:
  assumes "\<And>k. length (raw k) = ctx_size k"
  shows "\<exists>w'. make_lists raw w = Some w' \<and> lists_new w' \<and> irq_hart w' = irq_hart w \<and> demo_tasks w' = demo_tasks w \<and>
    isr_resume_count w' = isr_resume_count w \<and> main_resume_count w' = main_resume_count w"
proof -
  have "\<exists>l. static_list_ctor (raw k) = Some l \<and> wf_list l \<and> contents l = [] \<and> capacity l = ctx_size k" for k
  proof -
    have "raw k \<noteq> []" using assms [of k] by (auto simp: ctx_size_def split: if_splits)
    from static_list_ctor_refines [OF this] show ?thesis by (simp add: assms)
  qed
  then obtain f where f: "\<And>k. static_list_ctor (raw k) = Some (f k) \<and> wf_list (f k) \<and> contents (f k) = [] \<and>
      capacity (f k) = ctx_size k" by metis
  let ?w = "set_list Main (f Main) (set_list Mei (f Mei) (set_list Mti (f Mti) (set_list Isr (f Isr) w)))"
  have "demo_lists ?w k = f k" for k by (cases k) simp_all
  then have "lists_new ?w" using f by (simp add: lists_new_def)
  moreover have "make_lists raw w = Some ?w" using f by (simp add: make_lists_def)
  ultimately show ?thesis by auto
qed

lemma task_start_ok:
  assumes "frames_fit frame (t # ts) w" and "wf_list (demo_lists w (isr_scheduler t))"
    and "capacity (demo_lists w (isr_scheduler t)) = 1" and "contents (demo_lists w (isr_scheduler t)) = []"
  shows "\<exists>l sy. task_start (frame t) t w =
      Some (set_frame t \<lparr>fr_i = 1, fr_at = At_Isr\<rparr> (set_list (isr_scheduler t) l (w\<lparr>demo_tasks := sy\<rparr>))) \<and>
    wf_list l \<and> capacity l = 1 \<and> contents l = [t] \<and> frames_fit frame ts (w\<lparr>demo_tasks := sy\<rparr>)"
proof -
  from call_coro_fits [OF assms(1)] obtain sy where
    sy: "\<And>body. call_coro (frame t) body w = body (w\<lparr>demo_tasks := sy\<rparr>)" "frames_fit frame ts (w\<lparr>demo_tasks := sy\<rparr>)" by blast
  with task_await_ok [of "w\<lparr>demo_tasks := sy\<rparr>" "isr_scheduler t" t At_Isr 1] assms(2-4) show ?thesis
    by (auto simp: task_start_def task_round_def)
qed

lemma start_tasks_ok:
  assumes "lists_new w" and "isr_resume_count w = (\<lambda>_. 0)" and "main_resume_count w = (\<lambda>_. 0)"
    and "frames_fit frame [3, 4, 5] w"
  shows "\<exists>w3 w4 w5. task_start (frame 3) 3 w = Some w3 \<and> task_start (frame 4) 4 w3 = Some w4 \<and>
    task_start (frame 5) 5 w4 = Some w5 \<and> demo_ok w5 \<and> irq_hart w5 = irq_hart w"
proof -
  have k: "isr_scheduler 3 = Isr" "isr_scheduler 4 = Mti" "isr_scheduler 5 = Mei"
    by (simp_all add: isr_scheduler_def)
  have new: "wf_list (demo_lists w k)" "capacity (demo_lists w k) = ctx_size k" "contents (demo_lists w k) = []" for k
    using assms(1) by (simp_all add: lists_new_def)
  obtain a s3 where a: "task_start (frame 3) 3 w =
      Some (set_frame 3 \<lparr>fr_i = 1, fr_at = At_Isr\<rparr> (set_list Isr a (w\<lparr>demo_tasks := s3\<rparr>)))"
    (is "_ = Some ?w3") "wf_list a" "capacity a = 1" "contents a = [3]" and
    fit3: "frames_fit frame [4, 5] (w\<lparr>demo_tasks := s3\<rparr>)"
    using task_start_ok [OF assms(4)] new by (auto simp: k ctx_size_def)
  have fit3': "frames_fit frame [4, 5] ?w3" using fit3 by (simp add: frames_fit_def)
  obtain b s4 where b: "task_start (frame 4) 4 ?w3 =
      Some (set_frame 4 \<lparr>fr_i = 1, fr_at = At_Isr\<rparr> (set_list Mti b (?w3\<lparr>demo_tasks := s4\<rparr>)))"
    (is "_ = Some ?w4") "wf_list b" "capacity b = 1" "contents b = [4]" and
    fit4: "frames_fit frame [5] (?w3\<lparr>demo_tasks := s4\<rparr>)"
    using task_start_ok [OF fit3'] new by (auto simp: k ctx_size_def)
  have fit4': "frames_fit frame [5] ?w4" using fit4 by (simp add: frames_fit_def)
  obtain c s5 where c: "task_start (frame 5) 5 ?w4 =
      Some (set_frame 5 \<lparr>fr_i = 1, fr_at = At_Isr\<rparr> (set_list Mei c (?w4\<lparr>demo_tasks := s5\<rparr>)))"
    (is "_ = Some ?w5") "wf_list c" "capacity c = 1" "contents c = [5]"
    using task_start_ok [OF fit4'] new by (auto simp: k ctx_size_def)
  have "wf_list (demo_lists ?w5 k) \<and> capacity (demo_lists ?w5 k) = (if k = Main then 3 else 1)" for k
    using a b c new by (cases k) (simp_all add: ctx_size_def)
  then have "demo_ok ?w5"
    using a b c new assms(2,3) by (simp add: demo_ok_def lists_ok_def in_place_def counts_ok_def tasks_def k)
  with a(1) b(1) c(1) show ?thesis by auto
qed

text \<open>A coroutine whose frame does not fit is on no scheduler, and the others go on without it.\<close>

lemma task_start_fails:
  assumes "heap_ok False (sys_heap (demo_tasks w))" and "size_ok False (frame t)" and "\<not> frames_fit frame [t] w"
  shows "task_start (frame t) t w = Some w"
  unfolding task_start_def by (rule call_coro_full) (use assms in \<open>simp_all add: frames_fit_def\<close>)

lemma irq_setup_ok:
  assumes steady: "steady_clock clk" and "\<And>k. length (raw k) = ctx_size k" and "hart_ok w"
    and "isr_resume_count w = (\<lambda>_. 0)" and "main_resume_count w = (\<lambda>_. 0)" and "frames_fit frame [3, 4, 5] w"
  shows "\<exists>w'. irq_setup clk raw frame entry T handler w = Some w' \<and> demo_ok w' \<and> hart_ok w'"
proof -
  from dev_okD [OF dev_csr [OF csr_step_bits(1)] assms(3)] obtain w1 where
    w1: "mstatus_mie_clr w = Some w1" "hart_ok w1" "same_tasks w w1" by blast
  from dev_okD [OF dev_stamp [OF steady] w1(2)] obtain w2 where
    w2: "stamp_irq clk w1 = Some w2" "hart_ok w2" "same_tasks w1 w2" by blast
  from dev_okD [OF dev_cmp [OF steady cast_zero [OF steady]] w2(2)] obtain w3 where
    w3: "timer_cmp clk period_nano 0 w2 = Some w3" "hart_ok w3" "same_tasks w2 w3" by blast
  have "isr_resume_count w3 = (\<lambda>_. 0)" "main_resume_count w3 = (\<lambda>_. 0)" "frames_fit frame [3, 4, 5] w3"
    using w1(3) w2(3) w3(3) assms(4-6) by (simp_all add: same_tasks_def frames_fit_def)
  with make_lists_ok [OF assms(2), of w3] obtain w4 where
    w4: "make_lists raw w3 = Some w4" "lists_new w4" "irq_hart w4 = irq_hart w3"
      "isr_resume_count w4 = (\<lambda>_. 0)" "main_resume_count w4 = (\<lambda>_. 0)" "frames_fit frame [3, 4, 5] w4"
    by (auto simp: frames_fit_def)
  from start_tasks_ok [OF w4(2,4-6)] obtain w5 w6 w7 where
    w7: "task_start (frame 3) 3 w4 = Some w5" "task_start (frame 4) 4 w5 = Some w6" "task_start (frame 5) 5 w6 = Some w7"
      "demo_ok w7" "irq_hart w7 = irq_hart w4" by blast
  then have h7: "hart_ok w7" using w4(3) w3(2) by (simp add: hart_ok_def)
  from dev_okD [OF dev_handler h7] obtain w8 where
    w8: "irq_handler_ctor entry T handler w7 = Some w8" "hart_ok w8" "same_tasks w7 w8" by blast
  from dev_okD [OF dev_csr [OF csr_step_bits(4)] w8(2)] obtain w9 where
    w9: "mie_mti_set w8 = Some w9" "hart_ok w9" "same_tasks w8 w9" by blast
  from dev_okD [OF dev_csr [OF csr_step_bits(2)] w9(2)] obtain w10 where
    w10: "mstatus_mie_set w9 = Some w10" "hart_ok w10" "same_tasks w9 w10" by blast
  have "demo_ok w10" using same_tasks_ok w7(4) w8(3) w9(3) w10(3) by blast
  moreover have "irq_setup clk raw frame entry T handler w = Some w10"
    using w1(1) w2(1) w3(1) w4(1) w7(1-3) w8(1) w9(1) w10(1) by (simp add: irq_setup_def)
  ultimately show ?thesis using w10(2) by blast
qed

section \<open>Reachable states\<close>

inductive irq_reachable :: "board_clock \<Rightarrow> irq_demo \<Rightarrow> bool" for clk where
  started: "(\<And>k. length (raw k) = ctx_size k) \<Longrightarrow> hart_ok w \<Longrightarrow> isr_resume_count w = (\<lambda>_. 0) \<Longrightarrow>
    main_resume_count w = (\<lambda>_. 0) \<Longrightarrow> frames_fit frame [3, 4, 5] w \<Longrightarrow>
    irq_setup clk raw frame entry T handler w = Some w' \<Longrightarrow> irq_reachable clk w'"
| interrupted: "irq_reachable clk w \<Longrightarrow> irq_isr_handler clk (trap_cause c w) = Some w' \<Longrightarrow> irq_reachable clk w'"
| looped: "irq_reachable clk w \<Longrightarrow> irq_main_round clk w = Some w' \<Longrightarrow> irq_reachable clk w'"

lemma trap_cause_ok:
  "demo_ok (trap_cause c w) = demo_ok w" "hart_ok w \<Longrightarrow> hart_ok (trap_cause c w)"
  "csr_file (irq_hart (trap_cause c w)) ''mcause'' = Some c"
  by (auto simp: trap_cause_def demo_ok_def lists_ok_def in_place_def counts_ok_def hart_ok_def cong: await_at.case_cong)

lemma irq_reachable_ok:
  assumes steady: "steady_clock clk" and "irq_reachable clk w"
  shows "demo_ok w \<and> hart_ok w"
  using assms(2)
proof (induction rule: irq_reachable.induct)
  case (started raw w frame entry T handler w')
  from irq_setup_ok [OF steady started(1-5), of entry T handler] started(6) show ?case by auto
next
  case (interrupted w c w')
  then show ?case
    using isr_handler_ok [OF steady, of "trap_cause c w" c] by (auto simp: trap_cause_ok)
next
  case (looped w w')
  then show ?case using main_round_ok [OF steady, of w] by auto
qed

section \<open>Properties\<close>

definition demo_world :: irq_demo where
  "demo_world = \<lparr>irq_hart = plain_hart [(''mstatus'', 0), (''mie'', 0), (''mcause'', 0), (''mscratch'', 0), (''mtvec'', 0)],
     execute_handler = None, demo_timer = \<lparr>bus_count = 0, mtimecmp = 0, cmp_writes = []\<rparr>,
     demo_tasks = \<lparr>sys_heap = task_heap_init, sys_flags = []\<rparr>, demo_lists = undefined, demo_frames = undefined, timestamp_irq = 0,
     isr_resume_count = (\<lambda>_. 0), main_resume_count = (\<lambda>_. 0)\<rparr>"

lemma in_place_once:
  "in_place w t \<Longrightarrow> (contents (demo_lists w (isr_scheduler t)) = [t]) \<noteq> (t \<in> set (contents (demo_lists w Main))) \<and>
     isr_resume_count w t - main_resume_count w t \<in> {0, 1}"
  by (cases "fr_at (demo_frames w t)") (simp_all add: in_place_def counts_ok_def)

lemma exists_reachable: "\<exists>w. irq_reachable still_clock w"
proof -
  let ?raw = "\<lambda>k. replicate (ctx_size k) \<lparr>node_next = None, node_prev = None, node_value = None\<rparr>"
  have h: "hart_ok demo_world" by (auto simp: hart_ok_def demo_world_def demo_csrs_def)
  have c: "isr_resume_count demo_world = (\<lambda>_. 0)" "main_resume_count demo_world = (\<lambda>_. 0)"
    by (simp_all add: demo_world_def)
  have f: "frames_fit (\<lambda>_. 96) [3, 4, 5] demo_world"
    by (simp add: frames_fit_def demo_world_def task_heap_init_def TASK_HEAP_SIZE_def)
  obtain w where "irq_setup still_clock ?raw (\<lambda>_. 96) 0x20010000 1 0x80000040 demo_world = Some w"
    using irq_setup_ok [OF steady_still _ h c f, of ?raw "0x20010000" 1 "0x80000040"] by auto
  from irq_reachable.started [OF _ h c f this] show ?thesis by auto
qed

text \<open>
  C31: in every state that example_irq reaches by rounds of its main loop and interrupts with
  any cause, in any order, with the handler running only between rounds, each of its three
  coroutines waits on exactly one scheduler (its interrupt's or the main loop's), its two
  counters are equal or differ by one, and both the interrupt handler and the next round of the
  main loop return without undefined behaviour.
\<close>

theorem irq_tasks_never_lost:
  assumes "steady_clock clk" and "irq_reachable clk w"
  shows "(\<forall>t \<in> {3, 4, 5}. (contents (demo_lists w (isr_scheduler t)) = [t]) \<noteq> (t \<in> set (contents (demo_lists w Main))) \<and>
      isr_resume_count w t - main_resume_count w t \<in> {0, 1}) \<and>
    distinct (contents (demo_lists w Main)) \<and>
    (\<forall>c. \<exists>w'. irq_isr_handler clk (trap_cause c w) = Some w') \<and> (\<exists>w'. irq_main_round clk w = Some w')"
proof -
  from irq_reachable_ok [OF assms] have ok: "demo_ok w" "hart_ok w" by auto
  have "in_place w t" if "t \<in> {3, 4, 5}" for t using ok(1) that by (auto simp: demo_ok_def tasks_def)
  with in_place_once have "\<forall>t \<in> {3, 4, 5}. (contents (demo_lists w (isr_scheduler t)) = [t]) \<noteq> (t \<in> set (contents (demo_lists w Main))) \<and>
      isr_resume_count w t - main_resume_count w t \<in> {0, 1}"
    by blast
  moreover have "distinct (contents (demo_lists w Main))" using ok(1) by (simp add: demo_ok_def lists_ok_def)
  moreover have "\<exists>w'. irq_isr_handler clk (trap_cause c w) = Some w'" for c
    using isr_handler_ok [OF assms(1), of "trap_cause c w" c] ok by (auto simp: trap_cause_ok)
  moreover have "\<exists>w'. irq_main_round clk w = Some w'"
    using main_round_ok [OF assms(1) ok] by blast
  ultimately show ?thesis by blast
qed

theorem irq_tasks_never_lost_witness:
  "\<exists>w. irq_reachable still_clock w \<and> (contents (demo_lists w Isr) = [3]) \<noteq> (3 \<in> set (contents (demo_lists w Main))) \<and>
    (\<exists>w'. irq_main_round still_clock w = Some w')"
proof -
  obtain w where w: "irq_reachable still_clock w" using exists_reachable by blast
  from irq_tasks_never_lost [OF steady_still w] w show ?thesis
    by (intro exI [of _ w]) (simp add: isr_scheduler_def)
qed

text \<open>
  C32: in every such state, a round of the main loop followed by a timer interrupt returns and
  resumes the coroutines t3 and t4 in the handler: afterwards both wait for the main loop, and
  their interrupt counters are one ahead of their main loop counters.
\<close>

theorem irq_timer_progress:
  assumes "steady_clock clk" and "irq_reachable clk w"
  shows "\<exists>w1 w2. irq_main_round clk w = Some w1 \<and>
    (\<forall>t \<in> {3, 4, 5}. isr_resume_count w1 t = main_resume_count w1 t) \<and>
    irq_isr_handler clk (trap_cause 0x80000007 w1) = Some w2 \<and>
    (\<forall>t \<in> {3, 4}. t \<in> set (contents (demo_lists w2 Main)) \<and>
       isr_resume_count w2 t = isr_resume_count w1 t + 1 \<and> main_resume_count w2 t = main_resume_count w1 t)"
proof -
  from irq_reachable_ok [OF assms] have ok: "demo_ok w" "hart_ok w" by auto
  from main_round_ok [OF assms(1) ok] obtain w1 where
    w1: "irq_main_round clk w = Some w1" "demo_ok w1" "hart_ok w1" "\<forall>t \<in> tasks. fr_at (demo_frames w1 t) = At_Isr"
    by blast
  have "(0x80000007 :: 32 word) AND BIT_MASK mcause_data_interrupt \<noteq> 0 \<and> (0x80000007 :: 32 word) AND 0xFF = interrupts_mti"
    by code_simp
  with isr_handler_ok [OF assms(1), of "trap_cause 0x80000007 w1" "0x80000007"] w1 obtain w2 where
    w2: "irq_isr_handler clk (trap_cause 0x80000007 w1) = Some w2" "demo_ok w2"
      "\<forall>u. fr_i (demo_frames w2 u) = fr_i (demo_frames w1 u)"
      "fr_at (demo_frames w2 3) = At_Main" "fr_at (demo_frames w2 4) = At_Main"
    by (auto simp: trap_cause_ok) (auto simp: trap_cause_def)
  have p: "in_place w1 t" "in_place w2 t" "fr_at (demo_frames w1 t) = At_Isr" if "t \<in> {3, 4, 5}" for t
    using w1(2,4) w2(2) that by (auto simp: demo_ok_def tasks_def)
  have "\<forall>t \<in> {3, 4, 5}. isr_resume_count w1 t = main_resume_count w1 t"
    using p(1,3) by (auto simp: in_place_def counts_ok_def)
  moreover have "t \<in> set (contents (demo_lists w2 Main)) \<and>
      isr_resume_count w2 t = isr_resume_count w1 t + 1 \<and> main_resume_count w2 t = main_resume_count w1 t"
    if "t \<in> {3, 4}" for t
    using p [of t] w2(3-5) that by (auto simp: in_place_def counts_ok_def)
  ultimately show ?thesis using w1(1) w2(1) by blast
qed

theorem irq_timer_progress_witness:
  "\<exists>w w1 w2. irq_reachable still_clock w \<and> irq_main_round still_clock w = Some w1 \<and>
    irq_isr_handler still_clock (trap_cause 0x80000007 w1) = Some w2 \<and> 4 \<in> set (contents (demo_lists w2 Main))"
proof -
  obtain w where w: "irq_reachable still_clock w" using exists_reachable by blast
  from irq_timer_progress [OF steady_still w] obtain w1 w2 where
    "irq_main_round still_clock w = Some w1" "irq_isr_handler still_clock (trap_cause 0x80000007 w1) = Some w2"
    "\<forall>t \<in> {3, 4}. t \<in> set (contents (demo_lists w2 Main)) \<and>
       isr_resume_count w2 t = isr_resume_count w1 t + 1 \<and> main_resume_count w2 t = main_resume_count w1 t" by blast
  with w show ?thesis by blast
qed

end
