(* ===== verification/Example_Delay.thy ===== *)
theory Example_Delay
  imports Scheduler_Order Awaitable Board
begin

text \<open>
  \<open>src/example_simple.cpp\<close> and \<open>src/example_timer.cpp\<close> on RV32: coroutines that wait for a
  delay ten times, and a main loop that resumes them and sleeps until the next wake-up. A
  coroutine is designated by its number (1 for \<open>t\<close> of the first program, 1 and 2 for \<open>t0\<close> and
  \<open>t1\<close> of the second), which is its handle; 0 is the null handle.
\<close>

section \<open>State\<close>

text \<open>
  The scheduler, the trace log, the variable \<open>i\<close> of each suspended coroutine (\<open>None\<close> when it is
  not suspended), and the global variables of the two programs; \<open>dd_timestamp\<close> is
  \<open>timestamp_simple\<close> in one and \<open>timestamp_timer\<close> in the other.
\<close>

record delay_demo = board +
  dd_sched :: "(nat, schedule_by_delay) task_list"
  dd_trace :: trace_log_manager
  dd_frame :: "nat \<Rightarrow> int option"
  dd_timestamp :: "64 word"
  dd_resume_count :: "nat \<Rightarrow> 32 word"
  timestamp_resume :: "64 word list"

section \<open>The coroutines\<close>

text \<open>What follows the \<open>co_await\<close> in a round of \<open>periodic\<close> and of \<open>resuming_on_delay\<close>.\<close>

definition periodic_body :: "board_clock \<Rightarrow> nat \<Rightarrow> int \<Rightarrow> delay_demo \<Rightarrow> delay_demo option" where
  "periodic_body clk t i w = do {
     (ts, w) \<leftarrow> ticks_now clk w;
     let k = unat (dd_resume_count w t);
     if k < length (timestamp_resume w) then
       Some (w\<lparr>timestamp_resume := (timestamp_resume w)[k := ts],
         dd_resume_count := (dd_resume_count w)(t := word_of_int (i + 1))\<rparr>)
     else None
   }"

definition resuming_body :: "nat \<Rightarrow> int \<Rightarrow> delay_demo \<Rightarrow> delay_demo option" where
  "resuming_body t i w = Some (w\<lparr>dd_resume_count := (dd_resume_count w)(t := word_of_int (i + 1))\<rparr>)"

text \<open>
  \<open>co_await scheduled_delay{scheduler, period}\<close> when the period is not zero: \<open>make_condition\<close>
  reads the clock, and so does the default member initialisation of the entry that \<open>emplace\<close>
  constructs when there is a free node.
\<close>

definition entry_default :: "board_clock \<Rightarrow> delay_demo \<Rightarrow> ((nat, schedule_by_delay) schedule_entry \<times> delay_demo) option" where
  "entry_default clk w =
     (if sl_free (dd_sched w) = None then Some (\<lparr>entry_handle = 0, entry_condition = \<lparr>expires = 0\<rparr>\<rparr>, w)
      else do { (t, w) \<leftarrow> clock_now clk w;
                Some (\<lparr>entry_handle = 0, entry_condition = schedule_by_delay_now t\<rparr>, w) })"

definition delay_suspend :: "board_clock \<Rightarrow> int \<Rightarrow> nat \<Rightarrow> int \<Rightarrow> delay_demo \<Rightarrow> delay_demo option" where
  "delay_suspend clk p t i w = do {
     (now, w) \<leftarrow> clock_now clk w;
     (dflt, w) \<leftarrow> entry_default clk w;
     (suspended, s) \<leftarrow> await_delay period_nano now dflt \<lparr>sd_delay = p\<rparr> t (dd_sched w);
     Some (w\<lparr>dd_sched := s, dd_frame := (dd_frame w)(t := Some i)\<rparr>)
   }"

text \<open>
  The \<open>for\<close> loop from round \<open>i\<close> on, until the coroutine is suspended or ends. What \<open>nop_task\<close> does
  at the end changes nothing on the board (\<open>board_coro_finish\<close>).
\<close>

function delay_loop :: "(nat \<Rightarrow> int \<Rightarrow> delay_demo \<Rightarrow> delay_demo option) \<Rightarrow> board_clock \<Rightarrow> int \<Rightarrow> nat \<Rightarrow> int
    \<Rightarrow> delay_demo \<Rightarrow> delay_demo option" where
  "delay_loop body clk p t i w =
     (if i < 10 then
        (if timer_await_ready (co_await_scheduled_delay \<lparr>sd_delay = p\<rparr>)
         then Option.bind (body t i w) (delay_loop body clk p t (i + 1))
         else delay_suspend clk p t i w)
      else Some (w\<lparr>dd_frame := (dd_frame w)(t := None)\<rparr>))"
  by pat_completeness auto

termination delay_loop
  by (relation "measure (\<lambda>(body, clk, p, t, i, w). nat (10 - i))") auto

text \<open>The call of the coroutine \<open>t\<close>, whose frame has \<open>sz\<close> bytes.\<close>

definition delay_start :: "32 word \<Rightarrow> (nat \<Rightarrow> int \<Rightarrow> delay_demo \<Rightarrow> delay_demo option) \<Rightarrow> board_clock \<Rightarrow> int \<Rightarrow> nat
    \<Rightarrow> delay_demo \<Rightarrow> delay_demo option" where
  "delay_start sz body clk p t w = call_coro sz (delay_loop body clk p t 0) w"

definition delay_resume :: "(nat \<Rightarrow> int \<Rightarrow> delay_demo \<Rightarrow> delay_demo option) \<Rightarrow> board_clock \<Rightarrow> (nat \<Rightarrow> int) \<Rightarrow> nat
    \<Rightarrow> delay_demo \<Rightarrow> delay_demo option" where
  "delay_resume body clk period t w = do {
     i \<leftarrow> dd_frame w t;
     w \<leftarrow> body t i (w\<lparr>dd_frame := (dd_frame w)(t := None)\<rparr>);
     delay_loop body clk (period t) t (i + 1) w
   }"

text \<open>\<open>scheduler.resume(rc)\<close>: its result and the state after it.\<close>

definition resume_in :: "(nat \<Rightarrow> int \<Rightarrow> delay_demo \<Rightarrow> delay_demo option) \<Rightarrow> board_clock \<Rightarrow> (nat \<Rightarrow> int) \<Rightarrow> nat
    \<Rightarrow> (nat, schedule_by_delay, delay_demo) sched_world \<Rightarrow> (nat, schedule_by_delay, delay_demo) sched_world option" where
  "resume_in body clk period t x = (case x of (s, tr, w) \<Rightarrow> do {
     w \<leftarrow> delay_resume body clk period t (w\<lparr>dd_sched := s, dd_trace := tr\<rparr>);
     Some (dd_sched w, dd_trace w, w)
   })"

definition sched_resume :: "(nat \<Rightarrow> int \<Rightarrow> delay_demo \<Rightarrow> delay_demo option) \<Rightarrow> board_clock \<Rightarrow> (nat \<Rightarrow> int)
    \<Rightarrow> schedule_by_delay \<Rightarrow> delay_demo \<Rightarrow> ((bool \<times> schedule_by_delay option) \<times> delay_demo) option" where
  "sched_resume body clk period rc w = do {
     (r, s, tr, w) \<leftarrow> scheduler_resume (resume_in body clk period) ready_by_delay rc (dd_sched w, dd_trace w, w);
     Some (r, w\<lparr>dd_sched := s, dd_trace := tr\<rparr>)
   }"

section \<open>Interrupt handler and main loops\<close>

definition stamp_demo :: "board_clock \<Rightarrow> delay_demo \<Rightarrow> delay_demo option" where
  "stamp_demo clk w = do { (ts, w) \<leftarrow> ticks_now clk w; Some (w\<lparr>dd_timestamp := ts\<rparr>) }"

text \<open>Both programs have the same handler.\<close>

definition delay_isr_handler :: "board_clock \<Rightarrow> delay_demo \<Rightarrow> delay_demo option" where
  "delay_isr_handler clk w = do {
     (this_cause, h) \<leftarrow> reg_read mcause_ops (irq_hart w);
     let w = w\<lparr>irq_hart := h\<rparr>;
     if this_cause AND BIT_MASK mcause_data_interrupt \<noteq> 0 then
       (let this_cause = this_cause AND 0xFF
        in if this_cause = interrupts_mti then do {
             w \<leftarrow> stamp_demo clk w;
             mie_mti_clr w
           } else Some w)
     else Some w
   }"

text \<open>\<open>next_wake->delay()\<close>, undefined when \<open>next_wake\<close> is empty.\<close>

definition next_wake_delay_of :: "board_clock \<Rightarrow> schedule_by_delay option \<Rightarrow> delay_demo \<Rightarrow> (int \<times> delay_demo) option" where
  "next_wake_delay_of clk next_wake w = do {
     c \<leftarrow> next_wake;
     (t_now, w) \<leftarrow> clock_now clk w;
     d \<leftarrow> remaining_delay c t_now;
     Some (d, w)
   }"

definition sleep_for :: "board_clock \<Rightarrow> schedule_by_delay option \<Rightarrow> delay_demo \<Rightarrow> delay_demo option" where
  "sleep_for clk next_wake w = do {
     (d, w) \<leftarrow> next_wake_delay_of clk next_wake w;
     w \<leftarrow> timer_cmp clk period_nano d w;
     sleep_until_interrupt w
   }"

definition simple_period :: "nat \<Rightarrow> int" where
  "simple_period t = 1000"

definition simple_round :: "board_clock \<Rightarrow> delay_demo \<Rightarrow> delay_demo option" where
  "simple_round clk w = do {
     (t, w) \<leftarrow> clock_now clk w;
     let now = schedule_by_delay_now t;
     w \<leftarrow> stamp_demo clk w;
     ((pending, next_wake), w) \<leftarrow> sched_resume (periodic_body clk) clk simple_period now w;
     if pending then sleep_for clk next_wake w else Some w
   }"

definition timer_period :: "nat \<Rightarrow> int" where
  "timer_period t = (if t = 1 then 10000000 else 20000000)"

definition timer_round :: "board_clock \<Rightarrow> delay_demo \<Rightarrow> delay_demo option" where
  "timer_round clk w = do {
     (t, w) \<leftarrow> clock_now clk w;
     let now = schedule_by_delay_now t;
     (ts, w) \<leftarrow> ticks_now clk w;
     let w = w\<lparr>dd_trace := TRACE_TIMESTAMP (ucast ts) (dd_trace w)\<rparr>;
     ((pending, next_wake), w) \<leftarrow> sched_resume resuming_body clk timer_period now w;
     let w = w\<lparr>dd_trace := TRACE_VALUE_pending pending (dd_trace w)\<rparr>;
     (d, w) \<leftarrow> next_wake_delay_of clk next_wake w;
     let w = w\<lparr>dd_trace := TRACE_VALUE_delay (word_of_int d) (dd_trace w)\<rparr>;
     if pending then sleep_for clk next_wake w else Some w
   }"

section \<open>Setup\<close>

text \<open>
  The programs up to their main loops. \<open>raw\<close> is the storage of the scheduler's list, \<open>frame t\<close> the
  size of the frame of \<open>t\<close>, \<open>entry\<close> the address of the trap entry, \<open>T\<close> and \<open>handler\<close> the type and
  address of the lambda object.
\<close>

definition delay_setup :: "board_clock \<Rightarrow> (nat, schedule_by_delay) schedule_entry static_list_node list
    \<Rightarrow> delay_demo \<Rightarrow> delay_demo option" where
  "delay_setup clk raw w = do {
     s \<leftarrow> static_list_ctor raw;
     let w = w\<lparr>dd_sched := s\<rparr>;
     w \<leftarrow> mstatus_mie_clr w;
     w \<leftarrow> stamp_demo clk w;
     timer_cmp clk period_nano 0 w
   }"

definition simple_setup :: "board_clock \<Rightarrow> (nat, schedule_by_delay) schedule_entry static_list_node list
    \<Rightarrow> (nat \<Rightarrow> 32 word) \<Rightarrow> 32 word \<Rightarrow> nat \<Rightarrow> 32 word \<Rightarrow> delay_demo \<Rightarrow> delay_demo option" where
  "simple_setup clk raw frame entry T handler w = do {
     w \<leftarrow> delay_setup clk raw w;
     w \<leftarrow> delay_start (frame 1) (periodic_body clk) clk (simple_period 1) 1 w;
     irq_handler_ctor entry T handler w
   }"

definition timer_setup :: "board_clock \<Rightarrow> (nat, schedule_by_delay) schedule_entry static_list_node list
    \<Rightarrow> (nat \<Rightarrow> 32 word) \<Rightarrow> 32 word \<Rightarrow> nat \<Rightarrow> 32 word \<Rightarrow> delay_demo \<Rightarrow> delay_demo option" where
  "timer_setup clk raw frame entry T handler w = do {
     w \<leftarrow> delay_setup clk raw w;
     w \<leftarrow> delay_start (frame 1) resuming_body clk (timer_period 1) 1 w;
     w \<leftarrow> delay_start (frame 2) resuming_body clk (timer_period 2) 2 w;
     w \<leftarrow> irq_handler_ctor entry T handler w;
     w \<leftarrow> mie_mti_set w;
     mstatus_mie_set w
   }"

end
