(* ===== verification/Example_Delay_Correct.thy ===== *)
theory Example_Delay_Correct
  imports Example_Delay
begin

text \<open>
  What the two delay examples do while \<open>mtime\<close> is below \<open>2 ^ 31\<close> ticks: a coroutine is resumed
  ten times and then ends, the main loops sleep until the expiry that \<open>resume\<close> reports, and
  where they use an empty \<open>std::optional\<close>.
\<close>

section \<open>Time\<close>

text \<open>
  The value of \<open>mtimer_clock\<close> when \<open>mtime\<close> is \<open>c\<close> and at an access, and the ticks in a number of
  nanoseconds.
\<close>

definition ns :: "board_clock \<Rightarrow> 64 word \<Rightarrow> int" where
  "ns clk c = uint c * 10 ^ 9 div clk_freq clk"

definition ns_at :: "board_clock \<Rightarrow> nat \<Rightarrow> int" where
  "ns_at clk k = ns clk (clk_mtime clk k)"

definition ns_ticks :: "board_clock \<Rightarrow> int \<Rightarrow> int" where
  "ns_ticks clk d = d * clk_freq clk div 10 ^ 9"

text \<open>The length of a tick, rounded up.\<close>

definition tick_ns :: "board_clock \<Rightarrow> int" where
  "tick_ns clk = (10 ^ 9 + clk_freq clk - 1) div clk_freq clk"

definition small_time :: "board_clock \<Rightarrow> bool" where
  "small_time clk \<longleftrightarrow> freq_ok (clk_freq clk) \<and> mtime_small (clk_mtime clk)"

lemma small_timeD:
  "small_time clk \<Longrightarrow> mtime_small (clk_mtime clk)" "small_time clk \<Longrightarrow> 0 < clk_freq clk"
  "small_time clk \<Longrightarrow> clk_freq clk \<le> 50000000" "small_time clk \<Longrightarrow> uint (clk_mtime clk k) < 2 ^ 31"
  by (simp_all add: small_time_def freq_ok_def mtime_small_def)

lemma small_time_steady: "small_time clk \<Longrightarrow> steady_clock clk"
  by (simp add: small_time_def steady_clock_def mtime_small_steady)

lemma ns_at_nanos: "small_time clk \<Longrightarrow> tick_nanos (clk_freq clk) (to_int32 (uint (clk_mtime clk k))) = ns_at clk k"
  by (simp add: ticks_small [OF small_timeD(1)] tick_nanos_nonneg small_timeD ns_at_def ns_def)

lemma ns_bounds:
  assumes "small_time clk"
  shows "0 \<le> ns_at clk k" "ns_at clk k < 2 ^ 62"
proof -
  have "\<bar>to_int32 (uint (clk_mtime clk k))\<bar> \<le> 2 ^ 32"
    using to_int32_bounds [of "uint (clk_mtime clk k)"] by (simp add: abs_le_iff)
  from tick_nanos_bound [OF small_timeD(2) [OF assms] this] show "ns_at clk k < 2 ^ 62"
    by (simp add: ns_at_nanos [OF assms] abs_less_iff)
  show "0 \<le> ns_at clk k" using small_timeD(2) [OF assms] by (simp add: ns_at_def ns_def pos_imp_zdiv_nonneg_iff)
qed

lemma clock_now_ns:
  assumes "small_time clk"
  shows "\<exists>k n. clock_now clk w = Some (ns_at clk k, w\<lparr>demo_timer := (demo_timer w)\<lparr>bus_count := n\<rparr>\<rparr>) \<and>
    bus_count (demo_timer w) \<le> k \<and> k < n \<and> n \<le> bus_count (demo_timer w) + 6"
  using clock_now_step [OF small_time_steady [OF assms], of w] by (simp add: ns_at_nanos [OF assms])

lemma ns_mono: "small_time clk \<Longrightarrow> i \<le> j \<Longrightarrow> ns_at clk i \<le> ns_at clk j"
  using mtime_small_mono [OF small_timeD(1), of clk i j]
  by (simp add: ns_at_def ns_def word_le_def zdiv_mono1 small_timeD(2))

lemma ns_ticks_bounds:
  assumes "small_time clk" and "0 \<le> d" and "d < 2 ^ 35"
  shows "0 \<le> ns_ticks clk d" "ns_ticks clk d < 2 ^ 31"
proof -
  note f = small_timeD(2,3) [OF assms(1)]
  show "0 \<le> ns_ticks clk d" using assms(2) f by (simp add: ns_ticks_def pos_imp_zdiv_nonneg_iff)
  have "d * clk_freq clk \<le> 2 ^ 35 * 50000000" using assms f by (intro mult_mono) simp_all
  then have "ns_ticks clk d \<le> 2 ^ 35 * 50000000 div 10 ^ 9" unfolding ns_ticks_def by (rule zdiv_mono1) simp
  then show "ns_ticks clk d < 2 ^ 31" by simp
qed

lemma cast_nano_ticks:
  assumes "small_time clk" and "0 \<le> d" and "d < 2 ^ 35"
  shows "duration_cast to_int32 period_nano (timer_ticks (clk_freq clk)) d = Some (ns_ticks clk d)"
proof -
  have "to_int32 (ns_ticks clk d) = ns_ticks clk d"
    using ns_ticks_bounds [OF assms] by (intro to_int32_small) simp_all
  then show ?thesis
    using cast_to_ticks [OF small_timeD(2,3) [OF assms(1)], of "10 ^ 9" d] assms(2,3)
    by (simp add: period_nano_unit ns_ticks_def)
qed

section \<open>Suspension\<close>

text \<open>The devices after some bus accesses.\<close>

definition later :: "delay_demo \<Rightarrow> nat \<Rightarrow> delay_demo" where
  "later w n = w\<lparr>demo_timer := (demo_timer w)\<lparr>bus_count := n\<rparr>\<rparr>"

lemma later_simps [simp]:
  "dd_sched (later w n) = dd_sched w" "dd_trace (later w n) = dd_trace w" "dd_frame (later w n) = dd_frame w"
  "dd_timestamp (later w n) = dd_timestamp w" "dd_resume_count (later w n) = dd_resume_count w"
  "timestamp_resume (later w n) = timestamp_resume w" "irq_hart (later w n) = irq_hart w"
  "bus_count (demo_timer (later w n)) = n" "mtimecmp (demo_timer (later w n)) = mtimecmp (demo_timer w)"
  "demo_tasks (later w n) = demo_tasks w" "later (later w m) n = later w n" "hart_ok (later w n) = hart_ok w"
  by (simp_all add: later_def hart_ok_def)

lemma clock_now_later:
  assumes "small_time clk"
  shows "\<exists>k n. clock_now clk w = Some (ns_at clk k, later w n) \<and> bus_count (demo_timer w) \<le> k \<and> k < n \<and>
    n \<le> bus_count (demo_timer w) + 6"
  using clock_now_ns [OF assms, of w] by (simp add: later_def)

lemma ticks_now_later:
  assumes "small_time clk"
  shows "\<exists>t n. ticks_now clk w = Some (t, later w n) \<and> bus_count (demo_timer w) < n"
  using ticks_now_step [OF small_time_steady [OF assms], of w] by (simp add: later_def)

lemma entry_default_later:
  assumes "small_time clk"
  shows "\<exists>dflt n. entry_default clk w = Some (dflt, later w n) \<and> bus_count (demo_timer w) \<le> n"
proof (cases "sl_free (dd_sched w)")
  case None
  have "later w (bus_count (demo_timer w)) = w" by (simp add: later_def)
  with None show ?thesis
    by (intro exI [of _ "\<lparr>entry_handle = 0, entry_condition = \<lparr>expires = 0\<rparr>\<rparr>"] exI [of _ "bus_count (demo_timer w)"])
      (simp add: entry_default_def)
next
  case (Some f)
  from clock_now_later [OF assms, of w] obtain k n where
    "clock_now clk w = Some (ns_at clk k, later w n)" "bus_count (demo_timer w) \<le> k" "k < n" by blast
  with Some show ?thesis
    by (intro exI [of _ "\<lparr>entry_handle = 0, entry_condition = schedule_by_delay_now (ns_at clk k)\<rparr>"] exI [of _ n])
      (simp add: entry_default_def)
qed

lemma delay_suspend_ok:
  assumes small: "small_time clk" and "wf_list (dd_sched w)" and "length (contents (dd_sched w)) < capacity (dd_sched w)"
    and "p \<noteq> 0" and "\<bar>p\<bar> < 2 ^ 52"
  shows "\<exists>k n s. delay_suspend clk p t i w = Some ((later w n)\<lparr>dd_sched := s, dd_frame := (dd_frame w)(t := Some i)\<rparr>) \<and>
    wf_list s \<and> capacity s = capacity (dd_sched w) \<and>
    contents s = insert_spec ready_by_delay t \<lparr>expires = ns_at clk k + p * 1000\<rparr> (contents (dd_sched w)) \<and>
    bus_count (demo_timer w) \<le> k \<and> k < n"
proof -
  from clock_now_later [OF small, of w] obtain k n1 where
    c: "clock_now clk w = Some (ns_at clk k, later w n1)" "bus_count (demo_timer w) \<le> k" "k < n1" by blast
  from entry_default_later [OF small, of "later w n1"] obtain dflt n where
    d: "entry_default clk (later w n1) = Some (dflt, later w n)" "n1 \<le> n" by auto
  have "\<bar>ns_at clk k\<bar> < 2 ^ 62" using ns_bounds [OF small, of k] by simp
  from await_delay_contents [OF assms(2,4,5) this, of dflt t] assms(3) obtain s where
    "await_delay period_nano (ns_at clk k) dflt \<lparr>sd_delay = p\<rparr> t (dd_sched w) = Some (True, s)" "wf_list s"
    "capacity s = capacity (dd_sched w)"
    "contents s = insert_spec ready_by_delay t \<lparr>expires = ns_at clk k + p * 1000\<rparr> (contents (dd_sched w))"
    by (auto simp: add_spec_def)
  with c d show ?thesis
    by (intro exI [of _ k] exI [of _ n] exI [of _ s]) (simp add: delay_suspend_def)
qed

section \<open>The coroutine of \<open>example_simple\<close>\<close>

text \<open>
  \<open>simple_ok clk n w\<close>: the coroutine has been resumed \<open>n\<close> times. Until the tenth time it is the
  only one that waits, for 1 ms after some earlier instant; then it has ended.
\<close>

definition simple_ok :: "board_clock \<Rightarrow> nat \<Rightarrow> delay_demo \<Rightarrow> bool" where
  "simple_ok clk n w \<longleftrightarrow> hart_ok w \<and> wf_list (dd_sched w) \<and> capacity (dd_sched w) = 10 \<and>
     length (timestamp_resume w) = 10 \<and> n \<le> 10 \<and> dd_resume_count w 1 = of_nat n \<and>
     (if n < 10
      then dd_frame w 1 = Some (int n) \<and> (\<exists>k < bus_count (demo_timer w).
        contents (dd_sched w) = [new_entry 1 \<lparr>expires = ns_at clk k + 1000000\<rparr>])
      else dd_frame w 1 = None \<and> contents (dd_sched w) = [])"

lemma delay_loop_waits:
  "p \<noteq> 0 \<Longrightarrow> i < 10 \<Longrightarrow> delay_loop body clk p t i w = delay_suspend clk p t i w"
  by (simp add: timer_await_ready_def co_await_scheduled_delay_def)

lemma delay_loop_ends: "delay_loop body clk p t 10 w = Some (w\<lparr>dd_frame := (dd_frame w)(t := None)\<rparr>)"
  by simp

declare delay_loop.simps [simp del]

text \<open>The rest of the loop after \<open>n\<close> rounds, with nothing waiting, leads to \<open>simple_ok\<close>.\<close>

lemma simple_loop_ok:
  assumes small: "small_time clk" and "hart_ok w" and "wf_list (dd_sched w)" and "capacity (dd_sched w) = 10"
    and "contents (dd_sched w) = []" and "length (timestamp_resume w) = 10" and "n \<le> 10"
    and "dd_resume_count w 1 = of_nat n"
  shows "\<exists>w'. delay_loop body clk (simple_period 1) 1 (int n) w = Some w' \<and> simple_ok clk n w'"
proof (cases "n < 10")
  case True
  from delay_suspend_ok [OF small assms(3), of 1000 1 "int n"] assms(4,5) obtain k m s where
    "delay_suspend clk 1000 1 (int n) w = Some ((later w m)\<lparr>dd_sched := s, dd_frame := (dd_frame w)(1 := Some (int n))\<rparr>)"
    "wf_list s" "capacity s = 10" "contents s = [new_entry 1 \<lparr>expires = ns_at clk k + 1000000\<rparr>]" "k < m"
    by (auto simp: insert_spec_def)
  moreover from this assms True have "simple_ok clk n ((later w m)\<lparr>dd_sched := s, dd_frame := (dd_frame w)(1 := Some (int n))\<rparr>)"
    by (auto simp: simple_ok_def hart_ok_def)
  ultimately show ?thesis using True by (simp add: delay_loop_waits simple_period_def)
next
  case False
  with assms(7) have "n = 10" by simp
  with assms have "simple_ok clk n (w\<lparr>dd_frame := (dd_frame w)(1 := None)\<rparr>)"
    by (simp add: simple_ok_def hart_ok_def)
  with \<open>n = 10\<close> show ?thesis using delay_loop_ends [of body clk "simple_period 1" 1 w] by simp
qed

lemma periodic_body_ok:
  assumes "small_time clk" and "dd_resume_count w 1 = of_nat n" and "n < 10" and "length (timestamp_resume w) = 10"
  shows "\<exists>ts m. periodic_body clk 1 (int n) w = Some ((later w m)\<lparr>timestamp_resume := (timestamp_resume w)[n := ts],
    dd_resume_count := (dd_resume_count w)(1 := of_nat (Suc n))\<rparr>) \<and> bus_count (demo_timer w) < m"
proof -
  from ticks_now_later [OF assms(1), of w] obtain ts m where
    "ticks_now clk w = Some (ts, later w m)" "bus_count (demo_timer w) < m" by blast
  moreover have "unat (of_nat n :: 32 word) = n" using assms(3) by (simp add: unat_of_nat)
  moreover have "word_of_int (int n + 1) = (of_nat (Suc n) :: 32 word)" by simp
  ultimately show ?thesis using assms by (auto simp: periodic_body_def simp del: of_nat_Suc)
qed

lemma simple_resume_wakes:
  assumes small: "small_time clk" and ok: "simple_ok clk n w" and "n < 10"
    and late: "\<forall>en \<in> set (contents (dd_sched w)). expires (entry_condition en) < expires rc"
  shows "\<exists>w'. sched_resume (periodic_body clk) clk simple_period rc w = Some ((True, None), w') \<and> simple_ok clk (Suc n) w'"
proof -
  from ok \<open>n < 10\<close> obtain k where w: "hart_ok w" "wf_list (dd_sched w)" "capacity (dd_sched w) = 10"
    "length (timestamp_resume w) = 10" "dd_resume_count w 1 = of_nat n" "dd_frame w 1 = Some (int n)"
    and c: "contents (dd_sched w) = [new_entry 1 \<lparr>expires = ns_at clk k + 1000000\<rparr>]"
    by (auto simp: simple_ok_def)
  have io: "in_order ready_by_delay (contents (dd_sched w))" using c by (simp add: in_order_def)
  have er: "entry_ready ready_by_delay (new_entry 1 \<lparr>expires = ns_at clk k + 1000000\<rparr>) rc"
    using late c by (simp add: entry_ready_def ready_by_delay_def)
  obtain l tr where l: "wf_list l" "capacity l = 10" "contents l = []" and
    r: "scheduler_resume (resume_in (periodic_body clk) clk simple_period) ready_by_delay rc (dd_sched w, dd_trace w, w) =
      do { x \<leftarrow> resume_in (periodic_body clk) clk simple_period 1 (l, tr, w); Some ((True, None), x) }"
    using by_delay.resume_first [OF w(2) io c er, of "dd_trace w" "resume_in (periodic_body clk) clk simple_period" w] w(3)
    by auto
  let ?w = "w\<lparr>dd_sched := l, dd_trace := tr, dd_frame := (dd_frame w)(1 := None)\<rparr>"
  obtain ts m where b: "periodic_body clk 1 (int n) ?w = Some ((later ?w m)\<lparr>timestamp_resume := (timestamp_resume w)[n := ts],
      dd_resume_count := (dd_resume_count w)(1 := of_nat (Suc n))\<rparr>)" (is "_ = Some ?v")
    using periodic_body_ok [OF small, of ?w n] w \<open>n < 10\<close> by auto
  have "hart_ok ?v" using w(1) by (simp add: hart_ok_def later_def)
  with simple_loop_ok [OF small, of ?v "Suc n" "periodic_body clk"] l w \<open>n < 10\<close> obtain w' where
    w': "delay_loop (periodic_body clk) clk (simple_period 1) 1 (int (Suc n)) ?v = Some w'" "simple_ok clk (Suc n) w'"
    by auto
  have "delay_resume (periodic_body clk) clk simple_period 1 (w\<lparr>dd_sched := l, dd_trace := tr\<rparr>) = Some w'"
    using b w(6) w'(1) by (simp add: delay_resume_def add.commute)
  then have "sched_resume (periodic_body clk) clk simple_period rc w =
      Some ((True, None), w'\<lparr>dd_sched := dd_sched w', dd_trace := dd_trace w'\<rparr>)"
    using r by (simp add: sched_resume_def resume_in_def)
  with w'(2) show ?thesis by simp
qed

section \<open>What the devices do to the state of the program\<close>

text \<open>The coroutines and their scheduler are as before, and time has passed.\<close>

definition same_program :: "delay_demo \<Rightarrow> delay_demo \<Rightarrow> bool" where
  "same_program w w' \<longleftrightarrow> dd_sched w' = dd_sched w \<and> dd_frame w' = dd_frame w \<and>
     dd_resume_count w' = dd_resume_count w \<and> timestamp_resume w' = timestamp_resume w \<and>
     demo_tasks w' = demo_tasks w \<and> bus_count (demo_timer w) \<le> bus_count (demo_timer w') \<and> (hart_ok w \<longrightarrow> hart_ok w')"

lemma same_program_trans [trans]: "same_program a b \<Longrightarrow> same_program b c \<Longrightarrow> same_program a c"
  by (auto simp: same_program_def)

lemma same_program_ok:
  assumes "same_program w w'" and "simple_ok clk n w"
  shows "simple_ok clk n w'"
proof -
  have e: "dd_sched w' = dd_sched w" "dd_frame w' = dd_frame w" "dd_resume_count w' = dd_resume_count w"
    "timestamp_resume w' = timestamp_resume w" "bus_count (demo_timer w) \<le> bus_count (demo_timer w')"
    "hart_ok w \<Longrightarrow> hart_ok w'" using assms(1) by (simp_all add: same_program_def)
  have "(\<exists>k < bus_count (demo_timer w). P k) \<Longrightarrow> \<exists>k < bus_count (demo_timer w'). P k" for P :: "nat \<Rightarrow> bool"
    using e(5) less_le_trans by blast
  with assms(2) e(6) show ?thesis unfolding simple_ok_def e(1-4) by (cases "n < 10") simp_all
qed

lemma same_program_simps [simp]:
  "same_program w (later w n) \<longleftrightarrow> bus_count (demo_timer w) \<le> n"
  "same_program w ((later w n)\<lparr>dd_timestamp := t\<rparr>) \<longleftrightarrow> bus_count (demo_timer w) \<le> n"
  "same_program w (w\<lparr>dd_trace := tr\<rparr>)"
  "hart_ok (w\<lparr>irq_hart := h\<rparr>) \<Longrightarrow> same_program w (w\<lparr>irq_hart := h\<rparr>)"
  "bus_count (demo_timer w) \<le> bus_count m \<Longrightarrow> same_program w (w\<lparr>demo_timer := m\<rparr>)"
  by (auto simp: same_program_def hart_ok_def)

lemma csr_step_same:
  assumes "csr_step f" and "hart_ok w"
  shows "\<exists>w'. f w = Some w' \<and> hart_ok w' \<and> same_program w w' \<and> demo_timer w' = demo_timer w"
proof -
  from csr_stepD [OF assms] obtain h where h: "f w = Some (w\<lparr>irq_hart := h\<rparr>)" "hart_ok (w\<lparr>irq_hart := h\<rparr>)" by blast
  then show ?thesis by (intro exI [of _ "w\<lparr>irq_hart := h\<rparr>"]) simp
qed

lemma stamp_demo_same:
  assumes "small_time clk" and "hart_ok w"
  shows "\<exists>w'. stamp_demo clk w = Some w' \<and> hart_ok w' \<and> same_program w w'"
proof -
  from ticks_now_later [OF assms(1), of w] obtain t n where
    "ticks_now clk w = Some (t, later w n)" "bus_count (demo_timer w) < n" by blast
  with assms(2) show ?thesis
    by (intro exI [of _ "(later w n)\<lparr>dd_timestamp := t\<rparr>"]) (simp add: stamp_demo_def hart_ok_def)
qed

lemma delay_isr_same:
  assumes small: "small_time clk" and "hart_ok w" and cause: "csr_file (irq_hart w) ''mcause'' = Some c"
  shows "\<exists>w'. delay_isr_handler clk w = Some w' \<and> hart_ok w' \<and> same_program w w'"
proof -
  from stamp_demo_same [OF small assms(2)] obtain w1 where
    w1: "stamp_demo clk w = Some w1" "hart_ok w1" "same_program w w1" by blast
  from csr_step_same [OF csr_step_bits(3) w1(2)] obtain w2 where
    w2: "mie_mti_clr w1 = Some w2" "hart_ok w2" "same_program w1 w2" by blast
  have "same_program w w" by (simp add: same_program_def)
  moreover have "same_program w w2" using w1(3) w2(3) by (rule same_program_trans)
  ultimately show ?thesis
    using w1(1) w2(1,2) assms(2)
    by (cases "c AND BIT_MASK mcause_data_interrupt = 0"; cases "c AND 0xFF = interrupts_mti")
      (simp_all add: delay_isr_handler_def mcause_read [OF cause] Let_def)
qed

text \<open>Sleeping until the expiry that \<open>resume\<close> has reported.\<close>

lemma sleep_for_same:
  assumes small: "small_time clk" and "hart_ok w" and e: "e - ns_at clk (bus_count (demo_timer w)) < 2 ^ 35"
  shows "\<exists>w' k1 k2. sleep_for clk (Some \<lparr>expires = e\<rparr>) w = Some w' \<and> hart_ok w' \<and> same_program w w' \<and>
    bus_count (demo_timer w) \<le> k1 \<and> k1 < k2 \<and> k2 < bus_count (demo_timer w') \<and>
    mtimecmp (demo_timer w') = clk_mtime clk k2 + word_of_int (ns_ticks clk (max 0 (e - ns_at clk k1)))"
proof -
  let ?b = "bus_count (demo_timer w)"
  from clock_now_later [OF small, of w] obtain k1 n where
    c: "clock_now clk w = Some (ns_at clk k1, later w n)" "?b \<le> k1" "k1 < n" by blast
  let ?d = "max 0 (e - ns_at clk k1)"
  have "ns_at clk ?b \<le> ns_at clk k1" using c(2) by (rule ns_mono [OF small])
  then have d: "0 \<le> ?d" "?d < 2 ^ 35" using e by auto
  then have "remaining_delay \<lparr>expires = e\<rparr> (ns_at clk k1) = Some ?d" by (auto simp: remaining_delay_def i64_def)
  moreover from timer_cmp_step [OF small_time_steady [OF small] cast_nano_ticks [OF small d], of "later w n"] obtain k2 m where
    m: "timer_cmp clk period_nano ?d (later w n) = Some ((later w n)\<lparr>demo_timer := m\<rparr>)"
      "mtimecmp m = clk_mtime clk k2 + word_of_int (ns_ticks clk ?d)" "n \<le> k2" "k2 < bus_count m" by auto
  moreover have h: "hart_ok ((later w n)\<lparr>demo_timer := m\<rparr>)" using assms(2) by (simp add: hart_ok_def)
  moreover from csr_step_same [OF csr_step_sleep h] obtain w' where
    w': "sleep_until_interrupt ((later w n)\<lparr>demo_timer := m\<rparr>) = Some w'" "hart_ok w'"
      "same_program ((later w n)\<lparr>demo_timer := m\<rparr>) w'" "demo_timer w' = m" by auto
  moreover have "same_program w w'"
    by (rule same_program_trans [of _ "later w n"], use c in simp, rule same_program_trans [OF _ w'(3)], use m in simp)
  ultimately show ?thesis
    using c by (intro exI [of _ w'] exI [of _ k1] exI [of _ k2]) (simp add: sleep_for_def next_wake_delay_of_def)
qed

section \<open>Rounds of the main loops\<close>

text \<open>Nothing is ready: \<open>resume\<close> only reports the latest expiry.\<close>

lemma sched_resume_rest:
  assumes "wf_list (dd_sched w)" and "in_order ready_by_delay (contents (dd_sched w))"
    and "\<forall>en \<in> set (contents (dd_sched w)). expires rc \<le> expires (entry_condition en)"
  shows "\<exists>tr. sched_resume body clk period rc w =
    Some ((contents (dd_sched w) \<noteq> [], track ready_by_delay None (contents (dd_sched w))), w\<lparr>dd_trace := tr\<rparr>)"
proof -
  have "\<forall>en \<in> set (contents (dd_sched w)). \<not> entry_ready ready_by_delay en rc"
    using assms(3) by (force simp: entry_ready_def ready_by_delay_def)
  from by_delay.resume_rest [OF assms(1,2) this, of "dd_trace w" "resume_in body clk period" w] obtain tr where
    "scheduler_resume (resume_in body clk period) ready_by_delay rc (dd_sched w, dd_trace w, w) =
      Some ((contents (dd_sched w) \<noteq> [], track ready_by_delay None (contents (dd_sched w))), dd_sched w, tr, w)" by blast
  then show ?thesis by (intro exI [of _ tr]) (simp add: sched_resume_def)
qed

text \<open>A round of \<open>example_simple\<close> up to the call of \<open>resume\<close>.\<close>

lemma simple_round_start:
  assumes small: "small_time clk" and "hart_ok w"
  shows "\<exists>k w1. bus_count (demo_timer w) \<le> k \<and> k \<le> bus_count (demo_timer w) + 5 \<and> hart_ok w1 \<and> same_program w w1 \<and>
    simple_round clk w = do {
      ((pending, next_wake), w) \<leftarrow> sched_resume (periodic_body clk) clk simple_period \<lparr>expires = ns_at clk k\<rparr> w1;
      if pending then sleep_for clk next_wake w else Some w }"
proof -
  let ?b = "bus_count (demo_timer w)"
  from clock_now_later [OF small, of w] obtain k n where
    c: "clock_now clk w = Some (ns_at clk k, later w n)" "?b \<le> k" "k < n" "n \<le> ?b + 6" by blast
  from stamp_demo_same [OF small, of "later w n"] assms(2) obtain w1 where
    w1: "stamp_demo clk (later w n) = Some w1" "hart_ok w1" "same_program (later w n) w1" by auto
  have "same_program w w1" by (rule same_program_trans [OF _ w1(3)]) (use c in simp)
  with c w1 show ?thesis
    by (intro exI [of _ k] exI [of _ w1]) (simp add: simple_round_def schedule_by_delay_now_def)
qed

lemma simple_round_sleeps:
  assumes small: "small_time clk" and ok: "simple_ok clk n w" and e: "contents (dd_sched w) = [new_entry 1 \<lparr>expires = e\<rparr>]"
    and early: "ns_at clk (bus_count (demo_timer w) + 5) \<le> e"
  shows "\<exists>w' k1 k2. simple_round clk w = Some w' \<and> same_program w w' \<and>
    bus_count (demo_timer w) \<le> k1 \<and> k1 < k2 \<and> k2 < bus_count (demo_timer w') \<and>
    mtimecmp (demo_timer w') = clk_mtime clk k2 + word_of_int (ns_ticks clk (max 0 (e - ns_at clk k1)))"
proof -
  have w: "hart_ok w" "wf_list (dd_sched w)" using ok by (simp_all add: simple_ok_def)
  from simple_round_start [OF small w(1)] obtain k w1 where
    k: "k \<le> bus_count (demo_timer w) + 5" "hart_ok w1" "same_program w w1" and
    r: "simple_round clk w = do {
      ((pending, next_wake), w) \<leftarrow> sched_resume (periodic_body clk) clk simple_period \<lparr>expires = ns_at clk k\<rparr> w1;
      if pending then sleep_for clk next_wake w else Some w }" by blast
  have s: "dd_sched w1 = dd_sched w" "bus_count (demo_timer w) \<le> bus_count (demo_timer w1)"
    using k(3) by (simp_all add: same_program_def)
  have "ns_at clk k \<le> e" using ns_mono [OF small k(1)] early by simp
  then obtain tr where tr: "sched_resume (periodic_body clk) clk simple_period \<lparr>expires = ns_at clk k\<rparr> w1 =
      Some ((True, Some \<lparr>expires = e\<rparr>), w1\<lparr>dd_trace := tr\<rparr>)"
    using sched_resume_rest [of w1 "\<lparr>expires = ns_at clk k\<rparr>" "periodic_body clk" clk simple_period] w(2) e s
    by (auto simp: in_order_def)
  from ok e obtain j where j: "j < bus_count (demo_timer w)" "e = ns_at clk j + 1000000"
    by (auto simp: simple_ok_def new_entry_def schedule_entry_ctor_def split: if_splits)
  let ?w2 = "w1\<lparr>dd_trace := tr\<rparr>"
  have "ns_at clk j \<le> ns_at clk (bus_count (demo_timer ?w2))" using j(1) s(2) by (intro ns_mono [OF small]) simp
  then have "e - ns_at clk (bus_count (demo_timer ?w2)) < 2 ^ 35" using j(2) by simp
  moreover have "hart_ok ?w2" using k(2) by (simp add: hart_ok_def)
  ultimately obtain w' k1 k2 where
    w': "sleep_for clk (Some \<lparr>expires = e\<rparr>) ?w2 = Some w'" "same_program ?w2 w'"
      "bus_count (demo_timer w1) \<le> k1" "k1 < k2" "k2 < bus_count (demo_timer w')"
      "mtimecmp (demo_timer w') = clk_mtime clk k2 + word_of_int (ns_ticks clk (max 0 (e - ns_at clk k1)))"
    using sleep_for_same [OF small, of ?w2 e] by auto
  have "same_program w w'"
    by (rule same_program_trans [OF k(3)], rule same_program_trans [OF _ w'(2)]) simp
  with w' s r tr show ?thesis
    by (intro exI [of _ w'] exI [of _ k1] exI [of _ k2]) simp
qed

text \<open>The coroutine has expired: \<open>resume\<close> returns an empty condition and the round uses it.\<close>

lemma sleep_for_empty: "sleep_for clk None w = None"
  by (simp add: sleep_for_def next_wake_delay_of_def)

lemma simple_round_after_wake:
  assumes small: "small_time clk" and ok: "simple_ok clk n w" and "n < 10"
    and "contents (dd_sched w) = [new_entry 1 \<lparr>expires = e\<rparr>]"
    and r: "simple_round clk w = do {
      ((pending, next_wake), w) \<leftarrow> sched_resume (periodic_body clk) clk simple_period \<lparr>expires = now\<rparr> w1;
      if pending then sleep_for clk next_wake w else Some w }"
    and w1: "same_program w w1" and "e < now"
  shows "simple_round clk w = None \<and> (\<exists>w2.
    sched_resume (periodic_body clk) clk simple_period \<lparr>expires = now\<rparr> w1 = Some ((True, None), w2) \<and> simple_ok clk (Suc n) w2)"
proof -
  have "dd_sched w1 = dd_sched w" using w1 by (simp add: same_program_def)
  with assms(4,7) have "\<forall>en \<in> set (contents (dd_sched w1)). expires (entry_condition en) < expires \<lparr>expires = now\<rparr>"
    by simp
  from simple_resume_wakes [OF small same_program_ok [OF w1 ok] \<open>n < 10\<close> this] obtain w2 where
    "sched_resume (periodic_body clk) clk simple_period \<lparr>expires = now\<rparr> w1 = Some ((True, None), w2)"
    "simple_ok clk (Suc n) w2" by blast
  with r show ?thesis by (simp add: sleep_for_empty)
qed

text \<open>A round that returns has not resumed the coroutine.\<close>

lemma simple_round_returns:
  assumes small: "small_time clk" and ok: "simple_ok clk n w" and res: "simple_round clk w = Some w'"
  shows "simple_ok clk n w'"
proof -
  have w: "hart_ok w" "wf_list (dd_sched w)" using ok by (simp_all add: simple_ok_def)
  from simple_round_start [OF small w(1)] obtain k w1 where
    k: "bus_count (demo_timer w) \<le> k" "hart_ok w1" "same_program w w1" and
    r: "simple_round clk w = do {
      ((pending, next_wake), w) \<leftarrow> sched_resume (periodic_body clk) clk simple_period \<lparr>expires = ns_at clk k\<rparr> w1;
      if pending then sleep_for clk next_wake w else Some w }" by blast
  have s: "dd_sched w1 = dd_sched w" using k(3) by (simp add: same_program_def)
  show ?thesis
  proof (cases "n < 10")
    case False
    then have "contents (dd_sched w1) = []" using ok s by (simp add: simple_ok_def)
    then obtain tr where "sched_resume (periodic_body clk) clk simple_period \<lparr>expires = ns_at clk k\<rparr> w1 =
        Some ((False, None), w1\<lparr>dd_trace := tr\<rparr>)"
      using sched_resume_rest [of w1 "\<lparr>expires = ns_at clk k\<rparr>" "periodic_body clk" clk simple_period] w(2) s
      by (auto simp: in_order_def)
    with r res have "w' = w1\<lparr>dd_trace := tr\<rparr>" by simp
    moreover have "same_program w1 (w1\<lparr>dd_trace := tr\<rparr>)" by simp
    ultimately show ?thesis using same_program_ok [OF same_program_trans [OF k(3)] ok] by blast
  next
    case True
    with ok obtain j where j: "j < bus_count (demo_timer w)"
      "contents (dd_sched w) = [new_entry 1 \<lparr>expires = ns_at clk j + 1000000\<rparr>]" by (auto simp: simple_ok_def)
    have "\<not> ns_at clk j + 1000000 < ns_at clk k"
      using simple_round_after_wake [OF small ok True j(2) r k(3)] res by auto
    then obtain tr where tr: "sched_resume (periodic_body clk) clk simple_period \<lparr>expires = ns_at clk k\<rparr> w1 =
        Some ((True, Some \<lparr>expires = ns_at clk j + 1000000\<rparr>), w1\<lparr>dd_trace := tr\<rparr>)"
      using sched_resume_rest [of w1 "\<lparr>expires = ns_at clk k\<rparr>" "periodic_body clk" clk simple_period] w(2) j(2) s
      by (auto simp: in_order_def)
    let ?w2 = "w1\<lparr>dd_trace := tr\<rparr>"
    have "ns_at clk j \<le> ns_at clk (bus_count (demo_timer ?w2))"
      using j(1) k(3) by (intro ns_mono [OF small]) (simp add: same_program_def)
    moreover have "hart_ok ?w2" using k(2) by (simp add: hart_ok_def)
    ultimately obtain w3 where "sleep_for clk (Some \<lparr>expires = ns_at clk j + 1000000\<rparr>) ?w2 = Some w3" "same_program ?w2 w3"
      using sleep_for_same [OF small, of ?w2 "ns_at clk j + 1000000"] by auto
    moreover from this r res tr have "w3 = w'" by simp
    moreover have "same_program w1 ?w2" by simp
    ultimately show ?thesis
      using same_program_ok [OF same_program_trans [OF same_program_trans [OF k(3)]] ok] by blast
  qed
qed

section \<open>Setup\<close>

lemma delay_setup_ok:
  assumes small: "small_time clk" and "length raw = 10" and "hart_ok w"
  shows "\<exists>w'. delay_setup clk raw w = Some w' \<and> hart_ok w' \<and> wf_list (dd_sched w') \<and> capacity (dd_sched w') = 10 \<and>
    contents (dd_sched w') = [] \<and> dd_resume_count w' = dd_resume_count w \<and> timestamp_resume w' = timestamp_resume w \<and>
    demo_tasks w' = demo_tasks w"
proof -
  have "raw \<noteq> []" using assms(2) by auto
  from static_list_ctor_refines [OF this] obtain s where
    s: "static_list_ctor raw = Some s" "wf_list s" "contents s = []" "capacity s = 10" using assms(2) by auto
  let ?w = "w\<lparr>dd_sched := s\<rparr>"
  have "hart_ok ?w" using assms(3) by (simp add: hart_ok_def)
  from csr_step_same [OF csr_step_bits(1) this] obtain w1 where
    w1: "mstatus_mie_clr ?w = Some w1" "hart_ok w1" "same_program ?w w1" by blast
  from stamp_demo_same [OF small w1(2)] obtain w2 where
    w2: "stamp_demo clk w1 = Some w2" "hart_ok w2" "same_program w1 w2" by blast
  from timer_cmp_step [OF small_time_steady [OF small] cast_zero [OF small_time_steady [OF small]], of w2] obtain m where
    m: "timer_cmp clk period_nano 0 w2 = Some (w2\<lparr>demo_timer := m\<rparr>)" by blast
  have p: "same_program ?w w2" using w1(3) w2(3) by (rule same_program_trans)
  have "delay_setup clk raw w = Some (w2\<lparr>demo_timer := m\<rparr>)"
    using s w1(1) w2(1) m by (simp add: delay_setup_def)
  moreover have "hart_ok (w2\<lparr>demo_timer := m\<rparr>)" using w2(2) by (simp add: hart_ok_def)
  ultimately show ?thesis
    using p s by (intro exI [of _ "w2\<lparr>demo_timer := m\<rparr>"]) (simp add: same_program_def)
qed

lemma simple_setup_ok:
  assumes small: "small_time clk" and "length raw = 10" and "hart_ok w" and "dd_resume_count w 1 = 0"
    and "length (timestamp_resume w) = 10" and "frames_fit frame [1] w"
  shows "\<exists>w'. simple_setup clk raw frame entry T handler w = Some w' \<and> simple_ok clk 0 w'"
proof -
  from delay_setup_ok [OF assms(1-3)] obtain w1 where
    w1: "delay_setup clk raw w = Some w1" "hart_ok w1" "wf_list (dd_sched w1)" "capacity (dd_sched w1) = 10"
      "contents (dd_sched w1) = []" "dd_resume_count w1 1 = of_nat 0" "length (timestamp_resume w1) = 10" "frames_fit frame [1] w1"
    using assms(4-6) by (auto simp: frames_fit_def)
  from call_coro_fits [OF w1(8)] obtain sy where
    sy: "\<And>body. call_coro (frame 1) body w1 = body (w1\<lparr>demo_tasks := sy\<rparr>)" by blast
  have "hart_ok (w1\<lparr>demo_tasks := sy\<rparr>)" using w1(2) by (simp add: hart_ok_def)
  with simple_loop_ok [OF small, of "w1\<lparr>demo_tasks := sy\<rparr>" 0 "periodic_body clk"] w1(3-7) obtain w2 where
    w2: "delay_loop (periodic_body clk) clk (simple_period 1) 1 0 (w1\<lparr>demo_tasks := sy\<rparr>) = Some w2" "simple_ok clk 0 w2" by auto
  then have "hart_ok w2" by (simp add: simple_ok_def)
  from handler_ctor_step [OF this] obtain h where
    h: "irq_handler_ctor entry T handler w2 = Some (w2\<lparr>execute_handler := Some T, irq_hart := h\<rparr>)"
      "hart_ok (w2\<lparr>execute_handler := Some T, irq_hart := h\<rparr>)" by blast
  then have "same_program w2 (w2\<lparr>execute_handler := Some T, irq_hart := h\<rparr>)" by (simp add: same_program_def)
  from same_program_ok [OF this w2(2)] w1(1) w2(1) h(1) show ?thesis
    by (simp add: simple_setup_def delay_start_def sy del: One_nat_def)
qed

lemma insert_later:
  assumes "a \<le> b"
  shows "insert_spec ready_by_delay u \<lparr>expires = b\<rparr> [new_entry t \<lparr>expires = a\<rparr>] =
    [new_entry t \<lparr>expires = a\<rparr>, new_entry u \<lparr>expires = b\<rparr>]"
  using assms by (simp add: insert_spec_def ready_by_delay_def)

lemma timer_setup_ok:
  assumes small: "small_time clk" and "length raw = 10" and "hart_ok w" and fit: "frames_fit frame [1, 2] w"
  shows "\<exists>w' i j. timer_setup clk raw frame entry T handler w = Some w' \<and> hart_ok w' \<and> wf_list (dd_sched w') \<and>
    i < j \<and> j < bus_count (demo_timer w') \<and> contents (dd_sched w') =
      [new_entry 1 \<lparr>expires = ns_at clk i + 10000000000\<rparr>, new_entry 2 \<lparr>expires = ns_at clk j + 20000000000\<rparr>]"
proof -
  from delay_setup_ok [OF assms(1-3)] fit obtain w0 where
    w0: "delay_setup clk raw w = Some w0" "hart_ok w0" "wf_list (dd_sched w0)" "capacity (dd_sched w0) = 10"
      "contents (dd_sched w0) = []" "frames_fit frame [1, 2] w0" by (auto simp: frames_fit_def)
  from call_coro_fits [OF w0(6)] obtain sy where
    sy: "\<And>body. call_coro (frame 1) body w0 = body (w0\<lparr>demo_tasks := sy\<rparr>)" "frames_fit frame [2] (w0\<lparr>demo_tasks := sy\<rparr>)"
    by blast
  let ?w1 = "w0\<lparr>demo_tasks := sy\<rparr>"
  from delay_suspend_ok [OF small, of ?w1 10000000 1 0] w0(3-5) obtain i n s where
    w2: "delay_suspend clk 10000000 1 0 ?w1 = Some ((later ?w1 n)\<lparr>dd_sched := s, dd_frame := (dd_frame ?w1)(1 := Some 0)\<rparr>)"
      (is "_ = Some ?w2") "wf_list s" "capacity s = 10" "contents s = [new_entry 1 \<lparr>expires = ns_at clk i + 10000000000\<rparr>]" "i < n"
    by (auto simp: insert_spec_def)
  have "frames_fit frame [2] ?w2" using sy(2) by (simp add: frames_fit_def)
  from call_coro_fits [OF this] obtain sy' where
    sy': "\<And>body. call_coro (frame 2) body ?w2 = body (?w2\<lparr>demo_tasks := sy'\<rparr>)" by blast
  let ?w2' = "?w2\<lparr>demo_tasks := sy'\<rparr>"
  from delay_suspend_ok [OF small, of ?w2' 20000000 2 0] w2 obtain j m s' where
    w3: "delay_suspend clk 20000000 2 0 ?w2' = Some ((later ?w2' m)\<lparr>dd_sched := s', dd_frame := (dd_frame ?w2')(2 := Some 0)\<rparr>)"
      (is "_ = Some ?w3") "wf_list s'" "n \<le> j" "j < m" and
    c: "contents s' = insert_spec ready_by_delay 2 \<lparr>expires = ns_at clk j + 20000000000\<rparr> (contents s)" by auto
  have ij: "i < j" using w2(5) w3(3) by simp
  then have "ns_at clk i \<le> ns_at clk j" by (intro ns_mono [OF small]) simp
  then have c': "contents s' = [new_entry 1 \<lparr>expires = ns_at clk i + 10000000000\<rparr>, new_entry 2 \<lparr>expires = ns_at clk j + 20000000000\<rparr>]"
    unfolding c w2(4) by (intro insert_later) simp
  have "hart_ok ?w3" using w0(2) by (simp add: hart_ok_def)
  from handler_ctor_step [OF this] obtain h where
    h: "irq_handler_ctor entry T handler ?w3 = Some (?w3\<lparr>execute_handler := Some T, irq_hart := h\<rparr>)"
      "hart_ok (?w3\<lparr>execute_handler := Some T, irq_hart := h\<rparr>)" by blast
  let ?w4 = "?w3\<lparr>execute_handler := Some T, irq_hart := h\<rparr>"
  from csr_step_same [OF csr_step_bits(4) h(2)] obtain w5 where
    w5: "mie_mti_set ?w4 = Some w5" "hart_ok w5" "same_program ?w4 w5" by blast
  from csr_step_same [OF csr_step_bits(2) w5(2)] obtain w6 where
    w6: "mstatus_mie_set w5 = Some w6" "hart_ok w6" "same_program w5 w6" by blast
  have p: "same_program ?w4 w6" using w5(3) w6(3) by (rule same_program_trans)
  have "timer_setup clk raw frame entry T handler w = Some w6"
    using w0(1) w2(1) w3(1) h(1) w5(1) w6(1) sy'
    by (simp add: timer_setup_def delay_start_def delay_loop_waits timer_period_def sy del: One_nat_def)
  with p w3 w6(2) c' ij show ?thesis
    by (intro exI [of _ w6] exI [of _ i] exI [of _ j]) (simp add: same_program_def)
qed

text \<open>A round of \<open>example_timer\<close> while nothing is ready.\<close>

lemma timer_round_sleeps:
  assumes small: "small_time clk" and "hart_ok w" and "wf_list (dd_sched w)"
    and c: "contents (dd_sched w) = [new_entry 1 \<lparr>expires = a\<rparr>, new_entry 2 \<lparr>expires = b\<rparr>]" and "a < b"
    and early: "ns_at clk (bus_count (demo_timer w) + 5) \<le> a" and far: "b - ns_at clk (bus_count (demo_timer w)) < 2 ^ 35"
  shows "\<exists>w' k1 k2. timer_round clk w = Some w' \<and> same_program w w' \<and>
    bus_count (demo_timer w) \<le> k1 \<and> k1 < k2 \<and> k2 < bus_count (demo_timer w') \<and>
    mtimecmp (demo_timer w') = clk_mtime clk k2 + word_of_int (ns_ticks clk (max 0 (b - ns_at clk k1)))"
proof -
  let ?b = "bus_count (demo_timer w)"
  from clock_now_later [OF small, of w] obtain k n where
    k: "clock_now clk w = Some (ns_at clk k, later w n)" "k < n" "n \<le> ?b + 6" "?b \<le> k" by blast
  from ticks_now_later [OF small, of "later w n"] obtain ts m where
    m: "ticks_now clk (later w n) = Some (ts, later w m)" "n < m" by auto
  let ?w1 = "(later w m)\<lparr>dd_trace := TRACE_TIMESTAMP (ucast ts) (dd_trace w)\<rparr>"
  have "ns_at clk k \<le> a" using ns_mono [OF small, of k "?b + 5"] k(2,3) early by simp
  with c \<open>a < b\<close> sched_resume_rest [of ?w1 "\<lparr>expires = ns_at clk k\<rparr>" resuming_body clk timer_period] assms(3)
  obtain tr where tr: "sched_resume resuming_body clk timer_period \<lparr>expires = ns_at clk k\<rparr> ?w1 =
      Some ((True, Some \<lparr>expires = b\<rparr>), (later w m)\<lparr>dd_trace := tr\<rparr>)"
    by (auto simp: in_order_def ready_by_delay_def no_later_def)
  let ?w2 = "(later w m)\<lparr>dd_trace := TRACE_VALUE_pending True tr\<rparr>"
  from clock_now_later [OF small, of ?w2] obtain k' n' where
    k': "clock_now clk ?w2 = Some (ns_at clk k', later ?w2 n')" "m \<le> k'" "k' < n'" by auto
  let ?d = "max 0 (b - ns_at clk k')"
  have "ns_at clk ?b \<le> ns_at clk k'" "ns_at clk ?b \<le> ns_at clk n'"
    using k(2,4) m(2) k'(2,3) by (auto intro: ns_mono [OF small])
  with far have far': "b - ns_at clk k' < 2 ^ 35" "b - ns_at clk n' < 2 ^ 35" by simp_all
  then have d: "remaining_delay \<lparr>expires = b\<rparr> (ns_at clk k') = Some ?d"
    by (auto simp: remaining_delay_def i64_def)
  let ?w3 = "(later ?w2 n')\<lparr>dd_trace := TRACE_VALUE_delay (word_of_int ?d) (TRACE_VALUE_pending True tr)\<rparr>"
  have "hart_ok ?w3" using assms(2) by (simp add: hart_ok_def)
  from sleep_for_same [OF small this, of b] far'(2) obtain w' k1 k2 where
    w': "sleep_for clk (Some \<lparr>expires = b\<rparr>) ?w3 = Some w'" "same_program ?w3 w'" "n' \<le> k1" "k1 < k2"
      "k2 < bus_count (demo_timer w')" "mtimecmp (demo_timer w') = clk_mtime clk k2 + word_of_int (ns_ticks clk (max 0 (b - ns_at clk k1)))"
    by auto
  have "same_program w ?w3" using k(2,4) m(2) k'(2,3) by (auto simp: same_program_def hart_ok_def)
  from same_program_trans [OF this w'(2)] have "same_program w w'" .
  moreover have "timer_round clk w = Some w'"
    using k(1) m(1) tr k'(1) d w'(1)
    by (simp add: timer_round_def schedule_by_delay_now_def next_wake_delay_of_def Let_def)
  ultimately show ?thesis
    using w' k(2,4) m(2) k'(2,3) by (intro exI [of _ w'] exI [of _ k1] exI [of _ k2]) simp
qed

section \<open>Precision of the timer\<close>

text \<open>
  A delay of \<open>d\<close> nanoseconds, rounded down to ticks and added to \<open>mtime\<close>, ends at most one tick
  early and never late.
\<close>

lemma div_bounds:
  assumes "0 < (m :: int)"
  shows "m * (x div m) \<le> x" "x < m * (x div m) + m"
  using assms pos_mod_sign [of m x] pos_mod_bound [of m x] mult_div_mod_eq [of m x] by linarith+

lemma rounding:
  fixes f q x r y d a c :: int
  assumes "0 < f" and "f * q \<le> x" and "x < f * q + f" and "f * r \<le> x + y" and "x + y < f * r + f"
    and "y \<le> f * d" and "f * d < y + a" and "a \<le> f * c"
  shows "q + d - c \<le> r" and "r \<le> q + d"
proof -
  have "f * (q + d - c - 1) < f * r" using assms(2,5,7,8) by (simp add: algebra_simps)
  then show "q + d - c \<le> r" using assms(1) by simp
  have "f * r < f * (q + d + 1)" using assms(3,4,6) by (simp add: algebra_simps)
  then show "r \<le> q + d" using assms(1) by simp
qed

lemma tick_ns_covers: "0 < clk_freq clk \<Longrightarrow> 10 ^ 9 \<le> clk_freq clk * tick_ns clk"
  using div_bounds(2) [of "clk_freq clk" "10 ^ 9 + clk_freq clk - 1"] by (simp add: tick_ns_def)

lemma ticks_early:
  assumes small: "small_time clk" and c: "uint c < 2 ^ 31" and d: "0 \<le> d" "d < 2 ^ 35"
  shows "ns clk c + d - tick_ns clk \<le> ns clk (c + word_of_int (ns_ticks clk d))"
    and "ns clk (c + word_of_int (ns_ticks clk d)) \<le> ns clk c + d"
proof -
  let ?f = "clk_freq clk" and ?t = "ns_ticks clk d"
  have f: "0 < ?f" using small by (rule small_timeD)
  note t = ns_ticks_bounds [OF small d]
  have "0 \<le> uint c" by simp
  then have u: "uint (c + word_of_int ?t) = uint c + ?t"
    using c t by (simp add: uint_word_ariths uint_word_of_int)
  have x: "?f * ns clk c \<le> uint c * 10 ^ 9" "uint c * 10 ^ 9 < ?f * ns clk c + ?f"
    unfolding ns_def using f by (rule div_bounds)+
  have y: "?f * ns clk (c + word_of_int ?t) \<le> uint c * 10 ^ 9 + ?t * 10 ^ 9"
    "uint c * 10 ^ 9 + ?t * 10 ^ 9 < ?f * ns clk (c + word_of_int ?t) + ?f"
    unfolding ns_def u distrib_right [symmetric] using f by (rule div_bounds)+
  have z: "?t * 10 ^ 9 \<le> ?f * d" "?f * d < ?t * 10 ^ 9 + 10 ^ 9"
    using div_bounds [where m = "10 ^ 9" and x = "d * ?f", OF zero_less_power [OF zero_less_numeral]]
    by (simp_all only: ns_ticks_def mult.commute)
  show "ns clk c + d - tick_ns clk \<le> ns clk (c + word_of_int ?t)" "ns clk (c + word_of_int ?t) \<le> ns clk c + d"
    using rounding [OF f x y z tick_ns_covers [OF f]] .
qed

section \<open>Properties\<close>

text \<open>
  The states of \<open>example_simple\<close> after the coroutine has been resumed \<open>n\<close> times, by calls of
  \<open>resume\<close> with a time after its expiry, with interrupts and with rounds of the main loop.
\<close>

inductive simple_woken :: "board_clock \<Rightarrow> nat \<Rightarrow> delay_demo \<Rightarrow> bool" for clk where
  started: "length raw = 10 \<Longrightarrow> hart_ok w \<Longrightarrow> dd_resume_count w 1 = 0 \<Longrightarrow> length (timestamp_resume w) = 10 \<Longrightarrow>
    frames_fit frame [1] w \<Longrightarrow> simple_setup clk raw frame entry T handler w = Some w' \<Longrightarrow> simple_woken clk 0 w'"
| woken: "simple_woken clk n w \<Longrightarrow> contents (dd_sched w) = [en] \<Longrightarrow> expires (entry_condition en) < expires rc \<Longrightarrow>
    sched_resume (periodic_body clk) clk simple_period rc w = Some (r, w') \<Longrightarrow> simple_woken clk (Suc n) w'"
| interrupted: "simple_woken clk n w \<Longrightarrow> delay_isr_handler clk (trap_cause c w) = Some w' \<Longrightarrow> simple_woken clk n w'"
| looped: "simple_woken clk n w \<Longrightarrow> simple_round clk w = Some w' \<Longrightarrow> simple_woken clk n w'"

lemma simple_woken_ok:
  assumes small: "small_time clk" and "simple_woken clk n w"
  shows "simple_ok clk n w"
  using assms(2)
proof (induction rule: simple_woken.induct)
  case (started raw w frame entry T handler w')
  with simple_setup_ok [OF small started(1-5), of entry T handler] show ?case by auto
next
  case (woken n w en rc r w')
  then have "n < 10" by (auto simp: simple_ok_def split: if_splits)
  with simple_resume_wakes [OF small woken.IH, of rc] woken show ?case by auto
next
  case (interrupted n w c w')
  then have h: "hart_ok w" by (simp add: simple_ok_def)
  obtain w'' where "delay_isr_handler clk (trap_cause c w) = Some w''" "same_program (trap_cause c w) w''"
    using delay_isr_same [OF small, of "trap_cause c w" c] h by auto
  moreover have "same_program w (trap_cause c w)"
    using h by (auto simp: same_program_def trap_cause_def hart_ok_def)
  ultimately show ?case using interrupted same_program_ok same_program_trans by fastforce
next
  case (looped n w w')
  then show ?case using simple_round_returns [OF small] by blast
qed

text \<open>
  C34: the coroutine of example_simple is resumed at most ten times. After n resumes its counter
  is n; before the tenth it is the only coroutine that waits, and a resume with any time after its
  expiry returns and runs its next round without undefined behaviour (the index into
  timestamp_resume is in range). After the tenth it has ended and nothing waits. Interrupts and
  rounds of the main loop that return leave this alone.
\<close>

theorem simple_runs_ten_times:
  assumes "small_time clk" and "simple_woken clk n w"
  shows "n \<le> 10 \<and> dd_resume_count w 1 = of_nat n \<and>
    (n < 10 \<longrightarrow> (\<exists>e. contents (dd_sched w) = [new_entry 1 \<lparr>expires = e\<rparr>] \<and> (\<forall>t > e. \<exists>w'.
       sched_resume (periodic_body clk) clk simple_period \<lparr>expires = t\<rparr> w = Some ((True, None), w') \<and>
       simple_woken clk (Suc n) w'))) \<and>
    (n = 10 \<longrightarrow> contents (dd_sched w) = [] \<and> dd_frame w 1 = None)"
proof -
  note ok = simple_woken_ok [OF assms]
  have "\<exists>e. contents (dd_sched w) = [new_entry 1 \<lparr>expires = e\<rparr>] \<and> (\<forall>t > e. \<exists>w'.
       sched_resume (periodic_body clk) clk simple_period \<lparr>expires = t\<rparr> w = Some ((True, None), w') \<and>
       simple_woken clk (Suc n) w')" if n: "n < 10"
  proof -
    from ok n obtain e where e: "contents (dd_sched w) = [new_entry 1 \<lparr>expires = e\<rparr>]" by (auto simp: simple_ok_def)
    have "\<exists>w'. sched_resume (periodic_body clk) clk simple_period \<lparr>expires = t\<rparr> w = Some ((True, None), w') \<and>
       simple_woken clk (Suc n) w'" if t: "e < t" for t
      using simple_resume_wakes [OF assms(1) ok n, of "\<lparr>expires = t\<rparr>"] e t
        simple_woken.woken [OF assms(2) e, of "\<lparr>expires = t\<rparr>"] by fastforce
    with e show ?thesis by blast
  qed
  moreover have "n = 10 \<Longrightarrow> contents (dd_sched w) = [] \<and> dd_frame w 1 = None" "n \<le> 10" "dd_resume_count w 1 = of_nat n"
    using ok by (auto simp: simple_ok_def)
  ultimately show ?thesis by blast
qed

definition delay_world :: delay_demo where
  "delay_world = \<lparr>irq_hart = plain_hart [(''mstatus'', 0), (''mie'', 0), (''mcause'', 0), (''mscratch'', 0), (''mtvec'', 0)],
     execute_handler = None, demo_timer = \<lparr>bus_count = 0, mtimecmp = 0, cmp_writes = []\<rparr>,
     demo_tasks = \<lparr>sys_heap = task_heap_init, sys_flags = []\<rparr>, dd_sched = undefined, dd_trace = trace_init, dd_frame = (\<lambda>_. None), dd_timestamp = 0,
     dd_resume_count = (\<lambda>_. 0), timestamp_resume = replicate 10 0\<rparr>"

definition raw_nodes :: "(nat, schedule_by_delay) schedule_entry static_list_node list" where
  "raw_nodes = replicate 10 \<lparr>node_next = None, node_prev = None, node_value = None\<rparr>"

lemma hart_ok_delay_world: "hart_ok delay_world"
  by (auto simp: hart_ok_def delay_world_def demo_csrs_def)

lemma frames_fit_delay_world: "frames_fit (\<lambda>_. 128) [1, 2] delay_world" "frames_fit (\<lambda>_. 128) [1] delay_world"
  by (simp_all add: frames_fit_def delay_world_def task_heap_init_def TASK_HEAP_SIZE_def)

lemma small_still: "small_time still_clock"
  by (simp add: small_time_def still_clock_def clk_freq_def freq_ok_build mtime_small_def)

lemma ns_at_still: "ns_at still_clock k = ns still_clock 7"
  by (simp add: ns_at_def still_clock_def)

lemma exists_woken: "\<exists>w. simple_woken still_clock 0 w"
proof -
  have "length raw_nodes = 10" "dd_resume_count delay_world 1 = 0" "length (timestamp_resume delay_world) = 10"
    by (simp_all add: raw_nodes_def delay_world_def)
  with simple_setup_ok [OF small_still _ hart_ok_delay_world, of raw_nodes "\<lambda>_. 128" 0 0 0]
    simple_woken.started [OF _ hart_ok_delay_world, of raw_nodes "\<lambda>_. 128" still_clock 0 0 0] frames_fit_delay_world(2)
  show ?thesis by blast
qed

theorem simple_runs_ten_times_witness:
  "\<exists>w e w'. simple_woken still_clock 0 w \<and> contents (dd_sched w) = [new_entry 1 \<lparr>expires = e\<rparr>] \<and>
    sched_resume (periodic_body still_clock) still_clock simple_period \<lparr>expires = e + 1\<rparr> w = Some ((True, None), w') \<and>
    simple_woken still_clock 1 w'"
proof -
  obtain w where w: "simple_woken still_clock 0 w" using exists_woken by blast
  from simple_runs_ten_times [OF small_still w] obtain e where "contents (dd_sched w) = [new_entry 1 \<lparr>expires = e\<rparr>]"
    "\<exists>w'. sched_resume (periodic_body still_clock) still_clock simple_period \<lparr>expires = e + 1\<rparr> w = Some ((True, None), w') \<and>
       simple_woken still_clock 1 w'" by auto
  with w show ?thesis by blast
qed

text \<open>
  C35: while the coroutine of example_simple has not expired, a round of the main loop returns,
  leaves the coroutine waiting and sets mtimecmp to a reading of mtime (at access k2) plus the
  delay that remained at an earlier reading (at access k1), in ticks. The programmed instant is at
  most one tick before the expiry e, and it is after e (or after the first reading, when that was
  past e already) by no more than the time that passed between the two readings.
\<close>

theorem simple_round_programs_timer:
  assumes "small_time clk" and "simple_woken clk n w" and "contents (dd_sched w) = [new_entry 1 \<lparr>expires = e\<rparr>]"
    and "ns_at clk (bus_count (demo_timer w) + 5) \<le> e"
  shows "\<exists>w' k1 k2. simple_round clk w = Some w' \<and> simple_woken clk n w' \<and> dd_sched w' = dd_sched w \<and>
    bus_count (demo_timer w) \<le> k1 \<and> k1 < k2 \<and> k2 < bus_count (demo_timer w') \<and>
    mtimecmp (demo_timer w') = clk_mtime clk k2 + word_of_int (ns_ticks clk (max 0 (e - ns_at clk k1))) \<and>
    e - tick_ns clk \<le> ns clk (mtimecmp (demo_timer w')) \<and>
    ns clk (mtimecmp (demo_timer w')) \<le> max e (ns_at clk k1) + (ns_at clk k2 - ns_at clk k1)"
proof -
  note ok = simple_woken_ok [OF assms(1,2)]
  from simple_round_sleeps [OF assms(1) ok assms(3,4)] obtain w' k1 k2 where
    w': "simple_round clk w = Some w'" "same_program w w'" "bus_count (demo_timer w) \<le> k1" "k1 < k2"
      "k2 < bus_count (demo_timer w')"
      "mtimecmp (demo_timer w') = clk_mtime clk k2 + word_of_int (ns_ticks clk (max 0 (e - ns_at clk k1)))" by blast
  let ?d = "max 0 (e - ns_at clk k1)"
  from ok assms(3) obtain j where j: "j < bus_count (demo_timer w)" "e = ns_at clk j + 1000000"
    by (auto simp: simple_ok_def new_entry_def schedule_entry_ctor_def split: if_splits)
  have "ns_at clk j \<le> ns_at clk k1" using j(1) w'(3) by (intro ns_mono [OF assms(1)]) simp
  then have "0 \<le> ?d" "?d < 2 ^ 35" using j(2) by simp_all
  from ticks_early [OF assms(1) small_timeD(4) [OF assms(1)] this, of k2]
  have b: "ns_at clk k2 + ?d - tick_ns clk \<le> ns clk (mtimecmp (demo_timer w'))"
    "ns clk (mtimecmp (demo_timer w')) \<le> ns_at clk k2 + ?d" unfolding w'(6) ns_at_def .
  have "ns_at clk k1 \<le> ns_at clk k2" using w'(4) by (intro ns_mono [OF assms(1)]) simp
  with b have "e - tick_ns clk \<le> ns clk (mtimecmp (demo_timer w'))"
    "ns clk (mtimecmp (demo_timer w')) \<le> max e (ns_at clk k1) + (ns_at clk k2 - ns_at clk k1)" by linarith+
  with w' simple_woken.looped [OF assms(2) w'(1)] show ?thesis
    by (intro exI [of _ w'] exI [of _ k1] exI [of _ k2]) (simp add: same_program_def)
qed

lemma exists_waiting:
  "\<exists>w e. simple_woken still_clock 0 w \<and> contents (dd_sched w) = [new_entry 1 \<lparr>expires = e\<rparr>] \<and> ns still_clock 7 \<le> e"
proof -
  obtain w where w: "simple_woken still_clock 0 w" using exists_woken by blast
  from simple_woken_ok [OF small_still w] have "\<exists>e. contents (dd_sched w) = [new_entry 1 \<lparr>expires = e\<rparr>] \<and> ns still_clock 7 \<le> e"
    unfolding simple_ok_def ns_at_still by auto
  with w show ?thesis by blast
qed

theorem simple_round_programs_timer_witness:
  "\<exists>w w' e. simple_woken still_clock 0 w \<and> contents (dd_sched w) = [new_entry 1 \<lparr>expires = e\<rparr>] \<and>
    simple_round still_clock w = Some w' \<and> e - 100 \<le> ns still_clock (mtimecmp (demo_timer w')) \<and>
    ns still_clock (mtimecmp (demo_timer w')) \<le> e"
proof -
  obtain w e where w: "simple_woken still_clock 0 w" "contents (dd_sched w) = [new_entry 1 \<lparr>expires = e\<rparr>]"
    and e: "ns still_clock 7 \<le> e"
    using exists_waiting by blast
  have "tick_ns still_clock = 100"
    by (simp add: tick_ns_def still_clock_def clk_freq_def MTIME_FREQ_HZ_def)
  with simple_round_programs_timer [OF small_still w] w e show ?thesis
    unfolding ns_at_still by (auto simp: max_absorb1)
qed

text \<open>
  C36: once the coroutine has expired, the round of the main loop that finds it so has undefined
  behaviour. The call of resume itself returns and runs the next round of the coroutine, but its
  result is an empty optional, and the main loop calls delay() on it.
\<close>

theorem simple_round_undefined:
  assumes "small_time clk" and "simple_ok clk n w" and "n < 10"
    and "contents (dd_sched w) = [new_entry 1 \<lparr>expires = e\<rparr>]" and "e < ns_at clk (bus_count (demo_timer w))"
  shows "simple_round clk w = None \<and> (\<exists>k w1 w2. bus_count (demo_timer w) \<le> k \<and> same_program w w1 \<and>
    sched_resume (periodic_body clk) clk simple_period \<lparr>expires = ns_at clk k\<rparr> w1 = Some ((True, None), w2) \<and>
    dd_resume_count w2 1 = of_nat (Suc n))"
proof -
  have "hart_ok w" using assms(2) by (simp add: simple_ok_def)
  from simple_round_start [OF assms(1) this] obtain k w1 where
    k: "bus_count (demo_timer w) \<le> k" "same_program w w1" and
    r: "simple_round clk w = do {
      ((pending, next_wake), w) \<leftarrow> sched_resume (periodic_body clk) clk simple_period \<lparr>expires = ns_at clk k\<rparr> w1;
      if pending then sleep_for clk next_wake w else Some w }" by blast
  have "e < ns_at clk k" using assms(5) ns_mono [OF assms(1) k(1)] by simp
  from simple_round_after_wake [OF assms(1-4) r k(2) this] obtain w2 where
    "simple_round clk w = None"
    "sched_resume (periodic_body clk) clk simple_period \<lparr>expires = ns_at clk k\<rparr> w1 = Some ((True, None), w2)"
    "simple_ok clk (Suc n) w2" by blast
  moreover from this(3) have "dd_resume_count w2 1 = of_nat (Suc n)" by (simp add: simple_ok_def)
  ultimately show ?thesis using k by blast
qed

text \<open>A clock that has advanced by a tenth of a second after the coroutine was scheduled at access 0.\<close>

definition jump_clk :: board_clock where
  "jump_clk = \<lparr>clk_mtime = \<lambda>n. if n = 0 then 0 else 1000000, clk_target = Some 10000000\<rparr>"

lemma jump_clk_small: "small_time jump_clk"
  by (simp add: small_time_def mtime_small_def jump_clk_def clk_freq_def freq_ok_build)

theorem simple_round_undefined_witness:
  "\<exists>w. simple_ok jump_clk 3 w \<and> simple_round jump_clk w = None"
proof -
  obtain s :: "(nat, schedule_by_delay) task_list" where
    s: "wf_list s" "capacity s = 10" "contents s = [new_entry 1 \<lparr>expires = ns_at jump_clk 0 + 1000000\<rparr>]"
    using exists_list [of "[new_entry (1 :: nat) \<lparr>expires = ns_at jump_clk 0 + 1000000\<rparr>]" 10] by auto
  let ?w = "delay_world\<lparr>dd_sched := s, demo_timer := \<lparr>bus_count = 1, mtimecmp = 0, cmp_writes = []\<rparr>,
    dd_frame := (\<lambda>_. Some 3), dd_resume_count := (\<lambda>_. 3)\<rparr>"
  have "hart_ok ?w" using hart_ok_delay_world by (simp add: hart_ok_def)
  then have "simple_ok jump_clk 3 ?w" using s by (auto simp: simple_ok_def delay_world_def)
  moreover have "ns_at jump_clk 0 + 1000000 < ns_at jump_clk (bus_count (demo_timer ?w))"
    by (simp add: jump_clk_def ns_at_def ns_def clk_freq_def MTIME_FREQ_HZ_def)
  ultimately show ?thesis
    using simple_round_undefined [OF jump_clk_small, of 3 ?w] s by auto
qed

text \<open>
  C37: example_timer starts with t0 waiting for 10 s and t1 for 20 s. A round of its main loop
  before t0 expires sets mtimecmp from the expiry of t1, the later one: the timer interrupt does
  not come for t0, which waits about ten seconds longer than it asked for unless another
  interrupt wakes the hart.
\<close>

theorem timer_sleeps_past_first:
  assumes "small_time clk" and "length raw = 10" and "hart_ok w" and "frames_fit frame [1, 2] w"
  shows "\<exists>w0 i j. timer_setup clk raw frame entry T handler w = Some w0 \<and> i < j \<and>
    contents (dd_sched w0) =
      [new_entry 1 \<lparr>expires = ns_at clk i + 10000000000\<rparr>, new_entry 2 \<lparr>expires = ns_at clk j + 20000000000\<rparr>] \<and>
    (ns_at clk (bus_count (demo_timer w0) + 5) \<le> ns_at clk i + 10000000000 \<longrightarrow>
      (\<exists>w' k1 k2. timer_round clk w0 = Some w' \<and> dd_sched w' = dd_sched w0 \<and> k1 < k2 \<and>
        mtimecmp (demo_timer w') = clk_mtime clk k2 + word_of_int (ns_ticks clk (max 0 (ns_at clk j + 20000000000 - ns_at clk k1)))))"
proof -
  from timer_setup_ok [OF assms, of entry T handler] obtain w0 i j where
    w0: "timer_setup clk raw frame entry T handler w = Some w0" "hart_ok w0" "wf_list (dd_sched w0)" "i < j"
      "j < bus_count (demo_timer w0)"
      "contents (dd_sched w0) =
        [new_entry 1 \<lparr>expires = ns_at clk i + 10000000000\<rparr>, new_entry 2 \<lparr>expires = ns_at clk j + 20000000000\<rparr>]" by blast
  have "ns_at clk i \<le> ns_at clk j" using w0(4) by (intro ns_mono [OF assms(1)]) simp
  moreover have "ns_at clk j \<le> ns_at clk (bus_count (demo_timer w0))" using w0(5) by (intro ns_mono [OF assms(1)]) simp
  ultimately have "ns_at clk (bus_count (demo_timer w0) + 5) \<le> ns_at clk i + 10000000000 \<longrightarrow>
      (\<exists>w' k1 k2. timer_round clk w0 = Some w' \<and> dd_sched w' = dd_sched w0 \<and> k1 < k2 \<and>
        mtimecmp (demo_timer w') = clk_mtime clk k2 + word_of_int (ns_ticks clk (max 0 (ns_at clk j + 20000000000 - ns_at clk k1))))"
    using timer_round_sleeps [OF assms(1) w0(2,3,6)] by (auto simp: same_program_def)
  with w0 show ?thesis by blast
qed

theorem timer_sleeps_past_first_witness:
  "\<exists>w0 w'. timer_setup still_clock raw_nodes (\<lambda>_. 128) 0 0 0 delay_world = Some w0 \<and> timer_round still_clock w0 = Some w' \<and>
    mtimecmp (demo_timer w') = 200000007"
proof -
  have r: "length raw_nodes = 10" by (simp add: raw_nodes_def)
  have "ns_ticks still_clock 20000000000 = 200000000" "clk_mtime still_clock k = 7" for k
    by (simp_all add: ns_ticks_def still_clock_def clk_freq_def MTIME_FREQ_HZ_def)
  with timer_sleeps_past_first [OF small_still r hart_ok_delay_world frames_fit_delay_world(1), of 0 0 0] show ?thesis
    unfolding ns_at_still by auto
qed

end
