(* ===== verification/Startup.thy ===== *)
theory Startup
  imports Interfaces Wake_Condition
begin

text \<open>
  \<open>src/startup.cpp\<close> on RV32: the reset entry \<open>_enter\<close>, the initialisation of memory and the calls
  of the constructors in \<open>_start\<close>, and the idle loop \<open>_Exit\<close>. The memory maps the address of a
  word to its value; an address outside its domain has no memory, and an access there or at an
  unaligned address is undefined. The symbols of the linker script are the fields of a record.
  The code at a function's address (the constructors, \<open>main\<close>) is a parameter.
\<close>

section \<open>Memory\<close>

type_synonym mem = "32 word \<rightharpoonup> 32 word"

definition aligned :: "32 word \<Rightarrow> bool" where
  "aligned a = (a AND 3 = 0)"

definition load_word :: "32 word \<Rightarrow> mem \<Rightarrow> 32 word option" where
  "load_word a m = (if aligned a then m a else None)"

definition store_word :: "32 word \<Rightarrow> 32 word \<Rightarrow> mem \<Rightarrow> mem option" where
  "store_word a v m = (if aligned a \<and> m a \<noteq> None then Some (m(a \<mapsto> v)) else None)"

text \<open>
  \<open>std::fill\<close> and \<open>std::copy\<close> on pointers to \<open>uintptr_t\<close>: they advance by one word until the
  pointer equals the end. \<open>fill_round\<close> is one round of the first.
\<close>

definition fill_round :: "32 word \<Rightarrow> 32 word \<times> mem \<Rightarrow> (32 word \<times> mem) option" where
  "fill_round v x = do { m \<leftarrow> store_word (fst x) v (snd x); Some (fst x + 4, m) }"

partial_function (option) std_fill :: "32 word \<Rightarrow> 32 word \<Rightarrow> 32 word \<Rightarrow> mem \<Rightarrow> mem option" where
  "std_fill first stop v m =
     (if first = stop then Some m
      else Option.bind (fill_round v (first, m)) (\<lambda>x. std_fill (fst x) stop v (snd x)))"

declare std_fill.simps [code]

partial_function (option) std_copy :: "32 word \<Rightarrow> 32 word \<Rightarrow> 32 word \<Rightarrow> mem \<Rightarrow> mem option" where
  "std_copy first stop d m =
     (if first = stop then Some m
      else Option.bind (load_word first m) (\<lambda>v.
           Option.bind (store_word d v m) (std_copy (first + 4) stop (d + 4))))"

declare std_copy.simps [code]

text \<open>The difference of two pointers to words, which have to be a whole number of words apart.\<close>

definition ptr_diff :: "32 word \<Rightarrow> 32 word \<Rightarrow> 32 word option" where
  "ptr_diff a b = (if (a - b) AND 3 = 0 then Some (word_of_int (sint (a - b) div 4)) else None)"

section \<open>\<open>_start\<close>\<close>

record linker_symbols =
  bss_target_start :: "32 word"
  bss_target_end :: "32 word"
  data_source_start :: "32 word"
  data_target_start :: "32 word"
  data_target_end :: "32 word"
  itim_source_start :: "32 word"
  itim_target_start :: "32 word"
  itim_target_end :: "32 word"
  init_array_start :: "32 word"
  init_array_end :: "32 word"
  global_pointer :: "32 word"
  stack_pointer :: "32 word"

definition copy_segment :: "32 word \<Rightarrow> 32 word \<Rightarrow> 32 word \<Rightarrow> mem \<Rightarrow> mem option" where
  "copy_segment source target_start target_end m = do {
     n \<leftarrow> ptr_diff target_end target_start;
     std_copy source (source + 4 * n) target_start m
   }"

definition init_memory :: "linker_symbols \<Rightarrow> mem \<Rightarrow> mem option" where
  "init_memory sy m = do {
     m \<leftarrow> std_fill (bss_target_start sy) (bss_target_end sy) 0 m;
     m \<leftarrow> copy_segment (data_source_start sy) (data_target_start sy) (data_target_end sy) m;
     copy_segment (itim_source_start sy) (itim_target_start sy) (itim_target_end sy) m
   }"

text \<open>
  The program counter is a point of the start-up code: \<open>At_enter\<close> and \<open>At_start\<close> the first
  instruction of a function, \<open>At_init p\<close> the loop over the constructors at element \<open>p\<close>,
  \<open>At_main\<close> the call of \<open>main\<close>, \<open>At_exit rc\<close> the loop of \<open>_Exit\<close>. \<open>'e\<close> is the rest of the state
  that constructors and \<open>main\<close> work on, and \<open>boot_waits\<close> counts the \<open>wfi\<close> instructions of \<open>_Exit\<close>.
\<close>

datatype boot_pc = At_enter | At_start | At_init "32 word" | At_main | At_exit int

record 'e boot =
  boot_pc :: boot_pc
  boot_mem :: mem
  boot_gp :: "32 word"
  boot_sp :: "32 word"
  boot_env :: 'e
  boot_waits :: nat

definition enter_step :: "linker_symbols \<Rightarrow> 'e boot \<Rightarrow> 'e boot option" where
  "enter_step sy b = Some (b\<lparr>boot_gp := global_pointer sy, boot_sp := stack_pointer sy, boot_pc := At_start\<rparr>)"

definition start_step :: "linker_symbols \<Rightarrow> 'e boot \<Rightarrow> 'e boot option" where
  "start_step sy b = do {
     m \<leftarrow> init_memory sy (boot_mem b);
     Some (b\<lparr>boot_mem := m, boot_pc := At_init (init_array_start sy)\<rparr>)
   }"

type_synonym 'e code = "32 word \<Rightarrow> mem \<times> 'e \<Rightarrow> (mem \<times> 'e) option"

definition init_step :: "linker_symbols \<Rightarrow> 'e code \<Rightarrow> 32 word \<Rightarrow> 'e boot \<Rightarrow> 'e boot option" where
  "init_step sy call p b =
     (if p = init_array_end sy then Some (b\<lparr>boot_pc := At_main\<rparr>)
      else do {
        pf \<leftarrow> load_word p (boot_mem b);
        (m, e) \<leftarrow> call pf (boot_mem b, boot_env b);
        Some (b\<lparr>boot_mem := m, boot_env := e, boot_pc := At_init (p + 4)\<rparr>)
      })"

definition main_step :: "(mem \<times> 'e \<Rightarrow> (int \<times> mem \<times> 'e) option) \<Rightarrow> 'e boot \<Rightarrow> 'e boot option" where
  "main_step main b = do {
     (rc, m, e) \<leftarrow> main (boot_mem b, boot_env b);
     Some (b\<lparr>boot_mem := m, boot_env := e, boot_pc := At_exit rc\<rparr>)
   }"

text \<open>One round of the loop of \<open>_Exit\<close>: \<open>wfi\<close>, which \<open>boot_waits\<close> counts.\<close>

definition exit_step :: "'e boot \<Rightarrow> 'e boot option" where
  "exit_step b = Some (b\<lparr>boot_waits := Suc (boot_waits b)\<rparr>)"

definition boot_step :: "linker_symbols \<Rightarrow> 'e code \<Rightarrow> (mem \<times> 'e \<Rightarrow> (int \<times> mem \<times> 'e) option)
    \<Rightarrow> 'e boot \<Rightarrow> 'e boot option" where
  "boot_step sy call main b = (case boot_pc b of
     At_enter \<Rightarrow> enter_step sy b
   | At_start \<Rightarrow> start_step sy b
   | At_init p \<Rightarrow> init_step sy call p b
   | At_main \<Rightarrow> main_step main b
   | At_exit rc \<Rightarrow> exit_step b)"

primrec boot_run :: "linker_symbols \<Rightarrow> 'e code \<Rightarrow> (mem \<times> 'e \<Rightarrow> (int \<times> mem \<times> 'e) option) \<Rightarrow> nat
    \<Rightarrow> 'e boot \<Rightarrow> 'e boot option" where
  "boot_run sy call main 0 b = Some b"
| "boot_run sy call main (Suc n) b = Option.bind (boot_step sy call main b) (boot_run sy call main n)"

section \<open>Regions\<close>

definition region :: "32 word \<Rightarrow> nat \<Rightarrow> 32 word set" where
  "region a n = {a + 4 * of_nat i |i. i < n}"

lemma region_0 [simp]: "region a 0 = {}"
  by (simp add: region_def)

lemma region_Suc: "region a (Suc n) = insert a (region (a + 4) n)"
proof -
  have "{f i |i. i < Suc n} = insert (f 0) {f (Suc i) |i. i < n}" for f :: "nat \<Rightarrow> 32 word"
    by (auto simp: less_Suc_eq_0_disj)
  from this [of "\<lambda>i. a + 4 * of_nat i"] show ?thesis by (simp add: region_def algebra_simps)
qed

lemma region_mem: "i < n \<Longrightarrow> a + 4 * of_nat i \<in> region a n"
  by (auto simp: region_def)

lemma words_neq_0:
  assumes "0 < n" and "n < 2 ^ 30"
  shows "4 * (of_nat n :: 32 word) \<noteq> 0"
proof -
  have "unat (of_nat (4 * n) :: 32 word) = 4 * n"
    using assms(2) by (simp only: unat_of_nat) simp
  then have "unat (4 * (of_nat n :: 32 word)) = 4 * n" by simp
  with assms(1) show ?thesis by auto
qed

lemma end_neq: "n < 2 ^ 30 \<Longrightarrow> 0 < n \<Longrightarrow> (a :: 32 word) \<noteq> a + 4 * of_nat n"
  using words_neq_0 [of n] by simp

lemma first_not_in_rest: "Suc n < 2 ^ 30 \<Longrightarrow> a \<notin> region (a + 4) n"
proof
  assume "Suc n < 2 ^ 30" "a \<in> region (a + 4) n"
  then obtain i where i: "i < n" "a = a + 4 * of_nat (Suc i)" by (auto simp: region_def algebra_simps)
  with end_neq [of "Suc i" a] \<open>Suc n < 2 ^ 30\<close> show False by simp
qed

lemma aligned_iff: "aligned a \<longleftrightarrow> 4 dvd unat a"
proof -
  have m: "(3 :: 32 word) = mask 2" by (simp add: mask_eq_exp_minus_1)
  have "unat (a AND mask 2) = take_bit 2 (unat a)" by (simp only: unsigned_take_bit_eq flip: take_bit_eq_mask)
  then have "unat (a AND 3) = unat a mod 4" by (simp add: m take_bit_eq_mod)
  then have "a AND 3 = 0 \<longleftrightarrow> unat a mod 4 = 0" by (metis unsigned_0 unsigned_eq_0_iff)
  then show ?thesis by (simp add: aligned_def dvd_eq_mod_eq_0)
qed

lemma aligned_add:
  assumes "aligned b"
  shows "aligned (a + b) = aligned a"
proof -
  have "unat (a + b) = (unat a + unat b) mod 2 ^ 32" by (simp add: unat_word_ariths)
  then have "unat (a + b) mod 4 = (unat a + unat b) mod 4" by (simp add: mod_mod_cancel)
  then have "4 dvd unat (a + b) \<longleftrightarrow> 4 dvd unat a + unat b" by (simp only: dvd_eq_mod_eq_0)
  with assms show ?thesis by (simp add: aligned_iff dvd_add_left_iff)
qed

lemma aligned_add_4 [simp]: "aligned (a + 4) = aligned a"
  by (rule aligned_add) (simp add: aligned_iff)

section \<open>Filling and copying\<close>

lemma std_fill_region:
  assumes "n < 2 ^ 30" and "aligned a" and "region a n \<subseteq> dom m"
  shows "std_fill a (a + 4 * of_nat n) v m = Some (\<lambda>x. if x \<in> region a n then Some v else m x)"
  using assms
proof (induction n arbitrary: a m)
  case 0
  then show ?case by (simp add: std_fill.simps)
next
  case (Suc n)
  have "a \<noteq> a + 4 * of_nat (Suc n)" using Suc.prems(1) by (intro end_neq) simp_all
  moreover have "store_word a v m = Some (m(a \<mapsto> v))"
    using Suc.prems by (auto simp: store_word_def region_Suc)
  moreover have "std_fill (a + 4) (a + 4 + 4 * of_nat n) v (m(a \<mapsto> v)) =
      Some (\<lambda>x. if x \<in> region (a + 4) n then Some v else (m(a \<mapsto> v)) x)"
    using Suc.prems by (intro Suc.IH) (auto simp: region_Suc)
  ultimately have "std_fill a (a + 4 * of_nat (Suc n)) v m =
      Some (\<lambda>x. if x \<in> region (a + 4) n then Some v else (m(a \<mapsto> v)) x)"
    by (subst std_fill.simps) (simp add: fill_round_def algebra_simps)
  then show ?case by (auto simp: region_Suc fun_eq_iff)
qed

text \<open>Copying from \<open>s\<close> to a region that does not overlap the source.\<close>

definition copied :: "32 word \<Rightarrow> 32 word \<Rightarrow> nat \<Rightarrow> mem \<Rightarrow> mem" where
  "copied s d n m = (\<lambda>x. if x \<in> region d n then m (s + (x - d)) else m x)"

lemma std_copy_region:
  assumes "n < 2 ^ 30" and "aligned s" and "aligned d" and "region s n \<subseteq> dom m" and "region d n \<subseteq> dom m"
    and "region s n \<inter> region d n = {}"
  shows "std_copy s (s + 4 * of_nat n) d m = Some (copied s d n m)"
  using assms
proof (induction n arbitrary: s d m)
  case 0
  then show ?case by (simp add: std_copy.simps copied_def)
next
  case (Suc n)
  then obtain v where v: "m s = Some v" by (auto simp: region_Suc)
  let ?m = "m(d \<mapsto> v)"
  have "s \<noteq> s + 4 * of_nat (Suc n)" using Suc.prems(1) by (intro end_neq) simp_all
  moreover have "load_word s m = Some v" "store_word d v m = Some ?m"
    using Suc.prems v by (auto simp: load_word_def store_word_def region_Suc)
  moreover have "std_copy (s + 4) (s + 4 + 4 * of_nat n) (d + 4) ?m = Some (copied (s + 4) (d + 4) n ?m)"
    using Suc.prems by (intro Suc.IH) (auto simp: region_Suc)
  ultimately have r: "std_copy s (s + 4 * of_nat (Suc n)) d m = Some (copied (s + 4) (d + 4) n ?m)"
    by (subst std_copy.simps) (simp add: algebra_simps)
  have "copied (s + 4) (d + 4) n ?m x = copied s d (Suc n) m x" for x
  proof (cases "x \<in> region (d + 4) n")
    case True
    then obtain i where i: "i < n" "x = d + 4 + 4 * of_nat i" by (auto simp: region_def)
    then have "s + (x - d) \<in> region s (Suc n)" using region_mem [of "Suc i" "Suc n" s] by (simp add: algebra_simps)
    moreover have "d \<notin> region s (Suc n)" using Suc.prems(6) region_mem [of 0 "Suc n" d] by auto
    ultimately have "s + (x - d) \<noteq> d" by metis
    with True show ?thesis by (simp add: copied_def region_Suc)
  next
    case False
    then show ?thesis using v by (simp add: copied_def region_Suc)
  qed
  with r show ?case by (simp add: fun_eq_iff)
qed

lemma ptr_diff_words:
  assumes "n < 2 ^ 29"
  shows "ptr_diff (a + 4 * of_nat n) a = Some (of_nat n)"
proof -
  have "to_int32 (int (4 * n)) = int (4 * n)" using assms by (intro to_int32_small) simp_all
  then have "sint (word_of_int (int (4 * n)) :: 32 word) = int (4 * n)" by (simp only: to_int32_def)
  then have "sint (4 * (of_nat n :: 32 word)) = 4 * int n" by simp
  moreover have "aligned (4 * of_nat n)"
  proof -
    have "unat (of_nat (4 * n) :: 32 word) = 4 * n" using assms by (simp only: unat_of_nat) simp
    then show ?thesis by (simp add: aligned_iff)
  qed
  ultimately show ?thesis by (simp add: ptr_diff_def aligned_def)
qed

text \<open>
  What \<open>_start\<close> relies on for segments of \<open>nb\<close>, \<open>nd\<close> and \<open>ni\<close> words: they begin at word
  boundaries, are a whole number of words long, lie in memory, and no target overlaps a source or
  another target. The linker script aligns the beginnings but does not round the ends; the last
  section shows what a .bss of another size does.
\<close>

definition segment_ok :: "mem \<Rightarrow> 32 word \<Rightarrow> nat \<Rightarrow> bool" where
  "segment_ok m a n \<longleftrightarrow> aligned a \<and> n < 2 ^ 29 \<and> region a n \<subseteq> dom m"

definition layout_ok :: "linker_symbols \<Rightarrow> nat \<Rightarrow> nat \<Rightarrow> nat \<Rightarrow> mem \<Rightarrow> bool" where
  "layout_ok sy nb nd ni m \<longleftrightarrow>
     bss_target_end sy = bss_target_start sy + 4 * of_nat nb \<and>
     data_target_end sy = data_target_start sy + 4 * of_nat nd \<and>
     itim_target_end sy = itim_target_start sy + 4 * of_nat ni \<and>
     segment_ok m (bss_target_start sy) nb \<and>
     segment_ok m (data_source_start sy) nd \<and> segment_ok m (data_target_start sy) nd \<and>
     segment_ok m (itim_source_start sy) ni \<and> segment_ok m (itim_target_start sy) ni \<and>
     region (bss_target_start sy) nb \<inter> (region (data_source_start sy) nd \<union> region (itim_source_start sy) ni) = {} \<and>
     region (bss_target_start sy) nb \<inter> (region (data_target_start sy) nd \<union> region (itim_target_start sy) ni) = {} \<and>
     region (data_target_start sy) nd \<inter> (region (data_source_start sy) nd \<union> region (itim_source_start sy) ni) = {} \<and>
     region (itim_target_start sy) ni \<inter> (region (itim_source_start sy) ni \<union> region (data_target_start sy) nd) = {}"

definition cleared :: "32 word \<Rightarrow> nat \<Rightarrow> mem \<Rightarrow> mem" where
  "cleared a n m = (\<lambda>x. if x \<in> region a n then Some 0 else m x)"

lemma dom_cleared: "dom m \<subseteq> dom (cleared a n m)"
  by (auto simp: cleared_def)

lemma region_shift: "x \<in> region d n \<Longrightarrow> s + (x - d) \<in> region s n"
  by (auto simp: region_def)

lemma dom_copied: "region s n \<subseteq> dom m \<Longrightarrow> dom m \<subseteq> dom (copied s d n m)"
  using region_shift [of _ d n s] by (fastforce simp: copied_def)

lemma copy_segment_region:
  assumes "segment_ok m s n" and "segment_ok m d n" and "region s n \<inter> region d n = {}"
  shows "copy_segment s d (d + 4 * of_nat n) m = Some (copied s d n m)"
  using assms std_copy_region [of n s d m] by (simp add: copy_segment_def ptr_diff_words segment_ok_def)

lemma segment_ok_mono: "segment_ok m a n \<Longrightarrow> dom m \<subseteq> dom m' \<Longrightarrow> segment_ok m' a n"
  unfolding segment_ok_def by blast

lemma layout_disjoint:
  assumes "layout_ok sy nb nd ni m"
  shows "region (data_source_start sy) nd \<inter> region (data_target_start sy) nd = {}"
    "region (itim_source_start sy) ni \<inter> region (itim_target_start sy) ni = {}"
    "region (data_source_start sy) nd \<inter> region (bss_target_start sy) nb = {}"
    "region (itim_source_start sy) ni \<inter> region (bss_target_start sy) nb = {}"
    "region (itim_source_start sy) ni \<inter> region (data_target_start sy) nd = {}"
    "region (bss_target_start sy) nb \<inter> region (data_target_start sy) nd = {}"
    "region (bss_target_start sy) nb \<inter> region (itim_target_start sy) ni = {}"
    "region (data_target_start sy) nd \<inter> region (itim_target_start sy) ni = {}"
  using assms unfolding layout_ok_def by blast+

lemma init_memory_eq:
  assumes "layout_ok sy nb nd ni m"
  shows "init_memory sy m = Some (copied (itim_source_start sy) (itim_target_start sy) ni
    (copied (data_source_start sy) (data_target_start sy) nd (cleared (bss_target_start sy) nb m)))"
proof -
  let ?m1 = "cleared (bss_target_start sy) nb m"
  let ?m2 = "copied (data_source_start sy) (data_target_start sy) nd ?m1"
  have "std_fill (bss_target_start sy) (bss_target_end sy) 0 m = Some ?m1"
    using assms std_fill_region [of nb "bss_target_start sy" m 0] by (simp add: layout_ok_def segment_ok_def cleared_def)
  moreover have s1: "segment_ok ?m1 a n" if "segment_ok m a n" for a n
    using that by (rule segment_ok_mono) (rule dom_cleared)
  then have "copy_segment (data_source_start sy) (data_target_start sy) (data_target_end sy) ?m1 = Some ?m2"
    using assms copy_segment_region [of ?m1 "data_source_start sy" nd "data_target_start sy"] layout_disjoint(1) [OF assms]
    by (simp add: layout_ok_def)
  moreover have "segment_ok ?m2 a n" if "segment_ok m a n" for a n
    using s1 [OF that] by (rule segment_ok_mono) (rule dom_copied, use s1 assms in \<open>auto simp: layout_ok_def segment_ok_def\<close>)
  then have "copy_segment (itim_source_start sy) (itim_target_start sy) (itim_target_end sy) ?m2 =
      Some (copied (itim_source_start sy) (itim_target_start sy) ni ?m2)"
    using assms copy_segment_region [of ?m2 "itim_source_start sy" ni "itim_target_start sy"] layout_disjoint(2) [OF assms]
    by (simp add: layout_ok_def)
  ultimately show ?thesis by (simp add: init_memory_def)
qed

lemma copied_in: "x \<in> region d n \<Longrightarrow> copied s d n m x = m (s + (x - d))"
  by (simp add: copied_def)

lemma copied_out: "x \<notin> region d n \<Longrightarrow> copied s d n m x = m x"
  by (simp add: copied_def)

text \<open>The memory that \<open>main\<close> finds.\<close>

lemma init_memory_contents:
  assumes ok: "layout_ok sy nb nd ni m"
  shows "\<exists>m'. init_memory sy m = Some m' \<and>
    (\<forall>x \<in> region (bss_target_start sy) nb. m' x = Some 0) \<and>
    (\<forall>x \<in> region (data_target_start sy) nd. m' x = m (data_source_start sy + (x - data_target_start sy))) \<and>
    (\<forall>x \<in> region (itim_target_start sy) ni. m' x = m (itim_source_start sy + (x - itim_target_start sy))) \<and>
    (\<forall>x. x \<notin> region (bss_target_start sy) nb \<union> region (data_target_start sy) nd \<union> region (itim_target_start sy) ni
       \<longrightarrow> m' x = m x)"
proof -
  let ?B = "region (bss_target_start sy) nb" and ?D = "region (data_target_start sy) nd"
    and ?I = "region (itim_target_start sy) ni"
  let ?m1 = "cleared (bss_target_start sy) nb m"
  let ?m2 = "copied (data_source_start sy) (data_target_start sy) nd ?m1"
  let ?m3 = "copied (itim_source_start sy) (itim_target_start sy) ni ?m2"
  note d = layout_disjoint [OF ok]
  have m1: "?m1 x = m x" if "x \<notin> ?B" for x using that by (simp add: cleared_def)
  have "?m3 x = Some 0" if "x \<in> ?B" for x
  proof -
    have "x \<notin> ?I" "x \<notin> ?D" using that d(6,7) by blast+
    with that show ?thesis by (simp add: copied_out cleared_def)
  qed
  moreover have "?m3 x = m (data_source_start sy + (x - data_target_start sy))" if x: "x \<in> ?D" for x
  proof -
    have "data_source_start sy + (x - data_target_start sy) \<notin> ?B"
      using region_shift [OF x, of "data_source_start sy"] d(3) by blast
    moreover have "x \<notin> ?I" using x d(8) by blast
    ultimately show ?thesis using x m1 by (simp add: copied_out copied_in)
  qed
  moreover have "?m3 x = m (itim_source_start sy + (x - itim_target_start sy))" if x: "x \<in> ?I" for x
  proof -
    let ?y = "itim_source_start sy + (x - itim_target_start sy)"
    have "?y \<notin> ?B" "?y \<notin> ?D"
      using region_shift [OF x, of "itim_source_start sy"] d(4,5) by blast+
    with x m1 show ?thesis by (simp add: copied_in copied_out)
  qed
  moreover have "?m3 x = m x" if "x \<notin> ?B \<union> ?D \<union> ?I" for x using that m1 by (simp add: copied_out)
  ultimately show ?thesis using init_memory_eq [OF ok] by (intro exI [of _ ?m3]) blast
qed

section \<open>The loop over the constructors\<close>

lemma boot_run_add:
  "boot_run sy call main (k + n) b = Option.bind (boot_run sy call main k b) (boot_run sy call main n)"
  by (induction k arbitrary: b) (auto simp: bind_assoc split: Option.bind_splits)

text \<open>The constructors \<open>pfs\<close> are in the array at \<open>p\<close> and do not write to it.\<close>

definition array_holds :: "32 word \<Rightarrow> 32 word list \<Rightarrow> mem \<Rightarrow> bool" where
  "array_holds p pfs m \<longleftrightarrow> (\<forall>i < length pfs. m (p + 4 * of_nat i) = Some (pfs ! i))"

definition keeps_array :: "'e code \<Rightarrow> 32 word \<Rightarrow> nat \<Rightarrow> bool" where
  "keeps_array call p n \<longleftrightarrow>
     (\<forall>pf m e m' e'. call pf (m, e) = Some (m', e') \<longrightarrow> (\<forall>x \<in> region p n. m' x = m x))"

lemma array_holds_Cons:
  "array_holds p (pf # pfs) m \<longleftrightarrow> m p = Some pf \<and> array_holds (p + 4) pfs m"
  by (simp add: array_holds_def All_less_Suc2 algebra_simps)

lemma constructors_run:
  assumes "array_holds p pfs m" and "keeps_array call p (length pfs)" and "aligned p" and "length pfs < 2 ^ 29"
    and "init_array_end sy = p + 4 * of_nat (length pfs)" and "run_ops call pfs (m, e) = Some (m', e')"
  shows "boot_run sy call main (Suc (length pfs)) \<lparr>boot_pc = At_init p, boot_mem = m, boot_gp = g, boot_sp = q, boot_env = e, boot_waits = j\<rparr> =
    Some \<lparr>boot_pc = At_main, boot_mem = m', boot_gp = g, boot_sp = q, boot_env = e', boot_waits = j\<rparr>"
  using assms
proof (induction pfs arbitrary: p m e)
  case Nil
  then show ?case by (simp add: boot_step_def init_step_def)
next
  case (Cons pf pfs)
  from Cons.prems(6) obtain m1 e1 where
    c: "call pf (m, e) = Some (m1, e1)" "run_ops call pfs (m1, e1) = Some (m', e')"
    by (auto simp: bind_eq_Some_iff)
  have "p \<noteq> init_array_end sy" unfolding Cons.prems(5) using Cons.prems(4) by (intro end_neq) simp_all
  moreover have "load_word p m = Some pf" using Cons.prems(1,3) by (simp add: load_word_def array_holds_Cons)
  moreover have "array_holds (p + 4) pfs m1"
  proof -
    have "\<forall>x \<in> region p (Suc (length pfs)). m1 x = m x"
      using Cons.prems(2) c(1) unfolding keeps_array_def list.size by fastforce
    then have "\<forall>x \<in> region (p + 4) (length pfs). m1 x = m x" by (simp add: region_Suc)
    moreover have "array_holds (p + 4) pfs m" using Cons.prems(1) by (simp add: array_holds_Cons)
    ultimately show ?thesis using region_mem by (auto simp: array_holds_def)
  qed
  moreover have "keeps_array call (p + 4) (length pfs)"
    using Cons.prems(2) by (auto simp: keeps_array_def region_Suc)
  ultimately show ?case
    using Cons.IH [of "p + 4" m1 e1] Cons.prems c
    by (simp add: boot_step_def init_step_def algebra_simps)
qed

section \<open>An end that is never met\<close>

lemma aligned_0 [simp]: "aligned 0"
  by (simp add: aligned_def)

lemma aligned_step: "aligned (b - (a + 4)) = aligned (b - a)"
proof -
  have "b - a = b - (a + 4) + 4" by simp
  then show ?thesis by (metis aligned_add_4)
qed

lemma std_fill_end:
  assumes "std_fill a b v m = Some m'"
  shows "aligned (b - a)"
proof (rule std_fill.raw_induct [OF _ assms, of "\<lambda>a b v m m'. aligned (b - a)"])
  fix f a b v m m'
  assume IH: "\<And>a b v m m'. f a b v m = Some m' \<Longrightarrow> aligned (b - a)"
    and "(if a = b then Some m else Option.bind (fill_round v (a, m)) (\<lambda>x. f (fst x) b v (snd x))) = Some m'"
  then show "aligned (b - a)"
    by (auto simp: fill_round_def bind_eq_Some_iff aligned_step dest!: IH split: if_splits)
qed

lemma exit_forever:
  "boot_pc b = At_exit rc \<Longrightarrow> boot_run sy call main n b = Some (b\<lparr>boot_waits := boot_waits b + n\<rparr>)"
  by (induction n arbitrary: b) (simp_all add: boot_step_def exit_step_def)

section \<open>Properties\<close>

text \<open>
  C38: for segments that begin at word boundaries, are a whole number of words long and do not
  overlap, the memory initialisation of _start returns: every word of .bss is zero, .data and
  .itim hold the words of their images as they were before, and no other word of memory has
  changed. In particular clearing .bss does not damage the images and copying .data does not
  damage the image of .itim.
\<close>

theorem memory_initialised:
  assumes "layout_ok sy nb nd ni m"
  shows "\<exists>m'. init_memory sy m = Some m' \<and>
    (\<forall>i < nb. m' (bss_target_start sy + 4 * of_nat i) = Some 0) \<and>
    (\<forall>i < nd. m' (data_target_start sy + 4 * of_nat i) = m (data_source_start sy + 4 * of_nat i)) \<and>
    (\<forall>i < ni. m' (itim_target_start sy + 4 * of_nat i) = m (itim_source_start sy + 4 * of_nat i)) \<and>
    (\<forall>x. x \<notin> region (bss_target_start sy) nb \<union> region (data_target_start sy) nd \<union> region (itim_target_start sy) ni
       \<longrightarrow> m' x = m x)"
proof -
  from init_memory_contents [OF assms] obtain m' where m': "init_memory sy m = Some m'"
    "\<forall>x \<in> region (bss_target_start sy) nb. m' x = Some 0"
    "\<forall>x \<in> region (data_target_start sy) nd. m' x = m (data_source_start sy + (x - data_target_start sy))"
    "\<forall>x \<in> region (itim_target_start sy) ni. m' x = m (itim_source_start sy + (x - itim_target_start sy))"
    "\<forall>x. x \<notin> region (bss_target_start sy) nb \<union> region (data_target_start sy) nd \<union> region (itim_target_start sy) ni
       \<longrightarrow> m' x = m x" by blast
  then have "\<forall>i < nb. m' (bss_target_start sy + 4 * of_nat i) = Some 0"
    "\<forall>i < nd. m' (data_target_start sy + 4 * of_nat i) = m (data_source_start sy + 4 * of_nat i)"
    "\<forall>i < ni. m' (itim_target_start sy + 4 * of_nat i) = m (itim_source_start sy + 4 * of_nat i)"
    by (simp_all add: region_mem)
  with m'(1,5) show ?thesis by blast
qed

text \<open>A layout with two words of .data, one of .itim and two of .bss, and one constructor.\<close>

definition demo_symbols :: linker_symbols where
  "demo_symbols = \<lparr>bss_target_start = 0x80000008, bss_target_end = 0x80000010,
     data_source_start = 0x20010008, data_target_start = 0x80000000, data_target_end = 0x80000008,
     itim_source_start = 0x20010010, itim_target_start = 0x8000000, itim_target_end = 0x8000004,
     init_array_start = 0x20010000, init_array_end = 0x20010004,
     global_pointer = 0x80000800, stack_pointer = 0x80000410\<rparr>"

definition demo_mem :: mem where
  "demo_mem = map_of [(0x20010000, 0x20010100), (0x20010008, 7), (0x2001000C, 9), (0x20010010, 0x13),
     (0x80000000, 1), (0x80000004, 2), (0x80000008, 3), (0x8000000C, 4), (0x8000000, 5)]"

lemma region_small [simp]: "region a (Suc 0) = {a}" "region a 2 = {a, a + 4}"
proof -
  have "region a (Suc (Suc 0)) = {a, a + 4}" by (simp only: region_Suc region_0)
  then show "region a (Suc 0) = {a}" "region a 2 = {a, a + 4}" by (simp_all only: region_Suc region_0 numeral_2_eq_2)
qed

lemma all_less_2: "(\<forall>i < 2. P i) \<longleftrightarrow> P 0 \<and> P (1 :: nat)"
  by (auto simp: less_2_cases_iff)

lemma demo_layout: "layout_ok demo_symbols 2 2 1 demo_mem"
  by (simp add: layout_ok_def segment_ok_def demo_symbols_def demo_mem_def aligned_def)

theorem memory_initialised_witness:
  "\<exists>m'. init_memory demo_symbols demo_mem = Some m' \<and> m' 0x80000000 = Some 7 \<and> m' 0x80000004 = Some 9 \<and>
    m' 0x80000008 = Some 0 \<and> m' 0x8000000C = Some 0 \<and> m' 0x8000000 = Some 0x13 \<and> m' 0x20010008 = Some 7"
proof -
  from memory_initialised [OF demo_layout] obtain m' where m': "init_memory demo_symbols demo_mem = Some m'"
    "\<forall>i < 2. m' (bss_target_start demo_symbols + 4 * of_nat i) = Some 0"
    "\<forall>i < 2. m' (data_target_start demo_symbols + 4 * of_nat i) = demo_mem (data_source_start demo_symbols + 4 * of_nat i)"
    "\<forall>i < 1. m' (itim_target_start demo_symbols + 4 * of_nat i) = demo_mem (itim_source_start demo_symbols + 4 * of_nat i)"
    "\<forall>x. x \<notin> region (bss_target_start demo_symbols) 2 \<union> region (data_target_start demo_symbols) 2 \<union>
       region (itim_target_start demo_symbols) 1 \<longrightarrow> m' x = demo_mem x" by blast
  have "m' 0x20010008 = demo_mem 0x20010008"
    using m'(5) by (simp add: demo_symbols_def)
  with m'(1-4) show ?thesis by (simp add: demo_symbols_def demo_mem_def all_less_2)
qed

text \<open>
  C39: from reset, the start-up code reaches the call of main after one step for _enter, one for
  the memory initialisation and one per constructor and for the end of their loop. The stack and
  global pointers are those of the linker script, and the state is the initialised memory as the
  constructors left it, called in the order of the array. When main returns, the hart stays in the
  loop of _Exit for good, executing one wfi per round, with memory as main left it. The
  constructors are assumed not to write to the array itself.
\<close>

theorem boot_reaches_main:
  assumes "layout_ok sy nb nd ni m" and "array_holds (init_array_start sy) pfs m"
    and "region (init_array_start sy) (length pfs) \<inter> (region (bss_target_start sy) nb \<union>
      region (data_target_start sy) nd \<union> region (itim_target_start sy) ni) = {}"
    and "keeps_array call (init_array_start sy) (length pfs)" and "aligned (init_array_start sy)"
    and "length pfs < 2 ^ 29" and "init_array_end sy = init_array_start sy + 4 * of_nat (length pfs)"
    and "init_memory sy m = Some m1" and "run_ops call pfs (m1, e) = Some (m2, e2)"
  shows "boot_run sy call main (length pfs + 3) \<lparr>boot_pc = At_enter, boot_mem = m, boot_gp = g, boot_sp = q, boot_env = e, boot_waits = j\<rparr> =
      Some \<lparr>boot_pc = At_main, boot_mem = m2, boot_gp = global_pointer sy, boot_sp = stack_pointer sy, boot_env = e2, boot_waits = j\<rparr> \<and>
    (\<forall>rc m3 e3 n. main (m2, e2) = Some (rc, m3, e3) \<longrightarrow>
      boot_run sy call main (length pfs + 4 + n) \<lparr>boot_pc = At_enter, boot_mem = m, boot_gp = g, boot_sp = q, boot_env = e, boot_waits = j\<rparr> =
        Some \<lparr>boot_pc = At_exit rc, boot_mem = m3, boot_gp = global_pointer sy, boot_sp = stack_pointer sy, boot_env = e3, boot_waits = j + n\<rparr>)"
proof -
  let ?b0 = "\<lparr>boot_pc = At_enter, boot_mem = m, boot_gp = g, boot_sp = q, boot_env = e, boot_waits = j\<rparr>"
  let ?b1 = "\<lparr>boot_pc = At_init (init_array_start sy), boot_mem = m1, boot_gp = global_pointer sy,
    boot_sp = stack_pointer sy, boot_env = e, boot_waits = j\<rparr>"
  let ?b2 = "\<lparr>boot_pc = At_main, boot_mem = m2, boot_gp = global_pointer sy, boot_sp = stack_pointer sy, boot_env = e2, boot_waits = j\<rparr>"
  have same: "m1 x = m x" if "x \<in> region (init_array_start sy) (length pfs)" for x
    using init_memory_contents [OF assms(1)] assms(3,8) that by fastforce
  have "array_holds (init_array_start sy) pfs m1"
    unfolding array_holds_def
  proof (intro allI impI)
    fix i
    assume i: "i < length pfs"
    with same [OF region_mem [OF i]] assms(2) show "m1 (init_array_start sy + 4 * of_nat i) = Some (pfs ! i)"
      by (simp add: array_holds_def)
  qed
  from constructors_run [OF this assms(4-7,9), of main]
  have "boot_run sy call main (Suc (length pfs)) ?b1 = Some ?b2" .
  moreover have "boot_run sy call main 2 ?b0 = Some ?b1"
    using assms(8) by (simp add: numeral_2_eq_2 boot_step_def enter_step_def start_step_def)
  ultimately have "boot_run sy call main (2 + Suc (length pfs)) ?b0 = Some ?b2"
    by (simp only: boot_run_add Option.bind.bind_lunit)
  moreover have "2 + Suc (length pfs) = length pfs + 3" by simp
  ultimately have r: "boot_run sy call main (length pfs + 3) ?b0 = Some ?b2" by (simp only:)
  have "boot_run sy call main (length pfs + 4 + n) ?b0 =
      Some \<lparr>boot_pc = At_exit rc, boot_mem = m3, boot_gp = global_pointer sy, boot_sp = stack_pointer sy, boot_env = e3, boot_waits = j + n\<rparr>"
    if "main (m2, e2) = Some (rc, m3, e3)" for rc m3 e3 n
  proof -
    have "boot_run sy call main (length pfs + 3 + Suc n) ?b0 = boot_run sy call main (Suc n) ?b2"
      unfolding boot_run_add [of sy call main "length pfs + 3"] r by simp
    moreover have "length pfs + 3 + Suc n = length pfs + 4 + n" by simp
    ultimately have "boot_run sy call main (length pfs + 4 + n) ?b0 = boot_run sy call main (Suc n) ?b2"
      by (simp only:)
    also have "\<dots> = Some \<lparr>boot_pc = At_exit rc, boot_mem = m3, boot_gp = global_pointer sy,
        boot_sp = stack_pointer sy, boot_env = e3, boot_waits = j + n\<rparr>"
      using that by (simp add: boot_step_def main_step_def exit_forever)
    finally show ?thesis .
  qed
  with r show ?thesis by blast
qed

text \<open>A constructor that writes a word of .bss, and a \<open>main\<close> that returns 0.\<close>

definition demo_call :: "nat code" where
  "demo_call pf x = (if pf = 0x20010100 then Some ((fst x)(0x80000008 \<mapsto> 42), Suc (snd x)) else None)"

theorem boot_reaches_main_witness:
  "\<exists>m2. boot_run demo_symbols demo_call (\<lambda>(m, e). Some (0, m, e)) 4
      \<lparr>boot_pc = At_enter, boot_mem = demo_mem, boot_gp = 0, boot_sp = 0, boot_env = 0, boot_waits = 0\<rparr> =
    Some \<lparr>boot_pc = At_main, boot_mem = m2, boot_gp = 0x80000800, boot_sp = 0x80000410, boot_env = 1, boot_waits = 0\<rparr> \<and>
    m2 0x80000008 = Some 42"
proof -
  obtain m1 where m1: "init_memory demo_symbols demo_mem = Some m1"
    using init_memory_contents [OF demo_layout] by blast
  have "array_holds (init_array_start demo_symbols) [0x20010100] demo_mem"
    by (simp add: array_holds_def demo_symbols_def demo_mem_def)
  moreover have "region (init_array_start demo_symbols) (length [0x20010100 :: 32 word]) \<inter>
      (region (bss_target_start demo_symbols) 2 \<union> region (data_target_start demo_symbols) 2 \<union>
       region (itim_target_start demo_symbols) 1) = {}"
    by (simp add: demo_symbols_def)
  moreover have "keeps_array demo_call (init_array_start demo_symbols) (length [0x20010100 :: 32 word])"
    by (simp add: keeps_array_def demo_call_def demo_symbols_def region_Suc)
  moreover have "run_ops demo_call [0x20010100] (m1, 0) = Some (m1(0x80000008 \<mapsto> 42), 1)"
    by (simp add: demo_call_def)
  ultimately show ?thesis
    using boot_reaches_main [OF demo_layout, of "[0x20010100]" demo_call m1 0 "m1(0x80000008 \<mapsto> 42)" 1
        "\<lambda>(m, e). Some (0, m, e)" 0 0] m1
    by (auto simp: demo_symbols_def aligned_def)
qed

text \<open>Clearing one more word, and the rounds of a fill that does not meet its end.\<close>

lemma region_snoc: "region a (Suc n) = insert (a + 4 * of_nat n) (region a n)"
  by (auto simp: region_def less_Suc_eq)

lemma cleared_snoc: "cleared a (Suc n) m = (cleared a n m)(a + 4 * of_nat n \<mapsto> 0)"
  by (auto simp: cleared_def region_snoc)

lemma aligned_words: "aligned (4 * of_nat n)"
  by (induction n) (simp_all add: add.commute [of 4])

lemma never_at_end:
  assumes "\<not> aligned (b - a)"
  shows "a + 4 * of_nat n \<noteq> b"
proof
  assume "a + 4 * of_nat n = b"
  then have "b - a = 4 * of_nat n" by (simp add: algebra_simps)
  with assms aligned_words [of n] show False by simp
qed

lemma fill_overruns:
  assumes "\<not> aligned (b - a)" and "aligned a" and "region a n \<subseteq> dom m"
  shows "while_rounds (\<lambda>x. fst x \<noteq> b) (fill_round 0) n (a, m) = Some (a + 4 * of_nat n, cleared a n m)"
  using assms(3)
proof (induction n)
  case 0
  then show ?case by (simp add: cleared_def)
next
  case (Suc n)
  then have IH: "while_rounds (\<lambda>x. fst x \<noteq> b) (fill_round 0) n (a, m) = Some (a + 4 * of_nat n, cleared a n m)"
    by (simp add: region_snoc)
  have "a + 4 * of_nat n \<in> dom (cleared a n m)" 
    using Suc.prems dom_cleared [of m a n] by (auto simp: region_snoc dom_def)
  moreover have "aligned (a + 4 * of_nat n)" using assms(2) aligned_add [OF aligned_words] by simp
  ultimately have "fill_round 0 (a + 4 * of_nat n, cleared a n m) = Some (a + 4 * of_nat (Suc n), cleared a (Suc n) m)"
    by (auto simp: fill_round_def store_word_def cleared_snoc)
  with while_rounds_snoc [OF IH] never_at_end [OF assms(1)] show ?case by simp
qed

text \<open>
  C40: when the size of .bss is not a whole number of words, std::fill runs past its end. For any
  number n of words of memory that follow the beginning of .bss, the loop makes n rounds without
  undefined behaviour, has then cleared all n words, those after .bss included, and its pointer is
  not at the end; the only way out is a store to where there is no memory. The start-up code never
  gets as far as the constructors or main. The linker script does not round the end of .bss up to
  a word.
\<close>

theorem unaligned_bss_never_boots:
  assumes "\<not> aligned (bss_target_end sy - bss_target_start sy)" and "aligned (bss_target_start sy)"
  shows "(\<forall>n. region (bss_target_start sy) n \<subseteq> dom m \<longrightarrow>
      while_rounds (\<lambda>x. fst x \<noteq> bss_target_end sy) (fill_round 0) n (bss_target_start sy, m) =
        Some (bss_target_start sy + 4 * of_nat n, cleared (bss_target_start sy) n m) \<and>
      bss_target_start sy + 4 * of_nat n \<noteq> bss_target_end sy \<and>
      (fill_round 0 (bss_target_start sy + 4 * of_nat n, cleared (bss_target_start sy) n m) = None \<longrightarrow>
        m (bss_target_start sy + 4 * of_nat n) = None)) \<and>
    (\<forall>n b. boot_run sy call main n
        \<lparr>boot_pc = At_enter, boot_mem = m, boot_gp = g, boot_sp = q, boot_env = e, boot_waits = j\<rparr> = Some b \<longrightarrow>
      boot_pc b \<in> {At_enter, At_start})"
proof (intro conjI allI impI)
  fix n
  assume n: "region (bss_target_start sy) n \<subseteq> dom m"
  show "while_rounds (\<lambda>x. fst x \<noteq> bss_target_end sy) (fill_round 0) n (bss_target_start sy, m) =
      Some (bss_target_start sy + 4 * of_nat n, cleared (bss_target_start sy) n m)"
    using fill_overruns [OF assms n] .
  show "bss_target_start sy + 4 * of_nat n \<noteq> bss_target_end sy" using never_at_end [OF assms(1)] .
  show "m (bss_target_start sy + 4 * of_nat n) = None"
    if "fill_round 0 (bss_target_start sy + 4 * of_nat n, cleared (bss_target_start sy) n m) = None"
    using that assms(2) aligned_add [OF aligned_words, of "bss_target_start sy" n]
    by (auto simp: fill_round_def store_word_def cleared_def split: if_splits)
next
  fix n b
  let ?b = "\<lparr>boot_pc = At_enter, boot_mem = m, boot_gp = g, boot_sp = q, boot_env = e, boot_waits = j\<rparr>"
  assume b: "boot_run sy call main n ?b = Some b"
  have "init_memory sy m = None"
    using std_fill_end [of "bss_target_start sy" "bss_target_end sy" 0 m] assms(1)
    by (cases "std_fill (bss_target_start sy) (bss_target_end sy) 0 m") (auto simp: init_memory_def)
  then have stop: "boot_run sy call main (Suc (Suc k)) ?b = None" for k
    by (simp add: boot_step_def enter_step_def start_step_def)
  consider "n = 0" | "n = 1" | k where "n = Suc (Suc k)" by (metis One_nat_def old.nat.exhaust)
  then show "boot_pc b \<in> {At_enter, At_start}"
  proof cases
    case 3
    with b stop [of k] show ?thesis by simp
  qed (use b in \<open>auto simp: boot_step_def enter_step_def\<close>)
qed

text \<open>A .bss of five bytes, and a word of other data after it.\<close>

theorem unaligned_bss_never_boots_witness:
  "\<exists>x. while_rounds (\<lambda>x. fst x \<noteq> 0x8000000D) (fill_round 0) 3 (0x80000008, demo_mem(0x80000010 \<mapsto> 77)) = Some x \<and>
    fst x = 0x80000014 \<and> snd x 0x80000010 = Some 0"
proof -
  let ?sy = "demo_symbols\<lparr>bss_target_end := 0x8000000D\<rparr>" and ?m = "demo_mem(0x80000010 \<mapsto> 77)"
  have r: "region 0x80000008 3 = {0x80000008, 0x8000000C, 0x80000010}"
    by (simp add: numeral_3_eq_3 region_Suc)
  have "\<not> aligned (bss_target_end ?sy - bss_target_start ?sy)" "aligned (bss_target_start ?sy)"
    by (simp_all add: demo_symbols_def aligned_def)
  note boots = unaligned_bss_never_boots [OF this, where m = ?m and call = demo_call and main = "\<lambda>(m, e). Some (0, m, e)"
      and g = 0 and q = 0 and e = 0 and j = 0]
  have "region (bss_target_start ?sy) 3 \<subseteq> dom ?m \<longrightarrow>
      while_rounds (\<lambda>x. fst x \<noteq> bss_target_end ?sy) (fill_round 0) 3 (bss_target_start ?sy, ?m) =
        Some (bss_target_start ?sy + 4 * of_nat 3, cleared (bss_target_start ?sy) 3 ?m)"
    using boots [THEN conjunct1, THEN spec, of 3] by blast
  then have "region 0x80000008 3 \<subseteq> dom ?m \<longrightarrow>
      while_rounds (\<lambda>x. fst x \<noteq> 0x8000000D) (fill_round 0) 3 (0x80000008, ?m) =
        Some (0x80000014, cleared 0x80000008 3 ?m)" by (simp add: demo_symbols_def)
  moreover have "region 0x80000008 3 \<subseteq> dom ?m" unfolding r by (auto simp: demo_mem_def)
  ultimately show ?thesis by (auto simp: cleared_def r)
qed

end
