(* ===== verification/Main_Program.thy ===== *)
theory Main_Program
  imports Example_Irq_Correct Example_Delay_Correct Startup
begin

text \<open>
  \<open>src/main.cpp\<close> and the three example programs as a whole: setup, then rounds of a main loop
  that has no exit. \<open>main\<close> runs the examples that its flags select; what they do is an argument.
\<close>

text \<open>\<open>do { ... } while (true)\<close>\<close>

partial_function (option) forever :: "('s \<Rightarrow> 's option) \<Rightarrow> 's \<Rightarrow> 's option" where
  "forever step s = Option.bind (step s) (forever step)"

definition example_simple :: "board_clock \<Rightarrow> (nat, schedule_by_delay) schedule_entry static_list_node list
    \<Rightarrow> (nat \<Rightarrow> 32 word) \<Rightarrow> 32 word \<Rightarrow> nat \<Rightarrow> 32 word \<Rightarrow> delay_demo \<Rightarrow> delay_demo option" where
  "example_simple clk raw frame entry T handler w = do {
     w \<leftarrow> simple_setup clk raw frame entry T handler w;
     forever (simple_round clk) w
   }"

definition example_timer :: "board_clock \<Rightarrow> (nat, schedule_by_delay) schedule_entry static_list_node list
    \<Rightarrow> (nat \<Rightarrow> 32 word) \<Rightarrow> 32 word \<Rightarrow> nat \<Rightarrow> 32 word \<Rightarrow> delay_demo \<Rightarrow> delay_demo option" where
  "example_timer clk raw frame entry T handler w = do {
     w \<leftarrow> timer_setup clk raw frame entry T handler w;
     forever (timer_round clk) w
   }"

definition example_irq :: "board_clock \<Rightarrow> (ctx \<Rightarrow> nat static_list_node list) \<Rightarrow> (nat \<Rightarrow> 32 word) \<Rightarrow> 32 word \<Rightarrow> nat \<Rightarrow> 32 word
    \<Rightarrow> irq_demo \<Rightarrow> irq_demo option" where
  "example_irq clk raw frame entry T handler w = do {
     w \<leftarrow> irq_setup clk raw frame entry T handler w;
     forever (irq_main_round clk) w
   }"

record test_flags =
  TEST_SIMPLE :: bool
  TEST_IRQ :: bool
  TEST_TIMERS :: bool

definition default_flags :: test_flags where
  "default_flags = \<lparr>TEST_SIMPLE = True, TEST_IRQ = False, TEST_TIMERS = False\<rparr>"

definition main_program :: "test_flags \<Rightarrow> ('w \<Rightarrow> 'w option) \<Rightarrow> ('w \<Rightarrow> 'w option) \<Rightarrow> ('w \<Rightarrow> 'w option)
    \<Rightarrow> 'w \<Rightarrow> (int \<times> 'w) option" where
  "main_program f simple irq timers w = do {
     w \<leftarrow> (if TEST_SIMPLE f then simple w else Some w);
     w \<leftarrow> (if TEST_IRQ f then irq w else Some w);
     w \<leftarrow> (if TEST_TIMERS f then timers w else Some w);
     Some (0, w)
   }"

section \<open>Nothing comes after the main loop\<close>

lemma forever_never_returns: "forever step s = None"
proof (cases "forever step s")
  case (Some t)
  have False by (rule forever.raw_induct [OF _ Some, of "\<lambda>_ _ _. False"]) (auto simp: bind_eq_Some_iff)
  then show ?thesis ..
qed

lemma examples_never_return:
  "example_simple clk raw frame entry T handler w = None"
  "example_timer clk raw frame entry T handler w = None"
  "example_irq clk raw' frame entry T handler w' = None"
proof -
  have "Option.bind x (forever step) = None" for x and step :: "'s \<Rightarrow> 's option"
    by (cases x) (simp_all add: forever_never_returns)
  then show "example_simple clk raw frame entry T handler w = None" "example_timer clk raw frame entry T handler w = None"
    "example_irq clk raw' frame entry T handler w' = None"
    by (simp_all add: example_simple_def example_timer_def example_irq_def)
qed

text \<open>With the flags of the source the hart does not get to \<open>_Exit\<close>.\<close>

lemma main_never_returns:
  assumes "\<And>w. simple w = None"
  shows "main_program default_flags simple irq timers w = None"
  using assms by (simp add: main_program_def default_flags_def)

lemma main_returns_iff_no_flag:
  assumes "\<And>w. simple w = None" and "\<And>w. irq w = None" and "\<And>w. timers w = None"
  shows "main_program f simple irq timers w =
    (if TEST_SIMPLE f \<or> TEST_IRQ f \<or> TEST_TIMERS f then None else Some (0, w))"
  using assms by (simp add: main_program_def)

lemma boot_never_exits:
  assumes "\<And>x. main x = None"
    and "boot_run sy call main n \<lparr>boot_pc = At_enter, boot_mem = m, boot_gp = g, boot_sp = q, boot_env = e, boot_waits = j\<rparr> = Some b"
  shows "\<forall>rc. boot_pc b \<noteq> At_exit rc"
proof -
  have "boot_run sy call main n b0 = Some b \<Longrightarrow> \<forall>rc. boot_pc b0 \<noteq> At_exit rc \<Longrightarrow> \<forall>rc. boot_pc b \<noteq> At_exit rc" for b0
  proof (induction n arbitrary: b0)
    case (Suc n)
    then obtain b1 where b1: "boot_step sy call main b0 = Some b1" "boot_run sy call main n b1 = Some b"
      by (auto simp: bind_eq_Some_iff)
    have "\<forall>rc. boot_pc b1 \<noteq> At_exit rc"
      using b1(1) Suc.prems(2) assms(1)
      by (auto simp: boot_step_def enter_step_def start_step_def init_step_def main_step_def bind_eq_Some_iff
          split: boot_pc.splits if_splits)
    with Suc.IH [OF b1(2)] show ?case by blast
  qed simp
  from this [OF assms(2)] show ?thesis by simp
qed

end
