(* ===== verification/Spec2Isabelle.thy ===== *)
theory Spec2Isabelle
  imports Nop_Task Pmr_List Isr_Race Host Main_Program
begin

text \<open>
  A verification development for \<open>baremetal-cxx-coro\<close>, a header-only C++20 library that runs
  coroutines on a RISC-V micro-controller without an operating system or a heap.

  \<^bold>\<open>The program.\<close> A coroutine of type \<open>nop_task\<close> runs until it awaits one of three
  schedulers. The awaitable then stores the coroutine's handle and a wake condition (an expiry
  time or a priority) in the scheduler's \<open>static_list\<close>, a linked list in a fixed array. The main
  loop, or an interrupt handler, calls the scheduler's \<open>resume\<close>, which takes a coroutine that may
  run off the list and resumes it. Time comes from the machine timer through \<open>mtimer_clock\<close>, the
  timer interrupt is programmed through \<open>driver::timer\<close>, and interrupts are enabled and handlers
  installed through the control and status registers (CSRs). The \<open>trace_log_manager\<close> keeps the
  last records of what \<open>resume\<close> did.

  \<^bold>\<open>Conventions.\<close> A computation that can be undefined in C++ or may not return is a function into
  \<open>option\<close>, with \<open>None\<close> for undefined behaviour or no return, so that every theorem \<open>f x = Some y\<close>
  is also a statement of termination and of the absence of undefined behaviour. Where a loop does
  not end, the theorem says so of its rounds (\<open>while_rounds\<close>), each of which is defined. Loops whose
  length depends on data are \<open>partial_function (option)\<close>; no definition uses fuel. Registers and
  counters are machine words; durations are 64 bit counts with checked arithmetic.

  \<^bold>\<open>Theories and sources\<close> (paths under \<open>src/\<close>).
  \<^item> \<open>Coro_Prelude\<close>: outcomes, pointers, checked 64 bit arithmetic, \<open>std::chrono\<close> conversions,
    generic lemmas. \<open>Interfaces\<close>: the locales \<open>op_refinement\<close> (a sequence of concrete operations
    simulates a sequence of abstract ones), \<open>bounded_list\<close> (what a scheduler asks of its
    container), \<open>interrupt_bits\<close> (what the main loops ask of the enable bits) and \<open>clock_source\<close>
    (what the wake conditions ask of a clock). \<open>Static_List_Correct\<close> provides the second,
    \<open>Board\<close> and \<open>Host\<close> the third, \<open>Mtimer\<close> and \<open>Host\<close> the fourth.
  \<^item> \<open>Static_List\<close>: \<open>include/coro/static_list.hpp\<close>, one definition per member function, on an
    explicit array of nodes. \<open>Static_List_Correct\<close>: the invariant \<open>wf_list\<close> (a used and a free
    chain that partition the array), the abstraction \<open>contents\<close>, and that every operation
    preserves the one and acts on the other as on a bounded sequence (C1), also iteration in both
    directions (C30). \<open>Pmr_List\<close>: the variant of the same file over \<open>std::pmr::list\<close>, and for how
    many insertions it agrees with the first (C21).
  \<^item> \<open>Trace_Log\<close>: \<open>include/debug/trace.hpp\<close>; the ring holds the last 128 time stamps (C25).
  \<^item> \<open>Wake_Condition\<close>: \<open>schedule_by_delay\<close> and \<open>schedule_by_priority\<close> of
    \<open>include/coro/scheduler.hpp\<close>, the locale \<open>wake_test\<close> both satisfy, and the exactness of
    \<open>delay()\<close> (C26).
  \<^item> \<open>Scheduler\<close>: \<open>schedule_entry\<close>, \<open>scheduler_ordered\<close>, \<open>scheduler_unordered\<close> of the same file.
    The coroutine that is resumed is the argument \<open>resume_h\<close>, a function that may change the list
    it was taken from. \<open>Scheduler_Correct\<close>: one step of each operation for any \<open>wake_test\<close>;
    \<open>Scheduler_Order\<close>: refinement of a bounded priority queue (C2, C3), the order of wake-ups
    (C4, C5, C8), single steps of \<open>resume\<close> (C6, C7), a loop of which every round is defined but
    which has no last round (C9) and insertion into a full list (C10).
  \<^item> \<open>Awaitable\<close>: the three awaitables and \<open>co_await\<close> operators of \<open>include/coro/awaitable_*.hpp\<close>.
  \<^item> \<open>Nop_Task\<close>: \<open>include/coro/nop_task.hpp\<close>, the promise, the frame allocator (C22, C23) and the
    done flags over any sequence of calls and ends of coroutines (C24).
  \<^item> \<open>Mtimer\<close>: \<open>include/riscv/timer.hpp\<close> and \<open>scheduler-timer-mtimer.hpp\<close> for RV32 and RV64. The
    counter is the argument \<open>clk\<close>, its value at each bus access, and the frequency is an argument
    too: \<open>MTIME_FREQ_HZ\<close> has the default of the header (32768) and the value a build can set
    (10000000 in \<open>CMakeLists.txt\<close>). C11 and C12 are the two protocols of the driver, C28 and C29
    what the clock does before and at \<open>2 ^ 31\<close> ticks, for any frequency.
  \<^item> \<open>Csr_Access\<close>, \<open>Csr_Ops\<close>, \<open>Csr_Fields\<close>, \<open>Csr_Regs\<close>: \<open>include/riscv/riscv-csr.hpp\<close> in full, with
    one definition per structure of the file, over the Zicsr instructions. What a register keeps
    of a written value is the field \<open>csr_legal\<close> of the hart, and what a write does to other
    registers is its field \<open>csr_views\<close>: in the ISA \<open>sstatus\<close> is a view of \<open>mstatus\<close>, so a theorem
    that a register keeps its value assumes \<open>csr_leaves\<close> of that pair. \<open>Csr_Correct\<close>: the members of
    a field (C13, C14), the members of \<open>all\<close> and the register each works on (C15), the constant
    forms on RV32 and RV64 (C16, C19) and a trap vector that cannot be written through its
    field (C17).
  \<^item> \<open>Irq\<close>: \<open>include/riscv/riscv-irq.hpp\<close> and \<open>riscv-interrupts.hpp\<close> (C20).
  \<^item> \<open>Board\<close>: the devices of the RV32 board as the examples use them, \<open>include/riscv/riscv-isa.hpp\<close>
    included: \<open>wfi\<close> records the registers it waits with. \<open>call_coro\<close> is the call of a coroutine: it
    allocates the frame with \<open>Nop_Task\<close>, and the body runs only when that succeeds. \<open>Host\<close>: the
    host emulation \<open>include/host/*.hpp\<close>, and that the sleep of the main loops waits once, with
    the timer interrupt enabled and interrupts globally disabled, and enables them after it, on
    both (C18).
  \<^item> \<open>Example_Irq\<close>, \<open>Example_Irq_Correct\<close>: \<open>src/example_irq.cpp\<close> on RV32, with reachability by
    rounds of the main loop and interrupts between them (C31, C32). \<open>Isr_Race\<close>: an interrupt
    inside \<open>pop_front\<close> (C33).
  \<^item> \<open>Example_Delay\<close>, \<open>Example_Delay_Correct\<close>: \<open>src/example_simple.cpp\<close> and \<open>src/example_timer.cpp\<close>
    on RV32. The life of the periodic coroutine (C34), how precisely the main loop programs the
    timer, in ticks of any frequency up to 50 MHz (C35), the round that uses an empty \<open>std::optional\<close> (C36) and a main loop that sleeps
    past the first expiry (C37).
  \<^item> \<open>Startup\<close>: \<open>src/startup.cpp\<close> as a step function on a word memory: initialisation of memory
    (C38), the way from reset to \<open>main\<close> and the loop of \<open>_Exit\<close> (C39), and a .bss whose size is
    not a whole number of words, whose fill runs past its end (C40). \<open>Main_Program\<close>: \<open>src/main.cpp\<close> and the example functions as a whole, which do not
    return.
  \<^item> This theory: C27, which spans the awaitables, the schedulers and the clock.

  \<^bold>\<open>Parameters.\<close> The hardware (\<open>clk\<close>, \<open>csr_legal\<close>, \<open>csr_views\<close>, the domain of \<open>csr_file\<close>), the
  frequency that the build defines (\<open>clk_target\<close>), the code a resumed coroutine runs (\<open>resume_h\<close>),
  the frame sizes the compiler chooses (\<open>frame\<close>, with \<open>frames_fit\<close> where they must fit), the function objects in memory (\<open>objects\<close>), the symbols of the
  linker script, the code at the addresses of the constructors (\<open>call\<close>) and what the C++ standard
  leaves to the implementation of \<open>std::pmr\<close> (\<open>elem_layout\<close>, \<open>pmr_env\<close>) are arguments. What
  the theorems assume of them (a timer that does not run backwards, a register that stores the
  bits of a field) is written in each statement and shown to be possible by its witness.

  \<^bold>\<open>Not modelled.\<close> The compiler's transformation of a coroutine into a frame is taken as the
  language defines it: a coroutine is given by its code between two suspension points. An
  interrupt is taken between two rounds of a main loop; \<open>Isr_Race\<close> models one point inside a
  round. Log output, the tests and the build files are left out.
\<close>

section \<open>Properties that span components\<close>

text \<open>Where an entry goes in a list in order: in front of the entries that expire later.\<close>

lemma insert_spec_first:
  assumes "\<forall>en \<in> set es. expires c < expires (entry_condition en)"
  shows "insert_spec ready_by_delay h c es = new_entry h c # es"
  using assms by (cases es) (simp_all add: insert_spec_def ready_by_delay_def)

lemma insert_spec_behind:
  assumes "in_order ready_by_delay es" and "en \<in> set es" and "expires (entry_condition en) \<le> expires c"
  shows "insert_spec ready_by_delay h c es = hd es # insert_spec ready_by_delay h c (tl es)"
    and "expires (entry_condition (hd es)) \<le> expires (entry_condition en)"
proof -
  obtain e ds where es: "es = e # ds" using assms(2) by (cases es) auto
  with assms(1,2) show "expires (entry_condition (hd es)) \<le> expires (entry_condition en)"
    by (auto simp: in_order_def no_later_def ready_by_delay_def)
  with assms(3) es show "insert_spec ready_by_delay h c es = hd es # insert_spec ready_by_delay h c (tl es)"
    by (simp add: insert_spec_def ready_by_delay_def)
qed

text \<open>What the next \<open>resume\<close> does after a coroutine \<open>h\<close> has been inserted with condition \<open>c\<close>.\<close>

lemma resume_before_expiry:
  assumes "wf_list l" and "in_order ready_by_delay (contents l)" and "contents l \<noteq> []"
    and "\<forall>en \<in> set (contents l). expires rc \<le> expires (entry_condition en)"
  shows "\<exists>rep tr'. scheduler_resume resume_h ready_by_delay rc (l, tr, e) = Some ((True, Some rep), l, tr', e) \<and>
    rep \<in> entry_condition ` set (contents l) \<and> (\<forall>en \<in> set (contents l). expires (entry_condition en) \<le> expires rep)"
proof -
  have "\<forall>en \<in> set (contents l). \<not> entry_ready ready_by_delay en rc"
    using assms(4) by (force simp: entry_ready_def ready_by_delay_def)
  from by_delay.resume_rest [OF assms(1,2) this, of tr resume_h e] by_delay.track_latest [OF assms(3)] assms(3)
  show ?thesis by auto
qed

lemma resume_head:
  assumes "wf_list l" and "in_order ready_by_delay (contents l)" and "contents l = en # es"
    and "expires (entry_condition en) < expires rc"
  shows "\<exists>l1 tr1. wf_list l1 \<and> contents l1 = es \<and> scheduler_resume resume_h ready_by_delay rc (l, tr, e) =
    do { w' \<leftarrow> resume_h (entry_handle en) (l1, tr1, e); Some ((True, None), w') }"
proof -
  have "entry_ready ready_by_delay en rc" using assms(4) by (simp add: entry_ready_def ready_by_delay_def)
  from by_delay.resume_first [OF assms(1-3) this, of tr resume_h e] show ?thesis by blast
qed

text \<open>
  C27: a coroutine h that awaits a delay of d microseconds on a scheduler_delay with room, at
  time t, is suspended until x = t + d * 1000 (the clock counts nanoseconds). The next resume,
  with time t', has one of three outcomes. While neither h nor any other entry has expired it
  leaves the list as it is and reports the latest expiry, which is x when nothing else waits.
  When an entry that expires at or before x has expired, that one (the first) is resumed and h
  goes on waiting among the others. Otherwise, when t' is after x and every other entry expires
  after x, h is taken off the list and resumed, and the list is again as it was before the await.
\<close>

theorem await_delay_wakes_on_time:
  assumes "wf_list s" and "in_order ready_by_delay (contents s)" and "length (contents s) < capacity s"
    and "d \<noteq> 0" and "\<bar>d\<bar> < 2 ^ 52" and "\<bar>t\<bar> < 2 ^ 62"
  shows "\<exists>s'. await_delay period_nano t dflt \<lparr>sd_delay = d\<rparr> h s = Some (True, s') \<and> wf_list s' \<and>
    (t' \<le> t + d * 1000 \<and> (\<forall>en \<in> set (contents s). t' \<le> expires (entry_condition en)) \<longrightarrow>
      (\<exists>rep tr'. scheduler_resume resume_h ready_by_delay \<lparr>expires = t'\<rparr> (s', tr, e) = Some ((True, Some rep), s', tr', e) \<and>
         rep \<in> insert \<lparr>expires = t + d * 1000\<rparr> (entry_condition ` set (contents s)) \<and> t + d * 1000 \<le> expires rep \<and>
         (\<forall>en \<in> set (contents s). expires (entry_condition en) \<le> expires rep))) \<and>
    ((\<exists>en \<in> set (contents s). expires (entry_condition en) < t' \<and> expires (entry_condition en) \<le> t + d * 1000) \<longrightarrow>
      (\<exists>s1 tr1. wf_list s1 \<and> contents s1 = insert_spec ready_by_delay h \<lparr>expires = t + d * 1000\<rparr> (tl (contents s)) \<and>
         scheduler_resume resume_h ready_by_delay \<lparr>expires = t'\<rparr> (s', tr, e) =
           do { w' \<leftarrow> resume_h (entry_handle (hd (contents s))) (s1, tr1, e); Some ((True, None), w') })) \<and>
    (t + d * 1000 < t' \<and> (\<forall>en \<in> set (contents s). t + d * 1000 < expires (entry_condition en)) \<longrightarrow>
      (\<exists>s1 tr1. wf_list s1 \<and> contents s1 = contents s \<and>
         scheduler_resume resume_h ready_by_delay \<lparr>expires = t'\<rparr> (s', tr, e) =
           do { w' \<leftarrow> resume_h h (s1, tr1, e); Some ((True, None), w') }))"
proof -
  let ?x = "t + d * 1000"
  let ?c = "\<lparr>expires = ?x\<rparr>" and ?r = "\<lambda>s'. scheduler_resume resume_h ready_by_delay \<lparr>expires = t'\<rparr> (s', tr, e)"
  obtain s' where s': "await_delay period_nano t dflt \<lparr>sd_delay = d\<rparr> h s = Some (True, s')" "wf_list s'"
    and c: "contents s' = insert_spec ready_by_delay h ?c (contents s)"
    using await_delay_contents [OF assms(1,4-6), of dflt h] assms(3) by (auto simp: add_spec_def)
  have io: "in_order ready_by_delay (contents s')" unfolding c using assms(2) by (rule by_delay.insert_spec_in_order)
  have set: "set (contents s') = insert (new_entry h ?c) (set (contents s))"
    unfolding c using arg_cong [OF mset_insert_spec, of set_mset] by simp
  then have ne: "contents s' \<noteq> []" by auto
  have "\<exists>rep tr'. ?r s' = Some ((True, Some rep), s', tr', e) \<and> rep \<in> insert ?c (entry_condition ` set (contents s)) \<and>
      ?x \<le> expires rep \<and> (\<forall>en \<in> set (contents s). expires (entry_condition en) \<le> expires rep)"
    if "t' \<le> ?x \<and> (\<forall>en \<in> set (contents s). t' \<le> expires (entry_condition en))"
    using resume_before_expiry [OF s'(2) io ne, of "\<lparr>expires = t'\<rparr>" resume_h tr e] set that by auto
  moreover have "\<exists>s1 tr1. wf_list s1 \<and> contents s1 = insert_spec ready_by_delay h ?c (tl (contents s)) \<and>
      ?r s' = do { w' \<leftarrow> resume_h (entry_handle (hd (contents s))) (s1, tr1, e); Some ((True, None), w') }"
    if ex: "\<exists>en \<in> set (contents s). expires (entry_condition en) < t' \<and> expires (entry_condition en) \<le> ?x"
  proof -
    from ex obtain en where en: "en \<in> set (contents s)" "expires (entry_condition en) < t'" "expires (entry_condition en) \<le> ?x"
      by blast
    from insert_spec_behind(1) [OF assms(2) en(1), of ?c h] insert_spec_behind(2) [OF assms(2) en(1), of ?c] en(2,3) c show ?thesis
      by (intro resume_head [OF s'(2) io]) simp_all
  qed
  moreover have "\<exists>s1 tr1. wf_list s1 \<and> contents s1 = contents s \<and>
      ?r s' = do { w' \<leftarrow> resume_h h (s1, tr1, e); Some ((True, None), w') }"
    if late: "?x < t' \<and> (\<forall>en \<in> set (contents s). ?x < expires (entry_condition en))"
    using resume_head [OF s'(2) io, of "new_entry h ?c" "contents s" "\<lparr>expires = t'\<rparr>" resume_h tr e]
      insert_spec_first [of "contents s" ?c h] c late by simp
  ultimately show ?thesis using s' by blast
qed

theorem await_delay_wakes_on_time_witness:
  "\<exists>s s' s1 tr1. wf_list s \<and> contents s = [new_entry 2 \<lparr>expires = 2000000\<rparr>] \<and>
    await_delay period_nano 500 (new_entry 0 \<lparr>expires = 0\<rparr>) \<lparr>sd_delay = 1000\<rparr> (7 :: nat) s = Some (True, s') \<and>
    contents s1 = contents s \<and>
    scheduler_resume (\<lambda>h w. Some (fst w, fst (snd w), h)) ready_by_delay \<lparr>expires = 1000501\<rparr> (s', trace_init, 0) =
      Some ((True, None), s1, tr1, 7)"
proof -
  obtain s :: "(nat, schedule_by_delay) schedule_entry static_list" where
    s: "wf_list s" "capacity s = 2" "contents s = [new_entry 2 \<lparr>expires = 2000000\<rparr>]"
    using exists_list [of "[new_entry (2 :: nat) \<lparr>expires = 2000000\<rparr>]" 2] by auto
  then have "in_order ready_by_delay (contents s)" by (simp add: in_order_def)
  with s await_delay_wakes_on_time [of s 1000 500 "new_entry 0 \<lparr>expires = 0\<rparr>" 7 1000501
      "\<lambda>h w. Some (fst w, fst (snd w), h)" trace_init 0]
  show ?thesis by auto
qed

end
